(* ===== verification/Prelude.thy ===== *)
theory Prelude
  imports Complex_Main "HOL-Library.Word"
begin

text \<open>
  Shared vocabulary of the development: the byte buffers and the file system the server
  passes around, the string operations of the JavaScript runtime that several components
  use (ASCII case mapping, suffix tests, splitting on one character, decimal printing),
  and the generic list lemmas the component proofs rely on.

  Strings are HOL strings: lists of 8-bit characters. The code's strings are UTF-16 in
  JavaScript; every literal the code compares against is ASCII, and the one non-ASCII
  message is written out in UTF-8, the encoding the JSON body carries on the wire.
\<close>

named_theorems js_simps \<open>evaluation rules of the JavaScript built-ins modelled here\<close>

type_synonym bytes = "8 word list"

text \<open>The server's view of the file system: a map from paths to file contents.\<close>

type_synonym fs = "string \<rightharpoonup> bytes"

text \<open>The double quote, which a HOL string literal cannot hold.\<close>

definition dquote :: char where
  "dquote = CHR 0x22"

subsection \<open>ASCII case mapping\<close>

text \<open>
  \<open>String.prototype.toLowerCase\<close> and \<open>toUpperCase\<close> restricted to the characters a
  HOL string holds. Only ASCII letters change; for the comparisons the code makes (format
  names and file extensions, all ASCII letters other than k, s and i) no non-ASCII
  character maps to a character of the compared strings.
\<close>

definition lower_char :: "char \<Rightarrow> char" where
  "lower_char c =
     (let n = of_char c :: nat in if 65 \<le> n \<and> n \<le> 90 then char_of (n + 32) else c)"

definition upper_char :: "char \<Rightarrow> char" where
  "upper_char c =
     (let n = of_char c :: nat in if 97 \<le> n \<and> n \<le> 122 then char_of (n - 32) else c)"

definition to_lower :: "string \<Rightarrow> string" where
  "to_lower s = map lower_char s"

definition to_upper :: "string \<Rightarrow> string" where
  "to_upper s = map upper_char s"

subsection \<open>Suffixes\<close>

definition ends_with :: "string \<Rightarrow> string \<Rightarrow> bool" where
  "ends_with suf s \<longleftrightarrow> length suf \<le> length s \<and> drop (length s - length suf) s = suf"

subsection \<open>Splitting on one character\<close>

text \<open>\<open>s.split(d)\<close> for a one-character separator: never empty, pieces free of \<open>d\<close>.\<close>

fun split_on :: "char \<Rightarrow> string \<Rightarrow> string list" where
  "split_on d [] = [[]]"
| "split_on d (c # cs) =
     (let r = split_on d cs in if c = d then [] # r else (c # hd r) # tl r)"

fun join_on :: "char \<Rightarrow> string list \<Rightarrow> string" where
  "join_on d [] = []"
| "join_on d [w] = w"
| "join_on d (w # ws) = w @ d # join_on d ws"

subsection \<open>Decimal printing\<close>

definition digit_char :: "nat \<Rightarrow> char" where
  "digit_char d = char_of (48 + d)"

fun nat_str :: "nat \<Rightarrow> string" where
  "nat_str n = (if n < 10 then [digit_char n] else nat_str (n div 10) @ [digit_char (n mod 10)])"

declare nat_str.simps [simp del]

definition is_digit :: "char \<Rightarrow> bool" where
  "is_digit c \<longleftrightarrow> 48 \<le> (of_char c :: nat) \<and> (of_char c :: nat) \<le> 57"

definition digit_value :: "char \<Rightarrow> nat" where
  "digit_value c = of_char c - 48"

definition dec_value :: "string \<Rightarrow> nat" where
  "dec_value ds = foldl (\<lambda>acc c. 10 * acc + digit_value c) 0 ds"

declare char_of_eq_iff [js_simps]

subsection \<open>Lemmas\<close>

lemma length_to_lower [simp]: "length (to_lower s) = length s"
  by (simp add: to_lower_def)

lemma to_lower_append [simp]: "to_lower (xs @ ys) = to_lower xs @ to_lower ys"
  by (simp add: to_lower_def)

lemma lower_char_idem [simp]: "lower_char (lower_char c) = lower_char c"
proof -
  have "of_char (char_of (of_char c + 32 :: nat)) = (of_char c + 32 :: nat)"
    if "(of_char c :: nat) \<le> 90"
    using that by simp
  then show ?thesis
    by (auto simp: lower_char_def Let_def)
qed

lemma to_lower_idem [simp]: "to_lower (to_lower s) = to_lower s"
  by (simp add: to_lower_def)

lemma ends_with_append [simp]: "ends_with suf (p @ suf)"
  by (simp add: ends_with_def)

lemma ends_with_iff: "ends_with suf s \<longleftrightarrow> (\<exists>p. s = p @ suf)"
proof
  assume "ends_with suf s"
  then have "s = take (length s - length suf) s @ suf"
    by (metis append_take_drop_id ends_with_def)
  then show "\<exists>p. s = p @ suf" ..
next
  assume "\<exists>p. s = p @ suf"
  then show "ends_with suf s" by auto
qed

lemma split_on_not_Nil [simp]: "split_on d s \<noteq> []"
  by (induction s) (auto simp: Let_def)

lemma split_on_pieces: "w \<in> set (split_on d s) \<Longrightarrow> d \<notin> set w"
proof (induction s arbitrary: w)
  case Nil
  then show ?case by simp
next
  case (Cons c cs)
  obtain r rs where r: "split_on d cs = r # rs"
    by (cases "split_on d cs") auto
  with Cons show ?case
    by (auto simp: Let_def split: if_splits)
qed

lemma join_on_split_on [simp]: "join_on d (split_on d s) = s"
proof (induction s)
  case Nil
  then show ?case by simp
next
  case (Cons c cs)
  obtain r rs where r: "split_on d cs = r # rs"
    by (cases "split_on d cs") auto
  with Cons show ?case
    by (cases rs) (auto simp: Let_def)
qed

lemma of_char_digit_char [simp]: "d < 10 \<Longrightarrow> (of_char (digit_char d) :: nat) = 48 + d"
  by (simp add: digit_char_def)

lemma is_digit_digit_char [simp]: "d < 10 \<Longrightarrow> is_digit (digit_char d)"
  by (simp add: is_digit_def)

lemma digit_value_digit_char [simp]: "d < 10 \<Longrightarrow> digit_value (digit_char d) = d"
  by (simp add: digit_value_def)

lemma nat_str_digits: "c \<in> set (nat_str n) \<Longrightarrow> is_digit c"
proof (induction n rule: nat_str.induct)
  case (1 n)
  then show ?case
    by (subst (asm) nat_str.simps) (auto split: if_splits)
qed

lemma nat_str_not_Nil [simp]: "nat_str n \<noteq> []"
  by (subst nat_str.simps) simp

lemma dec_value_snoc [simp]: "dec_value (ds @ [c]) = 10 * dec_value ds + digit_value c"
  by (simp add: dec_value_def)

lemma dec_value_nat_str [simp]: "dec_value (nat_str n) = n"
proof (induction n rule: nat_str.induct)
  case (1 n)
  then show ?case
    by (subst nat_str.simps) (simp add: dec_value_def)
qed

lemma nat_str_no_dot: "CHR ''.'' \<notin> set (nat_str n)"
  using nat_str_digits [of "CHR ''.''" n] by (auto simp: is_digit_def)

lemma split_on_no_sep: "d \<notin> set e \<Longrightarrow> split_on d e = [e]"
  by (induction e) (auto simp: Let_def)

lemma split_on_append_sep: "split_on d (p @ d # e) = split_on d p @ split_on d e"
proof (induction p)
  case Nil
  then show ?case by simp
next
  case (Cons c p)
  obtain r rs where r: "split_on d p = r # rs"
    by (cases "split_on d p") auto
  with Cons show ?case
    by (simp add: Let_def)
qed

lemma last_split_on: "d \<notin> set e \<Longrightarrow> last (split_on d (p @ d # e)) = e"
  by (simp add: split_on_append_sep split_on_no_sep)

lemma lower_char_dot [simp]: "lower_char c = CHR ''.'' \<longleftrightarrow> c = CHR ''.''"
proof
  assume eq: "lower_char c = CHR ''.''"
  show "c = CHR ''.''"
  proof (cases "65 \<le> (of_char c :: nat) \<and> (of_char c :: nat) \<le> 90")
    case True
    then have "(of_char (char_of (of_char c + 32 :: nat)) :: nat) = of_char c + 32"
      by simp
    moreover from True eq have "char_of (of_char c + 32 :: nat) = CHR ''.''"
      by (simp add: lower_char_def)
    ultimately have "(of_char c :: nat) + 32 = 46" by simp
    with True show ?thesis by simp
  next
    case False
    with eq show ?thesis by (simp add: lower_char_def)
  qed
qed (simp add: lower_char_def)

lemma dot_not_in_to_lower: "CHR ''.'' \<notin> set e \<Longrightarrow> CHR ''.'' \<notin> set (to_lower e)"
proof
  assume e: "CHR ''.'' \<notin> set e" and "CHR ''.'' \<in> set (to_lower e)"
  then obtain x where "x \<in> set e" "CHR ''.'' = lower_char x"
    by (auto simp: to_lower_def)
  with e show False by (metis lower_char_dot)
qed

lemma to_lower_suffix:
  assumes "ends_with suf (to_lower s)"
  obtains p t where "s = p @ t" and "to_lower t = suf"
proof -
  from assms obtain q where q: "to_lower s = q @ suf"
    by (auto simp: ends_with_iff)
  then have "map lower_char s = q @ suf" by (simp add: to_lower_def)
  then obtain p t where "s = p @ t" "map lower_char t = suf"
    by (auto simp: map_eq_append_conv)
  then show ?thesis using that by (simp add: to_lower_def)
qed

lemma dot_suffix:
  assumes "to_lower t = CHR ''.'' # x" and "CHR ''.'' \<notin> set x"
  obtains e where "t = CHR ''.'' # e" and "to_lower e = x" and "CHR ''.'' \<notin> set e"
proof -
  from assms(1) obtain c e where t: "t = c # e" "lower_char c = CHR ''.''" "map lower_char e = x"
    by (auto simp: to_lower_def Cons_eq_map_conv)
  have "CHR ''.'' \<notin> set e"
  proof
    assume "CHR ''.'' \<in> set e"
    then have "lower_char (CHR ''.'') \<in> set x" using t(3) by auto
    with assms(2) show False by (simp add: lower_char_def)
  qed
  with t show ?thesis using that by (simp add: to_lower_def)
qed

end
