(* ===== verification/Js_Runtime.thy ===== *)
theory Js_Runtime
  imports Prelude
begin

text \<open>
  The JavaScript and Node.js built-ins whose behaviour the program depends on. For the
  server: \<open>parseInt(s, 10)\<close>, the conversion of a missing form field to a string, the
  \<open>||\<close> default on strings, \<open>Math.round\<close>, the composition
  \<open>path.basename(p, path.extname(p))\<close> of Node's POSIX path module, and the JSON text
  \<open>res.json\<close> sends. For the client: \<open>toFixed(1)\<close>, \<open>replace\<close> with a string
  pattern, \<open>trim\<close>, and the bytes of a text body.

  JavaScript numbers are modelled as \<open>int\<close> where the code only holds integers (the
  results of \<open>parseInt\<close>) and as \<open>rat\<close> where it divides. \<open>NaN\<close> is \<open>None\<close>.
  A decimal digit string longer than 15 digits loses precision as a double; every value the
  code accepts lies in [1, 8000], and a longer string (leading zeros apart) denotes a value
  far outside that range both as a double and as an \<open>int\<close>, so the range checks decide
  the same way.
\<close>

subsection \<open>parseInt with radix 10\<close>

text \<open>
  ECMAScript's \<open>parseInt(string, 10)\<close>: skip leading white space, read an optional sign,
  take the longest prefix of decimal digits, and return \<open>NaN\<close> when it is empty.
  White space is the ASCII set (tab, line feed, vertical tab, form feed, carriage
  return, space). The other members of \<open>StrWhiteSpaceChar\<close> (the no-break space,
  the byte order mark, the Unicode space separators and line terminators) are multi-byte
  sequences in the UTF-8 strings of this model and are not skipped: the model agrees with
  the code on every field whose leading white space is ASCII.
\<close>

definition js_whitespace :: "char \<Rightarrow> bool" where
  "js_whitespace c \<longleftrightarrow> (of_char c :: nat) \<in> {9, 10, 11, 12, 13, 32}"

definition js_sign_split :: "string \<Rightarrow> int \<times> string" where
  "js_sign_split s =
     (case s of
        [] \<Rightarrow> (1, [])
      | c # r \<Rightarrow> if c = CHR ''-'' then (-1, r) else if c = CHR ''+'' then (1, r) else (1, s))"

definition js_parse_int :: "string \<Rightarrow> int option" where
  "js_parse_int s =
     (let (sign, r) = js_sign_split (dropWhile js_whitespace s);
          ds = takeWhile is_digit r
      in if ds = [] then None else Some (sign * int (dec_value ds)))"

text \<open>
  A form field the request does not carry is \<open>undefined\<close>; \<open>parseInt\<close> first converts
  its argument to a string, which gives \<open>"undefined"\<close>.
\<close>

definition js_field_string :: "string option \<Rightarrow> string" where
  "js_field_string v = (case v of None \<Rightarrow> ''undefined'' | Some s \<Rightarrow> s)"

text \<open>\<open>v || d\<close> for a field that is a string or missing: the empty string is falsy.\<close>

definition js_or_default :: "string option \<Rightarrow> string \<Rightarrow> string" where
  "js_or_default v d = (case v of None \<Rightarrow> d | Some s \<Rightarrow> if s = [] then d else s)"

subsection \<open>Math.round and clamping\<close>

text \<open>
  \<open>Math.round(x)\<close> is the integer closest to \<open>x\<close>, the larger one on a tie.
\<close>

definition js_round :: "rat \<Rightarrow> int" where
  "js_round x = \<lfloor>x + 1 / 2\<rfloor>"

definition js_clamp :: "int \<Rightarrow> int \<Rightarrow> int \<Rightarrow> int" where
  "js_clamp lo hi x = max lo (min hi x)"

subsection \<open>Paths\<close>

text \<open>
  The last segment of a POSIX path, trailing slashes ignored: what \<open>path.basename\<close>
  returns without a suffix.
\<close>

definition last_segment :: "string \<Rightarrow> string" where
  "last_segment p =
     rev (takeWhile (\<lambda>c. c \<noteq> CHR ''/'') (dropWhile (\<lambda>c. c = CHR ''/'') (rev p)))"

text \<open>
  \<open>path.extname(p)\<close>: the last segment from its last dot on, or the empty string when
  the segment has no dot, starts with its only dot run before any other character
  (\<open>".png"\<close>) or is \<open>".."\<close>. The index of the last dot is counted from the end.
\<close>

definition extname :: "string \<Rightarrow> string" where
  "extname p =
     (let seg = last_segment p;
          tail = takeWhile (\<lambda>c. c \<noteq> CHR ''.'') (rev seg)
      in if length tail = length seg \<or> length tail + 1 = length seg \<or> seg = ''..''
         then [] else CHR ''.'' # rev tail)"

text \<open>
  \<open>path.basename(p, path.extname(p))\<close>, the composition the handler uses. Node's
  \<open>basename\<close> strips the suffix when it is a proper suffix of the last segment; the
  extension of the path itself is always one (or empty), so the result is the segment
  without it.
\<close>

definition basename_no_ext :: "string \<Rightarrow> string" where
  "basename_no_ext p =
     (let seg = last_segment p in take (length seg - length (extname p)) seg)"

subsection \<open>Number.prototype.toFixed(1) and String.prototype.replace\<close>

text \<open>
  \<open>x.toFixed(1)\<close> for \<open>0 \<le> x < 10^21\<close>: the integer \<open>k\<close> with \<open>k / 10\<close> closest
  to \<open>x\<close>, the larger one on a tie, printed with one decimal. The argument is the exact
  value of the double; the client divides byte counts below \<open>2^53\<close> by powers of two,
  which is exact.
\<close>

definition js_to_fixed1 :: "rat \<Rightarrow> string" where
  "js_to_fixed1 x =
     (let k = nat \<lfloor>10 * x + 1 / 2\<rfloor> in nat_str (k div 10) @ CHR ''.'' # [digit_char (k mod 10)])"

text \<open>\<open>s.replace(a, b)\<close> with a one-character string pattern: the first occurrence only.\<close>

fun js_replace_first :: "char \<Rightarrow> char \<Rightarrow> string \<Rightarrow> string" where
  "js_replace_first a b [] = []"
| "js_replace_first a b (c # cs) = (if c = a then b # cs else c # js_replace_first a b cs)"

text \<open>\<open>s.trim()\<close>.\<close>

definition js_trim :: "string \<Rightarrow> string" where
  "js_trim s = rev (dropWhile js_whitespace (rev (dropWhile js_whitespace s)))"

subsection \<open>JSON.stringify of an error object\<close>

text \<open>
  \<open>res.json({ error: m })\<close> sends \<open>JSON.stringify({error: m})\<close>: the quote and the
  backslash are escaped, as are the control characters below 0x20 (with the short forms
  \<open>\b \t \n \f \r\<close> and \<open>\u00XX\<close> otherwise); every other character is copied.
\<close>

definition hex_digit :: "nat \<Rightarrow> char" where
  "hex_digit d = (if d < 10 then digit_char d else char_of (87 + d))"

definition json_escape_char :: "char \<Rightarrow> string" where
  "json_escape_char c =
     (let n = of_char c :: nat in
      if c = dquote then [CHR 0x5C, dquote]
      else if n = 92 then [CHR 0x5C, CHR 0x5C]
      else if n = 8 then [CHR 0x5C, CHR ''b'']
      else if n = 9 then [CHR 0x5C, CHR ''t'']
      else if n = 10 then [CHR 0x5C, CHR ''n'']
      else if n = 12 then [CHR 0x5C, CHR ''f'']
      else if n = 13 then [CHR 0x5C, CHR ''r'']
      else if n < 32 then [CHR 0x5C, CHR ''u'', CHR ''0'', CHR ''0'', hex_digit (n div 16), hex_digit (n mod 16)]
      else [c])"

definition json_error_text :: "string \<Rightarrow> string" where
  "json_error_text m =
     ''{'' @ [dquote] @ ''error'' @ [dquote] @ '':'' @ [dquote] @ concat (map json_escape_char m) @
     [dquote] @ ''}''"

text \<open>The bytes of a string, as a \<open>Blob\<close> holds them.\<close>

definition string_bytes :: "string \<Rightarrow> bytes" where
  "string_bytes s = map (\<lambda>c. of_nat (of_char c)) s"

lemmas js_eval [js_simps] =
  js_parse_int_def js_sign_split_def js_whitespace_def is_digit_def dec_value_def
  digit_value_def js_field_string_def js_or_default_def to_lower_def lower_char_def

subsection \<open>Lemmas\<close>

lemma js_trim_Nil [simp]: "js_trim [] = []"
  by (simp add: js_trim_def)

lemma is_digit_not_whitespace [simp]: "is_digit c \<Longrightarrow> \<not> js_whitespace c"
  by (auto simp: is_digit_def js_whitespace_def)

lemma is_digit_not_sign [simp]: "is_digit c \<Longrightarrow> c \<noteq> CHR ''-'' \<and> c \<noteq> CHR ''+''"
  by (auto simp: is_digit_def)

lemma js_parse_int_digits:
  assumes "ds \<noteq> []" and "\<forall>c \<in> set ds. is_digit c"
    and "rest = [] \<or> \<not> is_digit (hd rest)"
  shows "js_parse_int (ds @ rest) = Some (int (dec_value ds))"
proof -
  obtain d ds' where ds: "ds = d # ds'"
    using assms(1) by (cases ds) auto
  with assms(2) have d: "is_digit d" by simp
  have "takeWhile is_digit (ds @ rest) = ds"
    using assms(2,3) by (cases rest) auto
  with ds d show ?thesis
    by (simp add: js_parse_int_def js_sign_split_def)
qed

lemma last_segment_no_slash: "CHR ''/'' \<notin> set p \<Longrightarrow> last_segment p = p"
proof -
  assume p: "CHR ''/'' \<notin> set p"
  then have d: "dropWhile (\<lambda>c. c = CHR ''/'') (rev p) = rev p"
    by (cases "rev p") auto
  from p have t: "takeWhile (\<lambda>c. c \<noteq> CHR ''/'') (rev p) = rev p"
    by (auto simp: takeWhile_eq_all_conv)
  show ?thesis
    unfolding last_segment_def d t by simp
qed

lemma extname_dot:
  assumes "CHR ''/'' \<notin> set base" "CHR ''/'' \<notin> set e" "CHR ''.'' \<notin> set e"
    and "base \<noteq> []" "e \<noteq> []"
  shows "extname (base @ CHR ''.'' # e) = CHR ''.'' # e"
proof -
  have seg: "last_segment (base @ CHR ''.'' # e) = base @ CHR ''.'' # e"
    using assms(1,2) by (simp add: last_segment_no_slash)
  have "takeWhile (\<lambda>c. c \<noteq> CHR ''.'') (rev e @ CHR ''.'' # rev base) =
        rev e @ takeWhile (\<lambda>c. c \<noteq> CHR ''.'') (CHR ''.'' # rev base)"
    by (rule takeWhile_append2) (use assms(3) in auto)
  then have "takeWhile (\<lambda>c. c \<noteq> CHR ''.'') (rev (base @ CHR ''.'' # e)) = rev e"
    by simp
  moreover have "base @ CHR ''.'' # e \<noteq> ''..''"
  proof
    assume "base @ CHR ''.'' # e = ''..''"
    then have "length (base @ CHR ''.'' # e) = 2" by simp
    with assms(4,5) show False by (cases base; cases e) auto
  qed
  ultimately show ?thesis
    using assms(4) seg by (simp add: extname_def Let_def)
qed

lemma basename_no_ext_dot:
  assumes "CHR ''/'' \<notin> set base" "CHR ''/'' \<notin> set e" "CHR ''.'' \<notin> set e"
    and "base \<noteq> []" "e \<noteq> []"
  shows "basename_no_ext (base @ CHR ''.'' # e) = base"
  using assms by (simp add: basename_no_ext_def extname_dot last_segment_no_slash)

lemma js_parse_int_nat_str: "js_parse_int (nat_str n) = Some (int n)"
  using js_parse_int_digits [of "nat_str n" "[]"] by (simp add: nat_str_digits)

lemma takeWhile_nat_str:
  "rest = [] \<or> \<not> is_digit (hd rest) \<Longrightarrow> takeWhile is_digit (nat_str n @ rest) = nat_str n"
  by (cases rest) (auto simp: takeWhile_append2 nat_str_digits)

lemma js_replace_first_append: "a \<notin> set s \<Longrightarrow> js_replace_first a b (s @ a # t) = s @ b # t"
  by (induction s) auto

lemma extname_hidden:
  assumes "CHR ''/'' \<notin> set e" "CHR ''.'' \<notin> set e"
  shows "extname (CHR ''.'' # e) = []"
proof -
  have "takeWhile (\<lambda>c. c \<noteq> CHR ''.'') (rev e @ [CHR ''.'']) =
        rev e @ takeWhile (\<lambda>c. c \<noteq> CHR ''.'') [CHR ''.'']"
    by (rule takeWhile_append2) (use assms(2) in auto)
  with assms show ?thesis
    by (simp add: extname_def last_segment_no_slash Let_def del: takeWhile_append2)
qed

text \<open>
  \<open>parseInt\<close> reads back the decimal digits of \<open>n\<close> after leading white space, with or
  without a minus sign, and stops at the first character that is not a digit.
\<close>

lemma js_parse_int_roundtrip:
  assumes "\<forall>c \<in> set ws. js_whitespace c" and "rest = [] \<or> \<not> is_digit (hd rest)"
  shows "js_parse_int (ws @ nat_str n @ rest) = Some (int n) \<and>
         js_parse_int (ws @ CHR ''-'' # nat_str n @ rest) = Some (- int n)"
proof -
  obtain d ds where nd: "nat_str n = d # ds"
    by (cases "nat_str n") auto
  then have d: "is_digit d"
    using nat_str_digits [of d n] by simp
  have minus: "\<not> js_whitespace (CHR ''-'')"
    by (simp add: js_whitespace_def)
  have drop1: "dropWhile js_whitespace (ws @ nat_str n @ rest) = nat_str n @ rest"
    using assms(1) d nd by (simp add: dropWhile_append2)
  have drop2: "dropWhile js_whitespace (ws @ CHR ''-'' # nat_str n @ rest) = CHR ''-'' # nat_str n @ rest"
    using assms(1) minus by (simp add: dropWhile_append2)
  have tw: "takeWhile is_digit (nat_str n @ rest) = nat_str n"
    using assms(2) by (rule takeWhile_nat_str)
  have sign: "js_sign_split (nat_str n @ rest) = (1, nat_str n @ rest)"
    using d nd by (simp add: js_sign_split_def)
  have "js_parse_int (ws @ nat_str n @ rest) = Some (int n)"
    using drop1 tw sign by (simp add: js_parse_int_def)
  moreover have "js_parse_int (ws @ CHR ''-'' # nat_str n @ rest) = Some (- int n)"
    using drop2 tw by (simp add: js_parse_int_def js_sign_split_def)
  ultimately show ?thesis ..
qed

end
