(* ===== verification/Http.thy ===== *)
theory Http
  imports Js_Runtime
begin

text \<open>
  The data the server's components exchange: the uploaded file multer hands to the route
  handler (\<open>req.file\<close>), the request as the handler sees it (\<open>req.file\<close> and the text
  fields of \<open>req.body\<close>), the errors that travel from multer to Express's error
  handler, and the two kinds of response the server sends (a JSON error object with a
  status, or a binary attachment with status 200). It also fixes the messages of
  \<^verbatim>\<open>src/server.js\<close> and the image-name test that both the upload filter and the
  client's \<open>IMG_REG\<close> perform.
\<close>

record upload =
  fieldname :: string
  originalname :: string
  buffer :: bytes

record request =
  req_file :: "upload option"
  req_body :: "string \<rightharpoonup> string"

datatype multer_code = LIMIT_FILE_SIZE | LIMIT_UNEXPECTED_FILE

datatype js_error =
    Multer_error multer_code string
  | Plain_error string

datatype response =
    Json_error nat string
  | Attachment string string bytes

text \<open>\<open>MulterError\<close> takes its message from the code (multer's \<open>lib/multer-error.js\<close>).\<close>

primrec multer_message :: "multer_code \<Rightarrow> string" where
  "multer_message LIMIT_FILE_SIZE = ''File too large''"
| "multer_message LIMIT_UNEXPECTED_FILE = ''Unexpected field''"

primrec error_message :: "js_error \<Rightarrow> string" where
  "error_message (Multer_error c f) = multer_message c"
| "error_message (Plain_error m) = m"

definition content_disposition :: "string \<Rightarrow> string" where
  "content_disposition name = ''attachment; filename='' @ [dquote] @ name @ [dquote]"

definition msg_no_image :: string where
  "msg_no_image = ''Aucune image fournie.''"

definition msg_bad_format :: string where
  "msg_bad_format = ''Format invalide. Choisissez webp, avif, jpg, png ou ico.''"

definition msg_unsupported :: string where
  "msg_unsupported = ''Format non support'' @ [CHR 0xC3, CHR 0xA9] @ ''. Utilisez JPG, PNG, WebP ou AVIF.''"

definition msg_too_large :: string where
  "msg_too_large = ''Fichier trop volumineux (max 50 Mo).''"

definition msg_conversion :: string where
  "msg_conversion = ''Erreur lors de la conversion.''"

definition msg_server :: string where
  "msg_server = ''Erreur serveur.''"

text \<open>
  \<open>/\.(jpe?g|png|webp|avif)$/i.test(name)\<close>. Without the \<open>u\<close> flag a case-insensitive
  match compares characters after upper-casing, and never maps a non-ASCII character to an
  ASCII one, so for these ASCII patterns it is a suffix test on the lower-cased name.
\<close>

definition image_name_ok :: "string \<Rightarrow> bool" where
  "image_name_ok name \<longleftrightarrow>
     (let n = to_lower name in
      ends_with ''.jpg'' n \<or> ends_with ''.jpeg'' n \<or> ends_with ''.png'' n \<or>
      ends_with ''.webp'' n \<or> ends_with ''.avif'' n)"

lemma response_messages_not_Nil [simp]:
  "msg_no_image \<noteq> []" "msg_bad_format \<noteq> []" "msg_unsupported \<noteq> []" "msg_too_large \<noteq> []"
  "msg_conversion \<noteq> []" "msg_server \<noteq> []"
  by (simp_all add: msg_no_image_def msg_bad_format_def msg_unsupported_def msg_too_large_def
      msg_conversion_def msg_server_def)

lemma image_name_ok_ext:
  assumes "to_lower e \<in> {''jpg'', ''jpeg'', ''png'', ''webp'', ''avif''}"
  shows "image_name_ok (base @ CHR ''.'' # e)"
  using assms
  by (auto simp: image_name_ok_def Let_def to_lower_def lower_char_def)

end
