(* ===== verification/Upload.thy ===== *)
theory Upload
  imports Http
begin

text \<open>
  The upload layer of \<^verbatim>\<open>src/server.js\<close> (lines 12--21 and the \<open>upload.single("image")\<close>
  of line 26): multer with memory storage, a 50 MiB file-size limit and a file filter on
  the original name, and the Express error handler of lines 124--134 that turns the errors
  multer raises into responses.

  multer reads the multipart body part by part. A text field is stored in \<open>req.body\<close>.
  A file part with an empty file name is skipped. Otherwise \<open>single("image")\<close> first
  checks that the part is the first file of field \<open>image\<close> (else
  \<open>LIMIT_UNEXPECTED_FILE\<close>), then calls the configured filter, then streams the file into
  memory, failing with \<open>LIMIT_FILE_SIZE\<close> when it exceeds the limit. The first error
  aborts the request and is passed to the error handler. Repeated text fields, which
  multer turns into arrays, are not modelled: a later field of the same name replaces the
  earlier one here.
\<close>

datatype part =
    Text_field string string
  | File_part string string bytes

definition upload_limit :: nat where
  "upload_limit = 50 * 1024 * 1024"

definition file_filter :: "string \<Rightarrow> js_error + unit" where
  "file_filter name = (if image_name_ok name then Inr () else Inl (Plain_error msg_unsupported))"

fun upload_single ::
  "part list \<Rightarrow> (string \<rightharpoonup> string) \<Rightarrow> upload option \<Rightarrow> js_error + request" where
  "upload_single [] body f = Inr \<lparr>req_file = f, req_body = body\<rparr>"
| "upload_single (Text_field n v # ps) body f = upload_single ps (body(n \<mapsto> v)) f"
| "upload_single (File_part fld name data # ps) body f =
     (if name = [] then upload_single ps body f
      else if fld \<noteq> ''image'' \<or> f \<noteq> None then Inl (Multer_error LIMIT_UNEXPECTED_FILE fld)
      else (case file_filter name of
              Inl e \<Rightarrow> Inl e
            | Inr _ \<Rightarrow>
                if upload_limit < length data then Inl (Multer_error LIMIT_FILE_SIZE fld)
                else upload_single ps body
                       (Some \<lparr>fieldname = fld, originalname = name, buffer = data\<rparr>)))"

definition error_handler :: "js_error \<Rightarrow> response" where
  "error_handler err =
     (case err of
        Multer_error LIMIT_FILE_SIZE _ \<Rightarrow> Json_error 400 msg_too_large
      | _ \<Rightarrow> Json_error 500 (if error_message err = [] then msg_server else error_message err))"

end
