(* ===== verification/Convert.thy ===== *)
theory Convert
  imports Http
begin

text \<open>
  The route handler \<open>POST /api/convert\<close> of \<^verbatim>\<open>src/server.js\<close> (lines 26--122): the
  resolution of the form fields \<open>format\<close>, \<open>quality\<close> and \<open>maxWidth\<close>, the output
  name, the sharp pipeline the handler builds, the PNG compression level, the ICO branch
  with its temporary file, and the response.

  The image library is an interface: a record \<open>codec\<close> of the two operations the handler
  calls, \<open>sharp(buf)....toBuffer()\<close> and \<open>sharp-ico\<close>'s \<open>sharpsToIco\<close>. The handler
  hands them a description of the pipeline (a list of \<open>sharp_op\<close>) and receives the
  output bytes or an error message; \<open>sharpsToIco\<close> also acts on the file system, which
  is passed explicitly. Every property below holds for every codec, and the properties
  that say the codec is not reached are stated as independence of the result from it.
\<close>

datatype out_format = Webp | Avif | Jpg | Png | Ico

datatype sharp_op =
    Resize_inside int int
  | To_webp int
  | To_avif int
  | To_jpeg int
  | To_png int

record codec =
  to_buffer :: "bytes \<Rightarrow> sharp_op list \<Rightarrow> string + bytes"
  sharps_to_ico :: "bytes \<Rightarrow> sharp_op list \<Rightarrow> int list \<Rightarrow> string \<Rightarrow> fs \<Rightarrow> (string + unit) \<times> fs"

primrec format_str :: "out_format \<Rightarrow> string" where
  "format_str Webp = ''webp''"
| "format_str Avif = ''avif''"
| "format_str Jpg = ''jpg''"
| "format_str Png = ''png''"
| "format_str Ico = ''ico''"

subsection \<open>Form fields\<close>

text \<open>\<open>(req.body.format || "webp").toLowerCase()\<close>, then the allow-list test.\<close>

definition requested_format :: "string option \<Rightarrow> string" where
  "requested_format v = to_lower (js_or_default v ''webp'')"

definition format_of_string :: "string \<Rightarrow> out_format option" where
  "format_of_string s =
     (if s = ''webp'' then Some Webp else if s = ''avif'' then Some Avif
      else if s = ''jpg'' then Some Jpg else if s = ''png'' then Some Png
      else if s = ''ico'' then Some Ico else None)"

text \<open>\<open>parseInt(req.body.quality, 10)\<close>, replaced by 80 when NaN or outside [1, 100].\<close>

definition resolve_quality :: "string option \<Rightarrow> int" where
  "resolve_quality v =
     (case js_parse_int (js_field_string v) of
        None \<Rightarrow> 80
      | Some q \<Rightarrow> if q < 1 \<or> q > 100 then 80 else q)"

text \<open>
  \<open>maxWidth\<close> is \<open>null\<close> for a missing or empty field, else \<open>parseInt\<close> of it;
  \<open>validMaxWidth\<close> holds for an integer in [1, 8000]. The result is the width the
  resize uses, when \<open>validMaxWidth\<close> holds.
\<close>

definition valid_max_width :: "string option \<Rightarrow> int option" where
  "valid_max_width v =
     (case v of
        None \<Rightarrow> None
      | Some s \<Rightarrow>
          if s = [] then None
          else (case js_parse_int s of
                  None \<Rightarrow> None
                | Some m \<Rightarrow> if 0 < m \<and> m \<le> 8000 then Some m else None))"

subsection \<open>Output name and pipeline\<close>

definition out_ext :: "out_format \<Rightarrow> string" where
  "out_ext fmt = (if fmt = Ico then ''ico'' else format_str fmt)"

definition out_name :: "string \<Rightarrow> out_format \<Rightarrow> string" where
  "out_name original fmt = basename_no_ext original @ CHR ''.'' # out_ext fmt"

definition resize_ops :: "int option \<Rightarrow> sharp_op list" where
  "resize_ops mw = (case mw of None \<Rightarrow> [] | Some m \<Rightarrow> [Resize_inside m m])"

text \<open>
  \<open>9 - ((quality - 5) / 95) * 9\<close>, the value rounded, and
  \<open>Math.max(0, Math.min(9, Math.round(\<dots>)))\<close>.
\<close>

definition png_level_arg :: "int \<Rightarrow> rat" where
  "png_level_arg q = 9 - ((of_int q - 5) / 95) * 9"

definition png_compression_level :: "int \<Rightarrow> int" where
  "png_compression_level q = js_clamp 0 9 (js_round (png_level_arg q))"

text \<open>The encoder chosen by the \<open>if\<close>/\<open>else if\<close> chain of lines 93--104.\<close>

definition encode_op :: "out_format \<Rightarrow> int \<Rightarrow> sharp_op" where
  "encode_op fmt q =
     (if fmt = Webp then To_webp q
      else if fmt = Avif then To_avif q
      else if fmt = Jpg then To_jpeg q
      else To_png (png_compression_level q))"

text \<open>
  The object literal of lines 108--113 indexed by the format: it has no entry for
  \<open>ico\<close>, which returned earlier.
\<close>

primrec mime_type :: "out_format \<Rightarrow> string option" where
  "mime_type Webp = Some ''image/webp''"
| "mime_type Avif = Some ''image/avif''"
| "mime_type Jpg = Some ''image/jpeg''"
| "mime_type Png = Some ''image/png''"
| "mime_type Ico = None"

definition ico_sizes :: "int list" where
  "ico_sizes = [256, 128, 64, 48, 32, 24, 16]"

subsection \<open>The handler\<close>

text \<open>The \<open>catch\<close> block: status 500 with the error's message, or a default one.\<close>

definition conversion_failed :: "string \<Rightarrow> response" where
  "conversion_failed msg = Json_error 500 (if msg = [] then msg_conversion else msg)"

text \<open>What \<open>res.setHeader\<close> throws for an \<open>undefined\<close> value (Node's \<open>ERR_HTTP_INVALID_HEADER_VALUE\<close>).\<close>

definition msg_invalid_header :: string where
  "msg_invalid_header =
     ''Invalid value '' @ [dquote] @ ''undefined'' @ [dquote] @ '' for header '' @
     [dquote] @ ''Content-Type'' @ [dquote]"

definition read_file :: "fs \<Rightarrow> string \<Rightarrow> string + bytes" where
  "read_file fs p = (case fs p of None \<Rightarrow> Inl (''ENOENT: no such file or directory, open '' @ CHR 0x27 # p @ [CHR 0x27]) | Some b \<Rightarrow> Inr b)"

text \<open>\<open>fs.unlink(p).catch(() => {})\<close>: the file is gone afterwards, a failure is ignored.\<close>

definition unlink :: "fs \<Rightarrow> string \<Rightarrow> fs" where
  "unlink fs p = fs(p := None)"

text \<open>
  The ICO branch (lines 57--82): the optional resize, \<open>sharpsToIco\<close> writing the icon to
  the temporary path, reading it back, unlinking it, and the attachment. An exception of
  \<open>sharpsToIco\<close> or of \<open>readFile\<close> jumps to the \<open>catch\<close> block, past the unlink.
\<close>

definition convert_ico ::
  "codec \<Rightarrow> string \<Rightarrow> upload \<Rightarrow> int option \<Rightarrow> string \<Rightarrow> fs \<Rightarrow> response \<times> fs" where
  "convert_ico cd tmp f mw name fs =
     (case sharps_to_ico cd (buffer f) (resize_ops mw) ico_sizes tmp fs of
        (Inl e, fs1) \<Rightarrow> (conversion_failed e, fs1)
      | (Inr _, fs1) \<Rightarrow>
          (case read_file fs1 tmp of
             Inl e \<Rightarrow> (conversion_failed e, fs1)
           | Inr b \<Rightarrow> (Attachment ''image/x-icon'' (content_disposition name) b, unlink fs1 tmp)))"

text \<open>The raster branch (lines 84--116): optional resize, one encoder, \<open>toBuffer\<close>.\<close>

definition convert_raster ::
  "codec \<Rightarrow> upload \<Rightarrow> out_format \<Rightarrow> int \<Rightarrow> int option \<Rightarrow> string \<Rightarrow> response" where
  "convert_raster cd f fmt q mw name =
     (case to_buffer cd (buffer f) (resize_ops mw @ [encode_op fmt q]) of
        Inl e \<Rightarrow> conversion_failed e
      | Inr b \<Rightarrow>
          (case mime_type fmt of
             None \<Rightarrow> conversion_failed msg_invalid_header
           | Some m \<Rightarrow> Attachment m (content_disposition name) b))"

definition convert_handler :: "codec \<Rightarrow> string \<Rightarrow> request \<Rightarrow> fs \<Rightarrow> response \<times> fs" where
  "convert_handler cd tmp req fs =
     (case req_file req of
        None \<Rightarrow> (Json_error 400 msg_no_image, fs)
      | Some f \<Rightarrow>
          (case format_of_string (requested_format (req_body req ''format'')) of
             None \<Rightarrow> (Json_error 400 msg_bad_format, fs)
           | Some fmt \<Rightarrow>
               (let q = resolve_quality (req_body req ''quality'');
                    mw = valid_max_width (req_body req ''maxWidth'');
                    name = out_name (originalname f) fmt
                in if fmt = Ico then convert_ico cd tmp f mw name fs
                   else (convert_raster cd f fmt q mw name, fs))))"

subsection \<open>Sample inputs\<close>

text \<open>
  A codec whose operations fail, the icon writer after leaving an empty file at the
  path it was given, and a small upload: the concrete inputs of the witnesses below.
\<close>

definition failing_codec :: codec where
  "failing_codec =
     \<lparr>to_buffer = (\<lambda>_ _. Inl ''boom''),
      sharps_to_ico = (\<lambda>_ _ _ p fs. (Inl ''boom'', fs(p \<mapsto> [])))\<rparr>"

definition echo_codec :: codec where
  "echo_codec =
     \<lparr>to_buffer = (\<lambda>b _. Inr b),
      sharps_to_ico = (\<lambda>b _ _ p fs. (Inr (), fs(p \<mapsto> b)))\<rparr>"

definition sample_upload :: upload where
  "sample_upload = \<lparr>fieldname = ''image'', originalname = ''photo.png'', buffer = [1, 2, 3]\<rparr>"

subsection \<open>Field resolution\<close>

lemma format_of_string_iff: "format_of_string s = Some fmt \<longleftrightarrow> s = format_str fmt"
  by (cases fmt) (auto simp: format_of_string_def)

lemma out_ext_format_str [simp]: "out_ext fmt = format_str fmt"
  by (cases fmt) (simp_all add: out_ext_def)

text \<open>C6. The quality handed to an encoder always lies in [1, 100].\<close>

theorem resolve_quality_bounds: "1 \<le> resolve_quality v \<and> resolve_quality v \<le> 100"
  by (auto simp: resolve_quality_def split: option.split)

text \<open>C9. A resize width that takes effect lies in [1, 8000].\<close>

theorem valid_max_width_range: "valid_max_width v = Some m \<Longrightarrow> 1 \<le> m \<and> m \<le> 8000"
  by (auto simp: valid_max_width_def split: option.splits if_splits)

theorem valid_max_width_range_witness:
  "valid_max_width (Some ''800px'') = Some 800 \<and> 1 \<le> (800::int) \<and> (800::int) \<le> 8000"
proof -
  have v: "valid_max_width (Some ''800px'') = Some 800"
    by (simp add: valid_max_width_def js_simps)
  from valid_max_width_range [OF v] v show ?thesis by simp
qed

text \<open>
  C17. The two numeric fields on decimal input: a \<open>quality\<close> field holding the
  digits of \<open>n\<close> is taken as \<open>n\<close> when \<open>n\<close> lies in [1, 100] and replaced by 80
  otherwise; a \<open>maxWidth\<close> field holding the digits of \<open>n\<close> takes effect exactly when
  \<open>n\<close> lies in [1, 8000].
\<close>

theorem decimal_fields:
  "resolve_quality (Some (nat_str n)) = (if 1 \<le> n \<and> n \<le> 100 then int n else 80) \<and>
   valid_max_width (Some (nat_str n)) = (if 1 \<le> n \<and> n \<le> 8000 then Some (int n) else None)"
  by (simp add: resolve_quality_def valid_max_width_def js_field_string_def js_parse_int_nat_str)

text \<open>
  C16. The server reads both numeric fields leniently, as \<open>parseInt\<close> does: leading
  white space is skipped and the number ends at the first character that is not a digit,
  so \<open>" 50abc"\<close> or \<open>"50.9"\<close> counts as 50 for the quality and for the width; a minus
  sign gives a negative value, which both fields refuse (quality 80, no resize).
\<close>

theorem numeric_fields_lenient:
  assumes "\<forall>c \<in> set ws. js_whitespace c" and "rest = [] \<or> \<not> is_digit (hd rest)"
  shows "resolve_quality (Some (ws @ nat_str n @ rest)) = resolve_quality (Some (nat_str n)) \<and>
         valid_max_width (Some (ws @ nat_str n @ rest)) = valid_max_width (Some (nat_str n)) \<and>
         resolve_quality (Some (ws @ CHR ''-'' # nat_str n @ rest)) = 80 \<and>
         valid_max_width (Some (ws @ CHR ''-'' # nat_str n @ rest)) = None"
proof -
  have ne: "nat_str n \<noteq> []"
    by (cases "nat_str n") auto
  note p = js_parse_int_roundtrip [OF assms, of n]
  show ?thesis
    using p ne by (simp add: resolve_quality_def valid_max_width_def js_field_string_def js_parse_int_nat_str)
qed

theorem numeric_fields_lenient_witness:
  "resolve_quality (Some '' 50abc'') = 50 \<and> valid_max_width (Some '' 50abc'') = Some 50 \<and>
   resolve_quality (Some '' -50abc'') = 80 \<and> valid_max_width (Some '' -50abc'') = None"
proof -
  have "\<forall>c \<in> set '' ''. js_whitespace c" "''abc'' = [] \<or> \<not> is_digit (hd ''abc'')"
    by (simp_all add: js_whitespace_def is_digit_def)
  from numeric_fields_lenient [OF this, of 50] show ?thesis
    by (simp add: resolve_quality_def valid_max_width_def js_field_string_def js_parse_int_nat_str js_simps)
qed

subsection \<open>PNG compression level\<close>

lemma png_level_formula: "js_round (png_level_arg q) = (1895 - 18 * q) div 190"
proof -
  define n where "n = 1895 - 18 * q"
  have "png_level_arg q + 1 / 2 = (of_int n :: rat) / of_int 190"
    by (simp add: png_level_arg_def n_def field_simps)
  then have "js_round (png_level_arg q) = \<lfloor>(of_int n :: rat) / of_int 190\<rfloor>"
    unfolding js_round_def by (rule arg_cong)
  also have "\<dots> = n div 190"
    by (rule floor_divide_of_int_eq)
  finally show ?thesis by (simp add: n_def)
qed

lemma png_level_margin: "1 / 190 \<le> \<bar>png_level_arg q - (of_int k + 1 / 2)\<bar>"
proof -
  define n where "n = 1705 - 18 * q - 190 * k"
  have eq: "png_level_arg q - (of_int k + 1 / 2) = of_int n / 190"
    by (simp add: png_level_arg_def n_def field_simps)
  have "odd n" by (simp add: n_def)
  then have "n \<noteq> 0" by auto
  then have "1 \<le> \<bar>n\<bar>" by (cases "0 < n") auto
  then have "(1::rat) \<le> \<bar>of_int n\<bar>"
    by (metis of_int_1_le_iff of_int_abs)
  then have "1 / 190 \<le> \<bar>of_int n\<bar> / (190::rat)"
    by (rule divide_right_mono) simp
  then show ?thesis
    unfolding eq by simp
qed

text \<open>
  C10. For every quality the handler can produce, the PNG compression level is
  \<open>(1895 - 18 q) div 190\<close> and lies in [0, 9] without the clamp: the clamp of line 102
  never acts.
\<close>

theorem png_level_in_range:
  assumes "1 \<le> q" "q \<le> 100"
  shows "png_compression_level q = (1895 - 18 * q) div 190 \<and>
         0 \<le> png_compression_level q \<and> png_compression_level q \<le> 9"
proof -
  have "0 \<le> (1895 - 18 * q) div 190"
    using assms by (simp add: pos_imp_zdiv_nonneg_iff)
  moreover have "(1895 - 18 * q) div 190 \<le> 1877 div 190"
    by (rule zdiv_mono1) (use assms in auto)
  ultimately have "0 \<le> (1895 - 18 * q) div 190" "(1895 - 18 * q) div 190 \<le> 9"
    by simp_all
  then show ?thesis
    unfolding png_compression_level_def png_level_formula js_clamp_def by simp
qed

theorem png_level_in_range_witness:
  "png_compression_level 1 = 9 \<and> png_compression_level 50 = 5 \<and> png_compression_level 100 = 0"
  using png_level_in_range [of 1] png_level_in_range [of 50] png_level_in_range [of 100] by simp

text \<open>A higher quality never gives a higher compression level.\<close>

lemma png_level_antimono: "q \<le> q' \<Longrightarrow> png_compression_level q' \<le> png_compression_level q"
proof -
  assume "q \<le> q'"
  then have "(1895 - 18 * q') div 190 \<le> (1895 - 18 * q) div 190"
    by (intro zdiv_mono1) auto
  then show ?thesis
    unfolding png_compression_level_def png_level_formula js_clamp_def by linarith
qed

text \<open>
  C12. The value \<open>Math.round\<close> receives is at least 1/190 away from every tie point
  \<open>k + 1/2\<close>, for every integer quality, so any error smaller than 1/190 in computing it
  leaves the rounded level unchanged. The double-precision evaluation of the source errs
  by far less, which is why the exact rational model gives the code's level.
\<close>

theorem png_round_stable:
  assumes "\<bar>d\<bar> < 1 / 190"
  shows "js_round (png_level_arg q + d) = js_round (png_level_arg q)"
proof -
  define x where "x = png_level_arg q"
  define n where "n = \<lfloor>x + 1 / 2\<rfloor>"
  have lo: "of_int n \<le> x + 1 / 2" and hi: "x + 1 / 2 < of_int n + 1"
    using floor_correct [of "x + 1 / 2"] by (simp_all add: n_def)
  have "1 / 190 \<le> \<bar>x - (of_int (n - 1) + 1 / 2)\<bar>"
    unfolding x_def by (rule png_level_margin)
  with lo have lo': "of_int n + 1 / 190 \<le> x + 1 / 2"
    by (simp add: abs_if split: if_splits)
  have "1 / 190 \<le> \<bar>x - (of_int n + 1 / 2)\<bar>"
    unfolding x_def by (rule png_level_margin)
  with hi have hi': "x + 1 / 2 \<le> of_int n + 1 - 1 / 190"
    by (simp add: abs_if split: if_splits)
  from lo' hi' assms have "\<lfloor>x + d + 1 / 2\<rfloor> = n"
    by (intro floor_unique) (auto simp: abs_less_iff)
  then show ?thesis
    by (simp add: js_round_def x_def n_def)
qed

theorem png_round_stable_witness:
  "js_round (png_level_arg 50 + 1 / 1000) = js_round (png_level_arg 50) \<and>
   js_round (png_level_arg 50) = 5"
proof -
  have "\<bar>1 / 1000 :: rat\<bar> < 1 / 190" by simp
  from png_round_stable [OF this, of 50] show ?thesis
    by (simp add: png_level_formula)
qed

subsection \<open>Output name\<close>

text \<open>
  For a file name made of a non-empty base and an extension, without directories,
  the attachment name is the base with the extension replaced by the target format's.
\<close>

lemma out_name_replaces_ext:
  assumes "CHR ''/'' \<notin> set base" "CHR ''/'' \<notin> set e" "CHR ''.'' \<notin> set e"
    and "base \<noteq> []" "e \<noteq> []"
  shows "out_name (base @ CHR ''.'' # e) fmt = base @ CHR ''.'' # format_str fmt"
  using assms by (simp add: out_name_def basename_no_ext_dot)

subsection \<open>The handler on each branch\<close>

lemma convert_handler_cong:
  assumes "req_file r1 = req_file r2"
    and "requested_format (req_body r1 ''format'') = requested_format (req_body r2 ''format'')"
    and "resolve_quality (req_body r1 ''quality'') = resolve_quality (req_body r2 ''quality'')"
    and "valid_max_width (req_body r1 ''maxWidth'') = valid_max_width (req_body r2 ''maxWidth'')"
  shows "convert_handler cd tmp r1 fs = convert_handler cd tmp r2 fs"
  by (simp only: convert_handler_def assms)

lemma convert_handler_valid:
  assumes "req_file req = Some f"
    and "format_of_string (requested_format (req_body req ''format'')) = Some fmt"
  shows "convert_handler cd tmp req fs =
    (let q = resolve_quality (req_body req ''quality'');
         mw = valid_max_width (req_body req ''maxWidth'');
         name = out_name (originalname f) fmt
     in if fmt = Ico then convert_ico cd tmp f mw name fs
        else (convert_raster cd f fmt q mw name, fs))"
  using assms by (simp add: convert_handler_def)

lemma conversion_failed_message:
  "conversion_failed e = Json_error c m \<Longrightarrow> c = 500 \<and> m \<noteq> []"
  by (auto simp: conversion_failed_def split: if_splits)

text \<open>
  C1. A request with a file and a \<open>format\<close> outside the allow-list is answered 400
  with the validation message. The codec and the file system are not touched: the
  response is the same for every codec and the file system is returned unchanged.
\<close>

theorem convert_handler_bad_format:
  assumes "req_file req = Some f"
    and "format_of_string (requested_format (req_body req ''format'')) = None"
  shows "convert_handler cd tmp req fs = (Json_error 400 msg_bad_format, fs)"
  using assms by (simp add: convert_handler_def)

theorem convert_handler_bad_format_witness:
  "convert_handler failing_codec ''/tmp/x.ico''
     \<lparr>req_file = Some sample_upload, req_body = [''format'' \<mapsto> ''gif'']\<rparr> Map.empty
   = (Json_error 400 msg_bad_format, Map.empty)"
  by (rule convert_handler_bad_format) (simp_all add: requested_format_def format_of_string_def js_simps)

text \<open>
  C2. When a raster conversion succeeds, the response is an attachment whose
  \<open>Content-Type\<close> is the MIME type of the requested format, whose file name is the
  output name, and whose body is the codec's output; the codec was given the resize (if
  any) followed by the one encoder of the format at the resolved quality.
\<close>

theorem convert_handler_raster_ok:
  assumes "req_file req = Some f"
    and "format_of_string (requested_format (req_body req ''format'')) = Some fmt"
    and "mime_type fmt = Some m"
    and "to_buffer cd (buffer f)
           (resize_ops (valid_max_width (req_body req ''maxWidth'')) @
            [encode_op fmt (resolve_quality (req_body req ''quality''))]) = Inr out"
  shows "convert_handler cd tmp req fs =
           (Attachment m (content_disposition (out_name (originalname f) fmt)) out, fs)"
proof -
  from assms(3) have "fmt \<noteq> Ico" by auto
  with assms show ?thesis
    by (simp add: convert_handler_valid convert_raster_def)
qed

theorem convert_handler_raster_ok_witness:
  "convert_handler echo_codec ''/tmp/x.ico''
     \<lparr>req_file = Some sample_upload,
      req_body = [''format'' \<mapsto> ''avif'', ''quality'' \<mapsto> ''50'', ''maxWidth'' \<mapsto> ''640'']\<rparr> Map.empty
   = (Attachment ''image/avif'' (content_disposition ''photo.avif'') [1, 2, 3], Map.empty)"
proof -
  let ?req = "\<lparr>req_file = Some sample_upload,
      req_body = [''format'' \<mapsto> ''avif'', ''quality'' \<mapsto> ''50'', ''maxWidth'' \<mapsto> ''640'']\<rparr>"
  have fmt: "format_of_string (requested_format (req_body ?req ''format'')) = Some Avif"
    by (simp add: requested_format_def format_of_string_def js_simps)
  have run: "to_buffer echo_codec (buffer sample_upload)
      (resize_ops (valid_max_width (req_body ?req ''maxWidth'')) @
       [encode_op Avif (resolve_quality (req_body ?req ''quality''))]) = Inr [1, 2, 3]"
    by (simp add: echo_codec_def sample_upload_def)
  have name: "out_name (originalname sample_upload) Avif = ''photo.avif''"
    using basename_no_ext_dot [of "''photo''" "''png''"] by (simp add: sample_upload_def out_name_def)
  from convert_handler_raster_ok [OF _ fmt _ run] name show ?thesis by simp
qed

lemma convert_handler_raster_fails:
  assumes "req_file req = Some f"
    and "format_of_string (requested_format (req_body req ''format'')) = Some fmt" and "fmt \<noteq> Ico"
    and "to_buffer cd (buffer f)
           (resize_ops (valid_max_width (req_body req ''maxWidth'')) @
            [encode_op fmt (resolve_quality (req_body req ''quality''))]) = Inl e"
  shows "convert_handler cd tmp req fs = (conversion_failed e, fs)"
  using assms by (simp add: convert_handler_valid convert_raster_def)

text \<open>
  C7. A quality that is not a number or lies outside [1, 100] is not rejected: the handler
  answers exactly as for the quality 80.
\<close>

theorem convert_handler_quality_default:
  assumes "\<forall>q. js_parse_int (js_field_string (req_body req ''quality'')) = Some q \<longrightarrow> q < 1 \<or> 100 < q"
  shows "convert_handler cd tmp req fs =
           convert_handler cd tmp (req\<lparr>req_body := (req_body req)(''quality'' \<mapsto> ''80'')\<rparr>) fs"
proof (rule convert_handler_cong)
  have "resolve_quality (req_body req ''quality'') = 80"
    using assms by (auto simp: resolve_quality_def split: option.split)
  moreover have "resolve_quality (Some ''80'') = 80"
    by (simp add: resolve_quality_def js_simps)
  ultimately show "resolve_quality (req_body req ''quality'') =
    resolve_quality (req_body (req\<lparr>req_body := (req_body req)(''quality'' \<mapsto> ''80'')\<rparr>) ''quality'')"
    by simp
qed simp_all

theorem convert_handler_quality_default_witness:
  "convert_handler echo_codec ''/tmp/x.ico''
     \<lparr>req_file = Some sample_upload, req_body = [''quality'' \<mapsto> ''150'']\<rparr> Map.empty
   = convert_handler echo_codec ''/tmp/x.ico''
     \<lparr>req_file = Some sample_upload, req_body = [''quality'' \<mapsto> ''80'']\<rparr> Map.empty"
proof -
  let ?req = "\<lparr>req_file = Some sample_upload, req_body = [''quality'' \<mapsto> ''150'']\<rparr>"
  have "\<forall>q. js_parse_int (js_field_string (req_body ?req ''quality'')) = Some q \<longrightarrow> q < 1 \<or> 100 < q"
    by (simp add: js_simps)
  from convert_handler_quality_default [OF this] show ?thesis by simp
qed

text \<open>
  C8. A \<open>maxWidth\<close> that does not take effect (missing, empty, not a number, outside
  [1, 8000]) is ignored, not rejected: the handler answers exactly as for a request
  without the field.
\<close>

theorem convert_handler_ignores_bad_width:
  assumes "valid_max_width (req_body req ''maxWidth'') = None"
  shows "convert_handler cd tmp req fs =
           convert_handler cd tmp (req\<lparr>req_body := (req_body req)(''maxWidth'' := None)\<rparr>) fs"
  using assms by (intro convert_handler_cong) (simp_all add: valid_max_width_def)

theorem convert_handler_ignores_bad_width_witness:
  "convert_handler echo_codec ''/tmp/x.ico''
     \<lparr>req_file = Some sample_upload, req_body = [''maxWidth'' \<mapsto> ''9000'']\<rparr> Map.empty
   = convert_handler echo_codec ''/tmp/x.ico''
     \<lparr>req_file = Some sample_upload, req_body = Map.empty\<rparr> Map.empty"
proof -
  let ?req = "\<lparr>req_file = Some sample_upload, req_body = [''maxWidth'' \<mapsto> ''9000'']\<rparr>"
  have "valid_max_width (req_body ?req ''maxWidth'') = None"
    by (simp add: valid_max_width_def js_simps)
  from convert_handler_ignores_bad_width [OF this] show ?thesis by simp
qed

text \<open>
  C20. A missing or empty \<open>format\<close> field is not an error: the handler converts to WebP,
  exactly as for \<open>format=webp\<close>. The specification lists \<open>format\<close> as required.
\<close>

theorem convert_handler_format_default:
  assumes "req_body req ''format'' = None \<or> req_body req ''format'' = Some []"
  shows "convert_handler cd tmp req fs =
           convert_handler cd tmp (req\<lparr>req_body := (req_body req)(''format'' \<mapsto> ''webp'')\<rparr>) fs"
  using assms by (intro convert_handler_cong) (auto simp: requested_format_def js_or_default_def)

theorem convert_handler_format_default_witness:
  "convert_handler echo_codec ''/tmp/x.ico''
     \<lparr>req_file = Some sample_upload, req_body = [''format'' \<mapsto> []]\<rparr> Map.empty
   = convert_handler echo_codec ''/tmp/x.ico''
     \<lparr>req_file = Some sample_upload, req_body = [''format'' \<mapsto> ''webp'']\<rparr> Map.empty"
  using convert_handler_format_default
    [of "\<lparr>req_file = Some sample_upload, req_body = [''format'' \<mapsto> []]\<rparr>"] by simp

subsection \<open>The ICO branch and its temporary file\<close>

text \<open>
  C14. When the icon writer succeeds and leaves the icon at the temporary path, the
  response carries that icon as \<open>image/x-icon\<close> and the temporary file is removed.
\<close>

theorem convert_ico_removes_tmp:
  assumes "req_file req = Some f"
    and "format_of_string (requested_format (req_body req ''format'')) = Some Ico"
    and "sharps_to_ico cd (buffer f) (resize_ops (valid_max_width (req_body req ''maxWidth'')))
           ico_sizes tmp fs = (Inr (), fs1)"
    and "fs1 tmp = Some icon"
  shows "convert_handler cd tmp req fs =
           (Attachment ''image/x-icon'' (content_disposition (out_name (originalname f) Ico)) icon,
            fs1(tmp := None))"
  using assms by (simp add: convert_handler_valid convert_ico_def read_file_def unlink_def)

theorem convert_ico_removes_tmp_witness:
  "convert_handler echo_codec ''/tmp/x.ico''
     \<lparr>req_file = Some sample_upload, req_body = [''format'' \<mapsto> ''ico'']\<rparr> Map.empty
   = (Attachment ''image/x-icon'' (content_disposition (out_name ''photo.png'' Ico)) [1, 2, 3],
      Map.empty)"
proof -
  let ?req = "\<lparr>req_file = Some sample_upload, req_body = [''format'' \<mapsto> ''ico'']\<rparr>"
  have fmt: "format_of_string (requested_format (req_body ?req ''format'')) = Some Ico"
    by (simp add: requested_format_def format_of_string_def js_simps)
  have run: "sharps_to_ico echo_codec (buffer sample_upload)
      (resize_ops (valid_max_width (req_body ?req ''maxWidth''))) ico_sizes ''/tmp/x.ico'' Map.empty
      = (Inr (), [''/tmp/x.ico'' \<mapsto> [1, 2, 3]])"
    by (simp add: echo_codec_def sample_upload_def)
  from convert_ico_removes_tmp [OF _ fmt run] show ?thesis
    by (simp add: sample_upload_def)
qed

text \<open>
  C15. When the icon writer fails, the handler answers 500 and returns the file system as
  the writer left it: the unlink of line 75 is skipped, so a temporary file the writer
  created stays behind. The specification requires the temporary file to be removed
  unconditionally, even on failure.
\<close>

theorem convert_ico_failure_keeps_tmp:
  assumes "req_file req = Some f"
    and "format_of_string (requested_format (req_body req ''format'')) = Some Ico"
    and "sharps_to_ico cd (buffer f) (resize_ops (valid_max_width (req_body req ''maxWidth'')))
           ico_sizes tmp fs = (Inl e, fs1)"
  shows "convert_handler cd tmp req fs = (conversion_failed e, fs1)"
  using assms by (simp add: convert_handler_valid convert_ico_def)

theorem convert_ico_failure_keeps_tmp_witness:
  "convert_handler failing_codec ''/tmp/x.ico''
     \<lparr>req_file = Some sample_upload, req_body = [''format'' \<mapsto> ''ICO'']\<rparr> Map.empty
   = (Json_error 500 ''boom'', [''/tmp/x.ico'' \<mapsto> []])"
proof -
  let ?req = "\<lparr>req_file = Some sample_upload, req_body = [''format'' \<mapsto> ''ICO'']\<rparr>"
  have "format_of_string (requested_format (req_body ?req ''format'')) = Some Ico"
    by (simp add: requested_format_def format_of_string_def js_simps)
  moreover have "sharps_to_ico failing_codec (buffer sample_upload)
      (resize_ops (valid_max_width (req_body ?req ''maxWidth''))) ico_sizes ''/tmp/x.ico'' Map.empty
      = (Inl ''boom'', [''/tmp/x.ico'' \<mapsto> []])"
    by (simp add: failing_codec_def)
  ultimately show ?thesis
    using convert_ico_failure_keeps_tmp [of ?req sample_upload] by (simp add: conversion_failed_def)
qed

lemma convert_handler_messages:
  "fst (convert_handler cd tmp req fs) = Json_error c m \<Longrightarrow> m \<noteq> [] \<and> (c = 400 \<or> c = 500)"
  by (auto simp: convert_handler_def convert_ico_def convert_raster_def conversion_failed_def Let_def
      split: option.splits if_splits sum.splits prod.splits)

end
