(* ===== verification/Server.thy ===== *)
theory Server
  imports Upload Convert
begin

text \<open>
  The route as Express runs it (\<^verbatim>\<open>src/server.js\<close> line 26 with the error handler of
  lines 124--134): multer parses the multipart body into a request; an error of multer
  goes to the error handler, otherwise the request goes to the conversion handler, whose
  own \<open>try\<close>/\<open>catch\<close> answers every error it meets. The lemmas here are the
  end-to-end behaviour of \<open>POST /api/convert\<close>: which check answers first, and what the
  client receives.
\<close>

definition post_convert :: "codec \<Rightarrow> string \<Rightarrow> part list \<Rightarrow> fs \<Rightarrow> response \<times> fs" where
  "post_convert cd tmp parts fs =
     (case upload_single parts Map.empty None of
        Inl err \<Rightarrow> (error_handler err, fs)
      | Inr req \<Rightarrow> convert_handler cd tmp req fs)"

lemma upload_single_fields:
  "upload_single (map (\<lambda>(n, v). Text_field n v) kvs @ ps) body f =
   upload_single ps (fold (\<lambda>(n, v) b. b(n \<mapsto> v)) kvs body) f"
  by (induction kvs arbitrary: body) auto

lemma error_handler_messages:
  "error_handler err = Json_error c m \<Longrightarrow> m \<noteq> [] \<and> (c = 400 \<or> c = 500)"
  by (auto simp: error_handler_def split: js_error.splits multer_code.splits if_splits)

text \<open>
  C3. A file whose name does not end in an allowed image extension is rejected by the
  upload filter before the handler runs, whatever text fields precede it and whatever
  follows it. The answer is status 500 with the filter's message: the filter raises a
  plain \<open>Error\<close>, which the error handler does not recognise as a client error. The
  specification classifies a bad file as a 400 input error.
\<close>

theorem post_convert_bad_extension:
  assumes "name \<noteq> []" and "\<not> image_name_ok name"
  shows "post_convert cd tmp
           (map (\<lambda>(n, v). Text_field n v) kvs @ File_part ''image'' name data # rest) fs
         = (Json_error 500 msg_unsupported, fs)"
  using assms
  by (simp add: post_convert_def upload_single_fields file_filter_def error_handler_def)

theorem post_convert_bad_extension_witness:
  "post_convert failing_codec ''/tmp/x.ico''
     (map (\<lambda>(n, v). Text_field n v) [(''format'', ''png'')] @ [File_part ''image'' ''notes.txt'' [7]])
     Map.empty
   = (Json_error 500 msg_unsupported, Map.empty)"
proof -
  have "''notes.txt'' \<noteq> []" "\<not> image_name_ok ''notes.txt''"
    by (simp_all add: image_name_ok_def ends_with_def js_simps)
  from post_convert_bad_extension [OF this, where cd = failing_codec and tmp = "''/tmp/x.ico''"
      and kvs = "[(''format'', ''png'')]" and data = "[7]" and rest = "[]" and fs = Map.empty]
  show ?thesis .
qed

text \<open>
  C4. An image file larger than 50 MiB is rejected by the upload layer with status 400
  and the dedicated "too large" message.
\<close>

theorem post_convert_too_large:
  assumes "name \<noteq> []" and "image_name_ok name" and "upload_limit < length data"
  shows "post_convert cd tmp
           (map (\<lambda>(n, v). Text_field n v) kvs @ File_part ''image'' name data # rest) fs
         = (Json_error 400 msg_too_large, fs)"
  using assms
  by (simp add: post_convert_def upload_single_fields file_filter_def error_handler_def)

theorem post_convert_too_large_witness:
  "post_convert failing_codec ''/tmp/x.ico''
     (map (\<lambda>(n, v). Text_field n v) [] @ [File_part ''image'' ''big.png'' (replicate 52428801 0)])
     Map.empty
   = (Json_error 400 msg_too_large, Map.empty)"
proof -
  have "''big.png'' \<noteq> []" "image_name_ok ''big.png''"
    "upload_limit < length (replicate 52428801 (0 :: 8 word))"
    by (simp_all add: image_name_ok_def ends_with_def upload_limit_def js_simps)
  from post_convert_too_large [OF this, where cd = failing_codec and tmp = "''/tmp/x.ico''"
      and kvs = "[]" and rest = "[]" and fs = Map.empty]
  show ?thesis .
qed

text \<open>
  C5. A request without a file is answered 400 "no image", whatever its text fields say:
  the missing file is reported before an invalid format.
\<close>

theorem post_convert_no_file:
  "post_convert cd tmp (map (\<lambda>(n, v). Text_field n v) kvs) fs = (Json_error 400 msg_no_image, fs)"
  using upload_single_fields [of kvs "[]" Map.empty None]
  by (simp add: post_convert_def convert_handler_def)

text \<open>
  A file sent under another field name than \<open>image\<close> is answered 500 with multer's
  message "Unexpected field"; the specification does not cover this client error.
\<close>

lemma post_convert_unexpected_field:
  assumes "name \<noteq> []" and "fld \<noteq> ''image''"
  shows "post_convert cd tmp
           (map (\<lambda>(n, v). Text_field n v) kvs @ File_part fld name data # rest) fs
         = (Json_error 500 ''Unexpected field'', fs)"
  using assms by (simp add: post_convert_def upload_single_fields error_handler_def)

lemma post_convert_messages:
  "fst (post_convert cd tmp parts fs) = Json_error c m \<Longrightarrow> m \<noteq> [] \<and> (c = 400 \<or> c = 500)"
  by (auto simp: post_convert_def dest: error_handler_messages convert_handler_messages
      split: sum.splits)

text \<open>
  End to end, the example of the specification: a PNG posted with
  \<open>format=webp\<close> and \<open>quality=50\<close> reaches the codec as a WebP encode at quality 50
  with no resize, and the codec's output comes back as \<open>image/webp\<close> under the original
  base name.
\<close>

lemma post_convert_webp_example:
  assumes "length data \<le> upload_limit" and "to_buffer cd data [To_webp 50] = Inr out"
  shows "post_convert cd tmp
           [Text_field ''format'' ''webp'', Text_field ''quality'' ''50'', File_part ''image'' ''img.png'' data] fs
         = (Attachment ''image/webp'' (content_disposition ''img.webp'') out, fs)"
proof -
  have name: "out_name ''img.png'' Webp = ''img.webp''"
    using basename_no_ext_dot [of "''img''" "''png''"] by (simp add: out_name_def)
  have ok: "image_name_ok ''img.png''"
    by (simp add: image_name_ok_def ends_with_def js_simps)
  show ?thesis
    using assms name ok
    by (simp add: post_convert_def file_filter_def convert_handler_def convert_raster_def
        requested_format_def format_of_string_def resolve_quality_def valid_max_width_def
        resize_ops_def encode_op_def js_simps)
qed

end
