(* ===== verification/Client.thy ===== *)
theory Client
  imports Server
begin

text \<open>
  The browser controller \<^verbatim>\<open>src/public/app.js\<close>: the state it keeps between events
  (the selected files, \<open>sourceMeta\<close>, \<open>lastConvertedResults\<close>, the rows of the
  metadata table, the button, the message banner), the pure helpers it renders with
  (\<open>formatBytes\<close>, \<open>formatLabel\<close>, the output name), and its handlers:
  \<open>handleDropFiles\<close>, the synchronous part of \<open>updateZone\<close>, the bulk download and the
  conversion click.

  The conversion click sends one request per file and joins them with
  \<open>Promise.all\<close>. The requests complete in an order the network chooses; the model takes
  that order as an input (\<open>ord\<close>, a permutation of the file indices) together with what
  each request returned (\<open>fetch_result\<close>). Each completed request pushes its result onto
  \<open>results\<close>, so \<open>results\<close> is in completion order; the first failure in that order
  rejects the join. The decoding of an image to its dimensions is a parameter
  \<open>decode\<close>; in the browser it is \<open>get_image_dimensions\<close> (\<open>getImageDimensions\<close>)
  over the image loader. Downloads are returned as a list of (delay in ms, blob,
  name).

  The DOM is reduced to what is displayed: a table cell holds a plain text or a diff
  "source \<open>\<rightarrow>\<close> converted" (the \<open>meta-converted\<close> span), and a row may carry a download
  button with its blob and name.
\<close>

subsection \<open>Data\<close>

record file_entry =
  fname :: string
  fdata :: bytes

record meta =
  m_dims :: string
  m_poids :: string
  m_format :: string

datatype cell = Plain string | Diff string string

record row =
  dims_cell :: cell
  poids_cell :: cell
  format_cell :: cell
  download_btn :: "(bytes \<times> string) option"

record conv_result =
  r_blob :: bytes
  r_name :: string
  r_dims :: "(nat \<times> nat) option"
  r_size :: nat

record client =
  files :: "file_entry list"
  source_meta :: "meta list"
  last_results :: "(bytes \<times> string) list"
  rows :: "row list"
  btn_disabled :: bool
  btn_text :: string
  message :: "(string \<times> bool) option"
  has_converted :: bool
  actions_hidden :: bool
  filename_text :: "string option"
  meta_hidden :: bool

text \<open>What a \<open>fetch\<close> gives: a network failure, a response of the server, or a response
  with a body that is not JSON (from a proxy, say), with its status.\<close>

datatype fetch_result =
    Fetch_failed string
  | Got response
  | Got_raw nat string

type_synonym download = "nat \<times> bytes \<times> string"

subsection \<open>Rendering helpers\<close>

definition ellipsis :: string where
  "ellipsis = [CHR 0xE2, CHR 0x80, CHR 0xA6]"

definition em_dash :: string where
  "em_dash = [CHR 0xE2, CHR 0x80, CHR 0x94]"

definition times_sign :: string where
  "times_sign = [CHR 0xC3, CHR 0x97]"

text \<open>\<open>formatBytes(n)\<close>, lines 31--35.\<close>

definition format_bytes :: "nat \<Rightarrow> string" where
  "format_bytes n =
     (if n < 1024 then nat_str n @ '' o''
      else if n < 1024 * 1024
      then js_replace_first (CHR ''.'') (CHR '','') (js_to_fixed1 (of_nat n / 1024)) @ '' Ko''
      else js_replace_first (CHR ''.'') (CHR '','') (js_to_fixed1 (of_nat n / (1024 * 1024))) @ '' Mo'')"

text \<open>
  A property read \<open>obj[k]\<close> on an object literal: its own properties first, then those
  of \<open>Object.prototype\<close>. Each inherited property is listed with the string a table
  cell shows for it (\<open>textContent\<close> converts with \<open>String\<close>): the native
  functions print as \<open>function name() { [native code] }\<close>, and \<open>__proto__\<close> is
  \<open>Object.prototype\<close> itself.
\<close>

definition native_fn :: "string \<Rightarrow> string" where
  "native_fn n = ''function '' @ n @ ''() { [native code] }''"

definition object_prototype :: "(string \<times> string) list" where
  "object_prototype =
     [(''constructor'', native_fn ''Object''), (''__defineGetter__'', native_fn ''__defineGetter__''),
      (''__defineSetter__'', native_fn ''__defineSetter__''), (''hasOwnProperty'', native_fn ''hasOwnProperty''),
      (''__lookupGetter__'', native_fn ''__lookupGetter__''), (''__lookupSetter__'', native_fn ''__lookupSetter__''),
      (''isPrototypeOf'', native_fn ''isPrototypeOf''), (''propertyIsEnumerable'', native_fn ''propertyIsEnumerable''),
      (''toString'', native_fn ''toString''), (''valueOf'', native_fn ''valueOf''),
      (''__proto__'', ''[object Object]''), (''toLocaleString'', native_fn ''toLocaleString'')]"

definition js_property :: "(string \<times> string) list \<Rightarrow> string \<Rightarrow> string option" where
  "js_property own k = (case map_of own k of Some v \<Rightarrow> Some v | None \<Rightarrow> map_of object_prototype k)"

text \<open>\<open>formatLabel(name)\<close>, lines 37--47: every value found is a non-empty string or a
  function, so \<open>||\<close> falls back to the upper-cased extension only when nothing is found.\<close>

definition label_table :: "(string \<times> string) list" where
  "label_table = [(''jpg'', ''JPEG''), (''jpeg'', ''JPEG''), (''png'', ''PNG''), (''webp'', ''WebP''), (''avif'', ''AVIF'')]"

definition format_label :: "string \<Rightarrow> string" where
  "format_label name =
     (let ext = to_lower (last (split_on (CHR ''.'') name))
      in case js_property label_table ext of Some v \<Rightarrow> v | None \<Rightarrow> to_upper ext)"

text \<open>\<open>fmtLabels[outFormat] || outFormat.toUpperCase()\<close>, lines 233--234.\<close>

definition format_target_label :: "string \<Rightarrow> string" where
  "format_target_label fmt =
     (if fmt = ''webp'' then ''WebP'' else if fmt = ''avif'' then ''AVIF''
      else if fmt = ''jpg'' then ''JPG'' else if fmt = ''png'' then ''PNG''
      else if fmt = ''ico'' then ''ICO'' else to_upper fmt)"

text \<open>\<open>name.replace(/\.[^.]+$/, "")\<close>: drop a final dot and the non-empty run of non-dots after it.\<close>

definition strip_last_ext :: "string \<Rightarrow> string" where
  "strip_last_ext s =
     (let tail = takeWhile (\<lambda>c. c \<noteq> CHR ''.'') (rev s)
      in if tail \<noteq> [] \<and> length tail < length s then take (length s - length tail - 1) s else s)"

definition client_out_name :: "string \<Rightarrow> string \<Rightarrow> string" where
  "client_out_name name fmt = strip_last_ext name @ CHR ''.'' # fmt"

definition dims_text :: "(nat \<times> nat) option \<Rightarrow> string" where
  "dims_text d = (case d of None \<Rightarrow> em_dash | Some (w, h) \<Rightarrow> nat_str w @ '' '' @ times_sign @ '' '' @ nat_str h)"

text \<open>
  \<open>getImageDimensions(blob)\<close>, lines 60--74: an \<open>Image\<close> loads the blob; \<open>onload\<close>
  resolves its natural size, \<open>onerror\<close> resolves \<open>null\<close>. The browser's loader is the
  parameter \<open>load\<close>; the handlers below take the resulting function as \<open>decode\<close>.
\<close>

datatype image_load = Loaded nat nat | Load_error

definition get_image_dimensions :: "(bytes \<Rightarrow> image_load) \<Rightarrow> bytes \<Rightarrow> (nat \<times> nat) option" where
  "get_image_dimensions load b = (case load b of Loaded w h \<Rightarrow> Some (w, h) | Load_error \<Rightarrow> None)"

subsection \<open>Selection\<close>

definition initial_meta :: "file_entry \<Rightarrow> meta" where
  "initial_meta f =
     \<lparr>m_dims = ellipsis, m_poids = format_bytes (length (fdata f)), m_format = format_label (fname f)\<rparr>"

definition initial_row :: "meta \<Rightarrow> row" where
  "initial_row m =
     \<lparr>dims_cell = Plain (m_dims m), poids_cell = Plain (m_poids m), format_cell = Plain (m_format m),
      download_btn = None\<rparr>"

text \<open>\<open>showMsg(text, type)\<close> and \<open>clearMsg()\<close>, lines 76--84: the banner shows the
  text as an error exactly when the type is \<open>"error"\<close>, and is hidden again.\<close>

definition show_msg :: "string \<Rightarrow> string \<Rightarrow> client \<Rightarrow> client" where
  "show_msg text ty c = c\<lparr>message := Some (text, ty = ''error'')\<rparr>"

definition clear_msg :: "client \<Rightarrow> client" where
  "clear_msg c = c\<lparr>message := None\<rparr>"

declare show_msg_def [simp] clear_msg_def [simp]

text \<open>
  The synchronous part of \<open>updateZone()\<close>, lines 131--182. The dimensions are
  filled in later by one promise per file; those continuations are not part of this step.
\<close>

definition update_zone :: "client \<Rightarrow> client" where
  "update_zone c =
     (let fs = files c;
          c1 = c\<lparr>has_converted := False, actions_hidden := True, last_results := [],
                 source_meta := []\<rparr>
      in if fs = []
         then clear_msg (c1\<lparr>filename_text := None, btn_disabled := True, meta_hidden := True, rows := []\<rparr>)
         else (let ms = map initial_meta fs;
                   c2 = clear_msg (c1\<lparr>filename_text := Some (if length fs = 1 then fname (hd fs)
                                                          else nat_str (length fs) @ '' fichiers''),
                                     btn_disabled := False, meta_hidden := False\<rparr>)
               in c2\<lparr>source_meta := ms, rows := map initial_row ms\<rparr>))"

text \<open>A choice in the file picker, lines 90 and 107: \<open>updateZone\<close> on whatever was chosen.\<close>

definition select_files :: "file_entry list \<Rightarrow> client \<Rightarrow> client" where
  "select_files fs c = update_zone (c\<lparr>files := fs\<rparr>)"

text \<open>\<open>handleDropFiles(fileList)\<close>, lines 21--29, with the test \<open>IMG_REG\<close> of line 17.\<close>

definition handle_drop_files :: "file_entry list \<Rightarrow> client \<Rightarrow> client" where
  "handle_drop_files fl c =
     (let valid = filter (\<lambda>f. image_name_ok (fname f)) fl
      in if valid = [] then c else update_zone (c\<lparr>files := valid\<rparr>))"

text \<open>The click on "download all", lines 184--188: one download every 150 ms.\<close>

definition download_all :: "client \<Rightarrow> download list" where
  "download_all c = map (\<lambda>(i, b, n). (150 * i, b, n)) (enumerate 0 (last_results c))"

text \<open>
  The shape the table keeps between events: one row and one \<open>sourceMeta\<close> entry per
  selected file.
\<close>

definition table_wf :: "client \<Rightarrow> bool" where
  "table_wf c \<longleftrightarrow> length (rows c) = length (files c) \<and> length (source_meta c) = length (files c)"

subsection \<open>The conversion click\<close>

text \<open>The multipart body one request sends, lines 208--212.\<close>

definition form_parts :: "file_entry \<Rightarrow> string \<Rightarrow> string \<Rightarrow> string \<Rightarrow> part list" where
  "form_parts f fmt q mw =
     [File_part ''image'' (fname f) (fdata f), Text_field ''format'' fmt, Text_field ''quality'' q] @
     (if mw = [] then [] else [Text_field ''maxWidth'' mw])"

definition http_ok :: "nat \<Rightarrow> bool" where
  "http_ok st \<longleftrightarrow> 200 \<le> st \<and> st \<le> 299"

definition make_result :: "(bytes \<Rightarrow> (nat \<times> nat) option) \<Rightarrow> string \<Rightarrow> file_entry \<Rightarrow> bytes \<Rightarrow> conv_result" where
  "make_result decode fmt f b =
     \<lparr>r_blob = b, r_name = client_out_name (fname f) fmt, r_dims = decode b, r_size = length b\<rparr>"

text \<open>
  One request's continuation, lines 213--228: a rejected \<open>fetch\<close> rejects; a response
  that is not \<open>ok\<close> throws \<open>j.error || text || "Erreur " + status\<close>, where \<open>j\<close> is
  the parsed JSON body or \<open>{}\<close>; an \<open>ok\<close> response yields the result.
\<close>

definition file_request ::
  "(bytes \<Rightarrow> (nat \<times> nat) option) \<Rightarrow> string \<Rightarrow> file_entry \<Rightarrow> fetch_result \<Rightarrow> string + conv_result" where
  "file_request decode fmt f r =
     (case r of
        Fetch_failed m \<Rightarrow> Inl m
      | Got (Json_error st m) \<Rightarrow>
          if http_ok st then Inr (make_result decode fmt f (string_bytes (json_error_text m)))
          else Inl (if m \<noteq> [] then m else json_error_text m)
      | Got (Attachment ct cd b) \<Rightarrow> Inr (make_result decode fmt f b)
      | Got_raw st t \<Rightarrow>
          if http_ok st then Inr (make_result decode fmt f (string_bytes t))
          else Inl (if t \<noteq> [] then t else ''Erreur '' @ nat_str st))"

text \<open>\<open>Promise.all\<close> over the completions in time order: results in completion order,
  the first rejection wins.\<close>

fun promise_all :: "(string + conv_result) list \<Rightarrow> conv_result list \<Rightarrow> string + conv_result list" where
  "promise_all [] acc = Inr acc"
| "promise_all (Inl e # rest) acc = Inl e"
| "promise_all (Inr r # rest) acc = promise_all rest (acc @ [r])"

text \<open>One iteration of \<open>results.forEach((r, i) => ...)\<close>, lines 239--266: row \<open>i\<close> of
  the table gets result \<open>r\<close> beside \<open>sourceMeta[i]\<close>. A missing row is a
  \<open>TypeError\<close>, which the surrounding \<open>catch\<close> reports.\<close>

definition msg_no_row :: string where
  "msg_no_row = ''Cannot read properties of undefined (reading '' @ [CHR 0x27] @ ''cells'' @ [CHR 0x27] @ '')''"

definition undefined_meta :: meta where
  "undefined_meta = \<lparr>m_dims = ''undefined'', m_poids = ''undefined'', m_format = ''undefined''\<rparr>"

text \<open>\<open>sourceMeta[i] || {}\<close>: a missing entry renders its fields as \<open>undefined\<close>.\<close>

definition meta_at :: "client \<Rightarrow> nat \<Rightarrow> meta" where
  "meta_at c i = (if i < length (source_meta c) then source_meta c ! i else undefined_meta)"

definition result_row :: "string \<Rightarrow> meta \<Rightarrow> conv_result \<Rightarrow> row" where
  "result_row lbl src r =
     \<lparr>dims_cell = Diff (m_dims src) (dims_text (r_dims r)),
      poids_cell = Diff (m_poids src) (format_bytes (r_size r)),
      format_cell = Diff (m_format src) lbl,
      download_btn = Some (r_blob r, r_name r)\<rparr>"

definition apply_result :: "string \<Rightarrow> nat \<Rightarrow> conv_result \<Rightarrow> client \<Rightarrow> string + client" where
  "apply_result lbl i r c =
     (if length (rows c) \<le> i then Inl msg_no_row
      else Inr (c\<lparr>rows := (rows c)[i := result_row lbl (meta_at c i) r],
                  last_results := last_results c @ [(r_blob r, r_name r)]\<rparr>))"

text \<open>The whole loop: the rows updated before a \<open>TypeError\<close> stay updated.\<close>

fun apply_results :: "string \<Rightarrow> nat \<Rightarrow> conv_result list \<Rightarrow> client \<Rightarrow> client \<times> string option" where
  "apply_results lbl i [] c = (c, None)"
| "apply_results lbl i (r # rs) c =
     (case apply_result lbl i r c of Inl e \<Rightarrow> (c, Some e) | Inr c' \<Rightarrow> apply_results lbl (Suc i) rs c')"

definition msg_done :: "nat \<Rightarrow> string" where
  "msg_done n = (if n = 1 then ''Fichier converti.'' else nat_str n @ '' fichiers convertis.'')"

definition conversion_label :: string where
  "conversion_label = ''Conversion'' @ ellipsis"

text \<open>
  The click handler, lines 190--282, in the two parts the \<open>await\<close> of line 206
  separates. \<open>convert_begin\<close> is what runs on the click (lines 193--198);
  \<open>convert_settle\<close> what runs when the join settles, on the page as it is then: the
  success path (lines 232--275) or the \<open>catch\<close> block (line 277), and the
  \<open>finally\<close> block (lines 279--280), which re-enables the button on every path.
  \<open>fmt\<close> is the format select's value read at the click (line 200).
\<close>

definition convert_begin :: "client \<Rightarrow> client" where
  "convert_begin c =
     (clear_msg c)\<lparr>has_converted := False, actions_hidden := True,
       last_results := [], btn_disabled := True, btn_text := conversion_label\<rparr>"

definition convert_finally :: "client \<Rightarrow> client" where
  "convert_finally c = c\<lparr>btn_disabled := False, btn_text := ''Convertir''\<rparr>"

definition convert_fail :: "string \<Rightarrow> client \<Rightarrow> client" where
  "convert_fail e c = convert_finally (show_msg (if e = [] then msg_conversion else e) ''error'' c)"

definition convert_settle :: "string \<Rightarrow> string + conv_result list \<Rightarrow> client \<Rightarrow> client \<times> download list" where
  "convert_settle fmt outcome c1 =
     (case outcome of
        Inl e \<Rightarrow> (convert_fail e c1, [])
      | Inr results \<Rightarrow>
          (let c2 = c1\<lparr>has_converted := True,
                       actions_hidden := (if 1 < length results then False else actions_hidden c1)\<rparr>
           in case apply_results (format_target_label fmt) 0 results c2 of
                (c3, Some e) \<Rightarrow> (convert_fail e c3, [])
              | (c3, None) \<Rightarrow>
                  (convert_finally (show_msg (msg_done (length results)) ''success'' c3),
                   if length results = 1 then [(0, r_blob (hd results), r_name (hd results))] else [])))"

text \<open>
  The whole click when nothing else happens before the join settles: \<open>resp i\<close> is what
  the request of file \<open>i\<close> returned, \<open>ord\<close> the order of completion.
\<close>

definition convert_click ::
  "(bytes \<Rightarrow> (nat \<times> nat) option) \<Rightarrow> string \<Rightarrow> (nat \<Rightarrow> fetch_result) \<Rightarrow> nat list \<Rightarrow> client \<Rightarrow>
   client \<times> download list" where
  "convert_click decode fmt resp ord c =
     (if files c = [] then (c, [])
      else convert_settle fmt (promise_all (map (\<lambda>i. file_request decode fmt (files c ! i) (resp i)) ord) [])
             (convert_begin c))"

lemmas convert_click_defs =
  convert_click_def convert_begin_def convert_settle_def convert_fail_def convert_finally_def

subsection \<open>Sample inputs\<close>

text \<open>The page as loaded, two selected images and the replies of a server, for the witnesses.\<close>

definition empty_client :: client where
  "empty_client =
     \<lparr>files = [], source_meta = [], last_results = [], rows = [], btn_disabled = True,
      btn_text = ''Convertir'', message = None, has_converted = False, actions_hidden = True,
      filename_text = None, meta_hidden = True\<rparr>"

definition two_files :: "file_entry list" where
  "two_files = [\<lparr>fname = ''a.png'', fdata = [1]\<rparr>, \<lparr>fname = ''b.png'', fdata = [2, 2]\<rparr>]"

definition sample_reply :: "nat \<Rightarrow> bytes" where
  "sample_reply i = (if i = 0 then [7] else [8, 8, 8])"

text \<open>The rows after a run of \<open>apply_results\<close> that meets no missing row.\<close>

definition rows_after :: "string \<Rightarrow> nat \<Rightarrow> conv_result list \<Rightarrow> client \<Rightarrow> row list" where
  "rows_after lbl i rs c =
     map (\<lambda>j. if i \<le> j \<and> j < i + length rs then result_row lbl (meta_at c j) (rs ! (j - i)) else rows c ! j)
       [0..<length (rows c)]"

subsection \<open>Lemmas on the batch\<close>

lemma promise_all_Inr: "promise_all (map Inr rs) acc = Inr (acc @ rs)"
  by (induction rs arbitrary: acc) auto

lemma promise_all_first_Inl: "promise_all (map Inr rs @ Inl e # rest) acc = Inl e"
  by (induction rs arbitrary: acc) auto

lemma rows_after_nth:
  "j < length (rows c) \<Longrightarrow> rows_after lbl i rs c ! j =
     (if i \<le> j \<and> j < i + length rs then result_row lbl (meta_at c j) (rs ! (j - i)) else rows c ! j)"
  by (simp add: rows_after_def)

lemma apply_results_ok:
  assumes "i + length rs \<le> length (rows c)"
  shows "apply_results lbl i rs c =
           (c\<lparr>rows := rows_after lbl i rs c,
              last_results := last_results c @ map (\<lambda>r. (r_blob r, r_name r)) rs\<rparr>, None)"
  using assms
proof (induction rs arbitrary: i c)
  case Nil
  have "rows_after lbl i [] c = rows c"
    by (rule nth_equalityI) (auto simp: rows_after_def)
  then show ?case by simp
next
  case (Cons r rs)
  let ?c' = "c\<lparr>rows := (rows c)[i := result_row lbl (meta_at c i) r],
                last_results := last_results c @ [(r_blob r, r_name r)]\<rparr>"
  have step: "apply_result lbl i r c = Inr ?c'"
    using Cons.prems by (simp add: apply_result_def)
  have "Suc i + length rs \<le> length (rows ?c')"
    using Cons.prems by simp
  then have IH: "apply_results lbl (Suc i) rs ?c' =
      (?c'\<lparr>rows := rows_after lbl (Suc i) rs ?c',
            last_results := last_results ?c' @ map (\<lambda>r. (r_blob r, r_name r)) rs\<rparr>, None)"
    by (rule Cons.IH)
  have ma: "meta_at ?c' j = meta_at c j" for j
    by (simp add: meta_at_def)
  have "rows_after lbl (Suc i) rs ?c' = rows_after lbl i (r # rs) c"
    using Cons.prems
    by (auto simp: rows_after_def ma nth_list_update nth_Cons' intro!: map_cong)
  with step IH show ?case
    by simp
qed

lemma apply_results_frame:
  "apply_results lbl i rs c = (c', eo) \<Longrightarrow>
   files c' = files c \<and> source_meta c' = source_meta c \<and> length (rows c') = length (rows c)"
proof (induction rs arbitrary: i c)
  case Nil
  then show ?case by simp
next
  case (Cons r rs)
  then show ?case
    by (fastforce simp: apply_result_def split: sum.splits if_splits)
qed

lemma convert_click_success:
  assumes "files c \<noteq> []" and "table_wf c" and "length ord = length (files c)"
    and "map (\<lambda>i. file_request decode fmt (files c ! i) (resp i)) ord = map Inr rs"
  shows "convert_click decode fmt resp ord c =
     (c\<lparr>message := Some (msg_done (length rs), False), has_converted := True,
        actions_hidden := (if 1 < length rs then False else True),
        last_results := map (\<lambda>r. (r_blob r, r_name r)) rs, btn_disabled := False,
        btn_text := ''Convertir'', rows := rows_after (format_target_label fmt) 0 rs c\<rparr>,
      if length rs = 1 then [(0, r_blob (hd rs), r_name (hd rs))] else [])"
proof -
  have len: "length rs = length ord"
    using arg_cong [OF assms(4), of length] by simp
  have "length rs \<le> length (rows c)"
    using assms(2,3) len by (simp add: table_wf_def)
  with assms(1,4) show ?thesis
    by (simp add: convert_click_defs promise_all_Inr Let_def apply_results_ok rows_after_def meta_at_def)
qed

lemma update_zone_wf: "table_wf (update_zone c)"
  by (simp add: update_zone_def table_wf_def Let_def)

text \<open>
  C24. After a batch in which every request succeeded, row \<open>j\<close> of the table shows the
  source metadata of file \<open>j\<close> beside the converted result of file \<open>ord ! j\<close>, the
  \<open>j\<close>-th request to complete, and its download button downloads that file. Unless the
  requests complete in selection order, rows pair one file's source data with another
  file's result; the specification requires results to be applied in selection order.
\<close>

theorem convert_click_rows:
  assumes "files c \<noteq> []" and "table_wf c" and "length ord = length (files c)"
    and "\<forall>i \<in> set ord. file_request decode fmt (files c ! i) (resp i) = Inr (res i)"
    and "j < length (files c)"
  shows "rows (fst (convert_click decode fmt resp ord c)) ! j =
           result_row (format_target_label fmt) (source_meta c ! j) (res (ord ! j))"
proof -
  have m: "map (\<lambda>i. file_request decode fmt (files c ! i) (resp i)) ord = map Inr (map res ord)"
    using assms(4) by simp
  have "j < length (rows c)" "j < length (source_meta c)"
    using assms(2,5) by (simp_all add: table_wf_def)
  with convert_click_success [OF assms(1-3) m] assms(3,5) show ?thesis
    by (simp add: rows_after_nth meta_at_def)
qed

theorem convert_click_rows_witness:
  "let c = select_files two_files empty_client;
       c' = fst (convert_click (\<lambda>_. None) ''webp''
              (\<lambda>i. Got (Attachment ''image/webp'' [] (sample_reply i))) [1, 0] c)
   in poids_cell (rows c' ! 0) = Diff ''1 o'' ''3 o'' \<and>
      download_btn (rows c' ! 0) = Some ([8, 8, 8], ''b.webp'')"
proof -
  let ?c = "select_files two_files empty_client"
  let ?res = "\<lambda>i. make_result (\<lambda>_. None) ''webp'' (two_files ! i) (sample_reply i)"
  have f: "files ?c = two_files" "two_files \<noteq> []" "length two_files = 2"
    by (simp_all add: select_files_def update_zone_def Let_def two_files_def)
  have wf: "table_wf ?c"
    unfolding select_files_def by (rule update_zone_wf)
  have ok: "\<forall>i \<in> set [1, 0]. file_request (\<lambda>_. None) ''webp'' (files ?c ! i)
      (Got (Attachment ''image/webp'' [] (sample_reply i))) = Inr (?res i)"
    by (simp add: f file_request_def)
  have sm: "source_meta ?c ! 0 = initial_meta (two_files ! 0)"
    by (simp add: select_files_def update_zone_def Let_def two_files_def)
  from convert_click_rows [OF _ wf _ ok, of 0] f sm show ?thesis
    by (simp add: result_row_def initial_meta_def make_result_def client_out_name_def
        strip_last_ext_def sample_reply_def two_files_def format_bytes_def nat_str.simps
        digit_char_def js_simps)
qed

text \<open>
  C39. The downloads of a successful batch: a batch of one file downloads its result at
  once (delay 0), a batch of several downloads nothing by itself, and "download all"
  afterwards schedules every result of the batch, the \<open>i\<close>-th to complete at
  \<open>150 i\<close> ms, under its converted name.
\<close>

theorem batch_downloads:
  assumes "files c \<noteq> []" and "table_wf c" and "length ord = length (files c)"
    and "map (\<lambda>i. file_request decode fmt (files c ! i) (resp i)) ord = map Inr rs"
  shows "snd (convert_click decode fmt resp ord c) =
           (if length rs = 1 then [(0, r_blob (hd rs), r_name (hd rs))] else []) \<and>
         download_all (fst (convert_click decode fmt resp ord c)) =
           map (\<lambda>(i, r). (150 * i, r_blob r, r_name r)) (enumerate 0 rs)"
  using convert_click_success [OF assms]
  by (simp add: download_all_def enumerate_eq_zip zip_map2 case_prod_beta)

theorem batch_downloads_witness:
  "snd (convert_click (\<lambda>_. None) ''webp'' (\<lambda>i. Got (Attachment ''image/webp'' [] (sample_reply i))) [1, 0]
      (select_files two_files empty_client)) = [] \<and>
   download_all (fst (convert_click (\<lambda>_. None) ''webp''
      (\<lambda>i. Got (Attachment ''image/webp'' [] (sample_reply i))) [1, 0]
      (select_files two_files empty_client))) = [(0, [8, 8, 8], ''b.webp''), (150, [7], ''a.webp'')]"
proof -
  let ?c = "select_files two_files empty_client"
  let ?res = "\<lambda>i. make_result (\<lambda>_. None) ''webp'' (two_files ! i) (sample_reply i)"
  have f: "files ?c \<noteq> []" "length [1, 0 :: nat] = length (files ?c)"
    by (simp_all add: select_files_def update_zone_def Let_def two_files_def)
  have wf: "table_wf ?c"
    unfolding select_files_def by (rule update_zone_wf)
  have m: "map (\<lambda>i. file_request (\<lambda>_. None) ''webp'' (files ?c ! i)
      (Got (Attachment ''image/webp'' [] (sample_reply i)))) [1, 0] = map Inr [?res 1, ?res 0]"
    by (simp add: select_files_def update_zone_def Let_def two_files_def file_request_def)
  from batch_downloads [OF f(1) wf f(2) m] show ?thesis
    by (simp add: make_result_def client_out_name_def strip_last_ext_def sample_reply_def two_files_def
        js_simps)
qed

text \<open>
  C25. \<open>Promise.all\<close> fails fast: when, in completion order, some requests succeed and then
  one fails, the batch shows that failure's message (or the generic one), discards the
  results already received (\<open>lastConvertedResults\<close> stays empty, the rows are not
  touched) and offers no download.
\<close>

theorem convert_click_first_failure:
  assumes "files c \<noteq> []"
    and "map (\<lambda>i. file_request decode fmt (files c ! i) (resp i)) ord = map Inr oks @ Inl e # rest"
  shows "convert_click decode fmt resp ord c =
     (c\<lparr>message := Some (if e = [] then msg_conversion else e, True), has_converted := False,
        actions_hidden := True, last_results := [], btn_disabled := False, btn_text := ''Convertir''\<rparr>, [])"
  using assms by (simp add: convert_click_defs promise_all_first_Inl)

theorem convert_click_first_failure_witness:
  "fst (convert_click (\<lambda>_. None) ''webp''
          (\<lambda>i. if i = 1 then Got (Json_error 400 msg_bad_format)
               else Got (Attachment ''image/webp'' [] [7])) [0, 1]
          (select_files two_files empty_client))
   = (select_files two_files empty_client)\<lparr>message := Some (msg_bad_format, True),
       has_converted := False, actions_hidden := True, last_results := [], btn_disabled := False,
       btn_text := ''Convertir''\<rparr>"
proof -
  let ?c = "select_files two_files empty_client"
  have f: "files ?c = two_files"
    by (simp add: select_files_def update_zone_def Let_def two_files_def)
  have m: "map (\<lambda>i. file_request (\<lambda>_. None) ''webp'' (files ?c ! i)
      (if i = 1 then Got (Json_error 400 msg_bad_format) else Got (Attachment ''image/webp'' [] [7]))) [0, 1]
    = map Inr [make_result (\<lambda>_. None) ''webp'' (two_files ! 0) [7]] @ Inl msg_bad_format # []"
    by (simp add: f file_request_def http_ok_def)
  from convert_click_first_failure [OF _ m] f show ?thesis
    by (simp add: two_files_def)
qed

text \<open>
  C11. An HTTP error that does not carry the server's JSON (a proxy's or gateway's page)
  is reported by its raw body text, or as "Erreur <status>" when the body is empty: when
  such a response is the first of the batch to complete, the banner shows that text as an
  error and nothing is downloaded. The generic "Erreur de conversion" never appears for a
  response with an error status.
\<close>

theorem client_raw_error_message:
  assumes "files c \<noteq> []" and "ord \<noteq> []" and "resp (hd ord) = Got_raw st t" and "\<not> http_ok st"
  shows "message (fst (convert_click decode fmt resp ord c)) =
           Some (if t \<noteq> [] then t else ''Erreur '' @ nat_str st, True) \<and>
         snd (convert_click decode fmt resp ord c) = []"
proof -
  obtain j js where ord: "ord = j # js"
    using assms(2) by (cases ord) auto
  let ?e = "if t \<noteq> [] then t else ''Erreur '' @ nat_str st"
  have "map (\<lambda>i. file_request decode fmt (files c ! i) (resp i)) ord =
        map Inr [] @ Inl ?e # map (\<lambda>i. file_request decode fmt (files c ! i) (resp i)) js"
    using assms(3,4) ord by (simp add: file_request_def)
  moreover have "?e \<noteq> []"
    by simp
  ultimately show ?thesis
    using assms(1) by (simp add: convert_click_defs promise_all_first_Inl)
qed

theorem client_raw_error_message_witness:
  "message (fst (convert_click (\<lambda>_. None) ''webp'' (\<lambda>_. Got_raw 502 []) [1, 0]
      (select_files two_files empty_client))) = Some (''Erreur 502'', True) \<and>
   snd (convert_click (\<lambda>_. None) ''webp'' (\<lambda>_. Got_raw 502 []) [1, 0]
      (select_files two_files empty_client)) = []"
proof -
  have "files (select_files two_files empty_client) \<noteq> []" "[1, 0 :: nat] \<noteq> []"
    "(\<lambda>_ :: nat. Got_raw 502 []) (hd [1, 0]) = Got_raw 502 []" "\<not> http_ok 502"
    by (simp_all add: select_files_def update_zone_def Let_def two_files_def http_ok_def)
  from client_raw_error_message [OF this, of "\<lambda>_. None" "''webp''"] show ?thesis
    by (simp add: nat_str.simps digit_char_def js_simps)
qed

text \<open>Whatever the requests return, once the batch settles the convert button is enabled
  again and reads "Convertir": the \<open>finally\<close> block runs on every path.\<close>

lemma convert_click_reenables:
  assumes "files c \<noteq> []"
  shows "\<not> btn_disabled (fst (convert_click decode fmt resp ord c)) \<and>
         btn_text (fst (convert_click decode fmt resp ord c)) = ''Convertir''"
  using assms by (auto simp: convert_click_defs Let_def split: sum.split prod.split option.split)

text \<open>
  The table keeps one row and one \<open>sourceMeta\<close> entry per selected file: a new
  selection establishes it, and a drop and a conversion keep it.
\<close>

lemma table_wf_invariant:
  "table_wf (update_zone c) \<and>
   (table_wf c \<longrightarrow> table_wf (handle_drop_files fl c)) \<and>
   (table_wf c \<longrightarrow> table_wf (fst (convert_click decode fmt resp ord c)))"
proof (intro conjI impI)
  show "table_wf (update_zone c)" by (rule update_zone_wf)
next
  assume "table_wf c"
  then show "table_wf (handle_drop_files fl c)"
    by (simp add: handle_drop_files_def Let_def update_zone_wf)
next
  assume "table_wf c"
  then show "table_wf (fst (convert_click decode fmt resp ord c))"
    by (auto simp: convert_click_defs Let_def table_wf_def dest!: apply_results_frame
        split: sum.split prod.split option.split)
qed

text \<open>
  C33. A drop keeps the selection made of image files only: the files it selects are
  exactly the image files dropped, in order, and a drop without any image changes nothing.
\<close>

theorem drop_keeps_images:
  assumes "\<forall>f \<in> set (files c). image_name_ok (fname f)"
  shows "(\<forall>f \<in> set (files (handle_drop_files fl c)). image_name_ok (fname f)) \<and>
         (filter (\<lambda>f. image_name_ok (fname f)) fl \<noteq> [] \<longrightarrow>
            files (handle_drop_files fl c) = filter (\<lambda>f. image_name_ok (fname f)) fl) \<and>
         (filter (\<lambda>f. image_name_ok (fname f)) fl = [] \<longrightarrow> handle_drop_files fl c = c)"
  using assms by (auto simp: handle_drop_files_def update_zone_def Let_def)

theorem drop_keeps_images_witness:
  "files (handle_drop_files [\<lparr>fname = ''notes.txt'', fdata = [1]\<rparr>, \<lparr>fname = ''B.PNG'', fdata = [2]\<rparr>]
            empty_client) = [\<lparr>fname = ''B.PNG'', fdata = [2]\<rparr>] \<and>
   handle_drop_files [\<lparr>fname = ''notes.txt'', fdata = [1]\<rparr>]
     (empty_client\<lparr>files := [\<lparr>fname = ''B.PNG'', fdata = [2]\<rparr>]\<rparr>) =
     empty_client\<lparr>files := [\<lparr>fname = ''B.PNG'', fdata = [2]\<rparr>]\<rparr>"
proof -
  have "\<forall>f \<in> set (files empty_client). image_name_ok (fname f)"
    by (simp add: empty_client_def)
  from drop_keeps_images [OF this, of "[\<lparr>fname = ''notes.txt'', fdata = [1]\<rparr>, \<lparr>fname = ''B.PNG'', fdata = [2]\<rparr>]"]
  have one: "files (handle_drop_files [\<lparr>fname = ''notes.txt'', fdata = [1]\<rparr>, \<lparr>fname = ''B.PNG'', fdata = [2]\<rparr>]
            empty_client) = [\<lparr>fname = ''B.PNG'', fdata = [2]\<rparr>]"
    by (simp add: image_name_ok_def ends_with_def js_simps)
  have "\<forall>f \<in> set (files (empty_client\<lparr>files := [\<lparr>fname = ''B.PNG'', fdata = [2]\<rparr>]\<rparr>)). image_name_ok (fname f)"
    by (simp add: image_name_ok_def ends_with_def js_simps)
  from drop_keeps_images [OF this, of "[\<lparr>fname = ''notes.txt'', fdata = [1]\<rparr>]"]
  have two: "handle_drop_files [\<lparr>fname = ''notes.txt'', fdata = [1]\<rparr>]
     (empty_client\<lparr>files := [\<lparr>fname = ''B.PNG'', fdata = [2]\<rparr>]\<rparr>) =
     empty_client\<lparr>files := [\<lparr>fname = ''B.PNG'', fdata = [2]\<rparr>]\<rparr>"
    by (simp add: image_name_ok_def ends_with_def js_simps)
  from one two show ?thesis by blast
qed

subsection \<open>Rendering\<close>

lemma fixed1_ko: "nat \<lfloor>10 * (of_nat n / 1024 :: rat) + 1 / 2\<rfloor> = (10 * n + 512) div 1024"
proof -
  have "10 * (of_nat n / 1024 :: rat) + 1 / 2 = of_int (int (10 * n + 512)) / of_int 1024"
    by (simp add: field_simps)
  then have "\<lfloor>10 * (of_nat n / 1024 :: rat) + 1 / 2\<rfloor> = int (10 * n + 512) div 1024"
    by (simp only: floor_divide_of_int_eq)
  then show ?thesis
    by (simp add: zdiv_int [symmetric])
qed

text \<open>
  C28. Sizes from 1 KiB to just under 1 MiB are shown in "Ko" with one decimal after a
  comma: the digits of \<open>k div 10\<close>, a comma and \<open>k mod 10\<close>, where
  \<open>k = (10 n + 512) div 1024\<close> is the size in tenths of KiB rounded half up. Just below
  1 MiB this gives "1024,0 Ko" rather than "1,0 Mo".
\<close>

theorem format_bytes_ko:
  assumes "1024 \<le> n" and "n < 1024 * 1024"
  shows "format_bytes n =
           nat_str ((10 * n + 512) div 1024 div 10) @ CHR '','' #
           digit_char ((10 * n + 512) div 1024 mod 10) # '' Ko''"
proof -
  have "js_to_fixed1 (of_nat n / 1024) =
          nat_str ((10 * n + 512) div 1024 div 10) @ CHR ''.'' # [digit_char ((10 * n + 512) div 1024 mod 10)]"
    by (simp only: js_to_fixed1_def fixed1_ko Let_def)
  with assms show ?thesis
    by (simp add: format_bytes_def js_replace_first_append nat_str_no_dot)
qed

theorem format_bytes_ko_witness:
  "format_bytes 1536 = ''1,5 Ko'' \<and> format_bytes 1048575 = ''1024,0 Ko''"
  using format_bytes_ko [of 1536] format_bytes_ko [of 1048575]
  by (simp add: nat_str.simps digit_char_def js_simps)

lemma format_label_ext:
  "CHR ''.'' \<notin> set e \<Longrightarrow> format_label (p @ CHR ''.'' # e) = format_label (CHR ''.'' # to_lower e)"
proof -
  assume e: "CHR ''.'' \<notin> set e"
  then have "CHR ''.'' \<notin> set (to_lower e)"
    by (rule dot_not_in_to_lower)
  with e show ?thesis
    using last_split_on [of "CHR ''.''" e p] last_split_on [of "CHR ''.''" "to_lower e" "[]"]
    by (simp add: format_label_def)
qed

text \<open>
  Every name the image test accepts (the filter of drops and of the server) gets one
  of the four labels JPEG, PNG, WebP, AVIF, whatever the case of its extension.
\<close>

lemma format_label_image:
  assumes "image_name_ok name"
  shows "format_label name \<in> {''JPEG'', ''PNG'', ''WebP'', ''AVIF''}"
proof -
  from assms obtain x where x: "x \<in> {''jpg'', ''jpeg'', ''png'', ''webp'', ''avif''}"
    and ew: "ends_with (CHR ''.'' # x) (to_lower name)"
    by (auto simp: image_name_ok_def Let_def)
  from ew obtain p t where name: "name = p @ t" and lt: "to_lower t = CHR ''.'' # x"
    by (rule to_lower_suffix)
  have "CHR ''.'' \<notin> set x" using x by auto
  with lt obtain e where "t = CHR ''.'' # e" "to_lower e = x" "CHR ''.'' \<notin> set e"
    by (rule dot_suffix)
  with name have "format_label name = format_label (CHR ''.'' # x)"
    by (simp add: format_label_ext)
  with x show ?thesis
    by (auto simp: format_label_def js_property_def label_table_def Let_def js_simps split_on_no_sep)
qed

lemma dims_placeholder:
  "load b = Load_error \<Longrightarrow> dims_text (get_image_dimensions load b) = em_dash"
  by (simp add: get_image_dimensions_def dims_text_def)

lemma to_lower_no_upper:
  "c \<in> set (to_lower s) \<Longrightarrow> \<not> (65 \<le> (of_char c :: nat) \<and> (of_char c :: nat) \<le> 90)"
proof -
  assume "c \<in> set (to_lower s)"
  then obtain d where c: "c = lower_char d"
    by (auto simp: to_lower_def)
  show ?thesis
  proof (cases "65 \<le> (of_char d :: nat) \<and> (of_char d :: nat) \<le> 90")
    case True
    then have "(of_char (char_of (of_char d + 32 :: nat)) :: nat) = of_char d + 32"
      by simp
    with True show ?thesis by (simp add: c lower_char_def Let_def)
  next
    case False
    then show ?thesis by (simp add: c lower_char_def Let_def)
  qed
qed

lemma object_prototype_lower:
  assumes "map_of object_prototype k = Some v"
    and "\<forall>c \<in> set k. \<not> (65 \<le> (of_char c :: nat) \<and> (of_char c :: nat) \<le> 90)"
  shows "k = ''constructor'' \<and> v = native_fn ''Object'' \<or> k = ''__proto__'' \<and> v = ''[object Object]''"
  using assms by (auto simp: object_prototype_def split: if_splits)

text \<open>
  C30. \<open>formatLabel\<close> looks the extension up on an object literal, so the lookup also
  finds the properties of \<open>Object.prototype\<close>. Because the extension is lower-cased
  first, exactly two of them can be hit: \<open>*.constructor\<close> is labelled
  \<open>function Object() { [native code] }\<close> and \<open>*.__proto__\<close> \<open>[object Object]\<close>;
  every other extension outside the table gets its upper-cased form. Such files reach
  the table through the file picker, which applies no extension filter.
\<close>

theorem format_label_inherited:
  assumes "CHR ''.'' \<notin> set e"
  shows "format_label (p @ CHR ''.'' # e) =
           (case map_of label_table (to_lower e) of
              Some v \<Rightarrow> v
            | None \<Rightarrow>
                if to_lower e = ''constructor'' then native_fn ''Object''
                else if to_lower e = ''__proto__'' then ''[object Object]''
                else to_upper (to_lower e))"
proof -
  have nd: "CHR ''.'' \<notin> set (to_lower e)"
    using assms by (rule dot_not_in_to_lower)
  have lab: "format_label (p @ CHR ''.'' # e) =
      (case js_property label_table (to_lower e) of Some v \<Rightarrow> v | None \<Rightarrow> to_upper (to_lower e))"
    using format_label_ext [OF assms, of p]
    by (simp add: format_label_def Let_def split_on_no_sep nd)
  have low: "\<forall>c \<in> set (to_lower e). \<not> (65 \<le> (of_char c :: nat) \<and> (of_char c :: nat) \<le> 90)"
    using to_lower_no_upper by blast
  show ?thesis
  proof (cases "map_of label_table (to_lower e)")
    case (Some v)
    with lab show ?thesis by (simp add: js_property_def)
  next
    case None
    show ?thesis
    proof (cases "map_of object_prototype (to_lower e)")
      case None2: None
      then have "to_lower e \<noteq> ''constructor''" "to_lower e \<noteq> ''__proto__''"
        by (auto simp: object_prototype_def)
      with lab None None2 show ?thesis by (simp add: js_property_def)
    next
      case (Some v)
      from object_prototype_lower [OF Some low] lab None Some show ?thesis
        by (auto simp: js_property_def)
    qed
  qed
qed

theorem format_label_inherited_witness:
  "format_label ''notes.Constructor'' = ''function Object() { [native code] }'' \<and>
   format_label ''x.__PROTO__'' = ''[object Object]'' \<and> format_label ''scan.tiff'' = ''TIFF''"
  using format_label_inherited [of "''Constructor''" "''notes''"]
    format_label_inherited [of "''__PROTO__''" "''x''"] format_label_inherited [of "''tiff''" "''scan''"]
  by (simp add: label_table_def native_fn_def js_simps to_upper_def upper_char_def)

end
