(* ===== verification/Client_Events.thy ===== *)
theory Client_Events
  imports Client "HOL-Library.Multiset"
begin

text \<open>
  The page of \<^verbatim>\<open>src/public/app.js\<close> over time. The handlers of \<open>Client\<close> run to
  completion, but three kinds of work finish later, in an order the browser and the
  network choose: the dimension promise \<open>updateZone\<close> starts for each file (line 177),
  the join of a conversion batch (line 206), and the user's own events in between
  (moves of the quality slider, choices in the picker, drags and drops, clicks). The
  state \<open>page\<close> adds to the client record what is pending: the dimension tasks, each
  with the table it was created for (a generation counter: \<open>updateZone\<close> rebuilds the
  table), the batches in flight, each with the files and form values it captured, and
  the text of the quality label (\<open>qualityVal\<close>, lines 86--88).
  \<open>page_step\<close> applies one event; every event sequence is a possible run, and
  \<open>reachable\<close> is the set of pages some run produces.
\<close>

subsection \<open>State and events\<close>

record batch =
  b_files :: "file_entry list"
  b_fmt :: string
  b_quality :: string
  b_max_width :: string

text \<open>One pending \<open>getImageDimensions(f).then(...)\<close>: the table it belongs to, the row index
  \<open>i\<close> its closure captured, and the file it decodes.\<close>

record dims_task =
  t_gen :: nat
  t_index :: nat
  t_file :: file_entry

record page =
  ui :: client
  gen :: nat
  dims_tasks :: "dims_task list"
  in_flight :: "batch list"
  downloads :: "(bytes \<times> string) list"
  zone_dragover :: bool
  overlay_active :: bool
  quality_label :: string

datatype ui_event =
    Quality_input string
  | Pick "file_entry list"
  | Dragover_at bool bool
  | Dragleave_at bool bool
  | Drop_at bool bool "file_entry list"
  | Dims_ready nat
  | Click string string string
  | Settle nat "nat \<Rightarrow> fetch_result" "nat list"
  | Download_all

definition remove_nth :: "nat \<Rightarrow> 'a list \<Rightarrow> 'a list" where
  "remove_nth k xs = take k xs @ drop (Suc k) xs"

subsection \<open>The handlers on the page\<close>

text \<open>\<open>updateZone()\<close> as a whole: its synchronous part, a new table, and one dimension
  task per file (lines 159--181).\<close>

definition zone_tasks :: "nat \<Rightarrow> file_entry list \<Rightarrow> dims_task list" where
  "zone_tasks g fs = map (\<lambda>(i, f). \<lparr>t_gen = g, t_index = i, t_file = f\<rparr>) (enumerate 0 fs)"

definition zone_update :: "page \<Rightarrow> page" where
  "zone_update p =
     p\<lparr>ui := update_zone (ui p), gen := Suc (gen p),
       dims_tasks := dims_tasks p @ zone_tasks (Suc (gen p)) (files (ui p))\<rparr>"

text \<open>\<open>handleDropFiles(fileList)\<close> on the page (lines 21--29): the image files of the
  list become the selection, and \<open>updateZone\<close> runs.\<close>

definition drop_files :: "file_entry list \<Rightarrow> page \<Rightarrow> page" where
  "drop_files fl p =
     (let valid = filter (\<lambda>f. image_name_ok (fname f)) fl
      in if valid = [] then p else zone_update (p\<lparr>ui := (ui p)\<lparr>files := valid\<rparr>\<rparr>))"

text \<open>
  The drag events. An event whose target is in the zone (\<open>on_zone\<close>) runs the zone's
  listener (lines 91--100) and then, as it bubbles, the document's (lines 109--129).
  \<open>has_files\<close> says whether \<open>dataTransfer.types\<close> includes \<open>"Files"\<close>, and
  \<open>related_inside\<close> whether a \<open>dragleave\<close>'s \<open>relatedTarget\<close> is inside the body.
  \<open>zone_dragover\<close> is the zone's \<open>dragover\<close> class, \<open>overlay_active\<close> the drop
  overlay's \<open>active\<close> class.
\<close>

definition dragover_at :: "bool \<Rightarrow> bool \<Rightarrow> page \<Rightarrow> page" where
  "dragover_at on_zone has_files p =
     (let p1 = (if on_zone then p\<lparr>zone_dragover := True\<rparr> else p)
      in if has_files then p1\<lparr>zone_dragover := False, overlay_active := True\<rparr> else p1)"

definition dragleave_at :: "bool \<Rightarrow> bool \<Rightarrow> page \<Rightarrow> page" where
  "dragleave_at on_zone related_inside p =
     (let p1 = (if on_zone then p\<lparr>zone_dragover := False\<rparr> else p)
      in if related_inside then p1 else p1\<lparr>overlay_active := False\<rparr>)"

definition drop_at :: "bool \<Rightarrow> bool \<Rightarrow> file_entry list \<Rightarrow> page \<Rightarrow> page" where
  "drop_at on_zone has_files fl p =
     (let p1 = (if on_zone then drop_files fl (p\<lparr>zone_dragover := False\<rparr>) else p);
          p2 = p1\<lparr>overlay_active := False\<rparr>
      in if has_files then drop_files fl p2 else p2)"

text \<open>
  The continuation of a dimension task (lines 177--180). It writes
  \<open>sourceMeta[i].dims\<close> of the array the module variable holds now, which after a new
  selection is the new array; when that array has no entry \<open>i\<close> the assignment throws a
  \<open>TypeError\<close> and nothing is written. It then sets the text of the cell it captured,
  which is on screen only when the task belongs to the current table; \<open>textContent\<close>
  replaces the whole content of the cell.
\<close>

definition dims_resolve :: "(bytes \<Rightarrow> (nat \<times> nat) option) \<Rightarrow> dims_task \<Rightarrow> page \<Rightarrow> page" where
  "dims_resolve decode t p =
     (let c = ui p; i = t_index t; s = dims_text (decode (fdata (t_file t)))
      in if length (source_meta c) \<le> i then p
         else
           (let c1 = c\<lparr>source_meta := (source_meta c)[i := (source_meta c ! i)\<lparr>m_dims := s\<rparr>]\<rparr>
            in p\<lparr>ui := (if t_gen t = gen p
                         then c1\<lparr>rows := (rows c1)[i := (rows c1 ! i)\<lparr>dims_cell := Plain s\<rparr>]\<rparr>
                         else c1)\<rparr>))"

text \<open>A click on the convert button: a disabled button receives no click; the handler
  returns at once without files (line 192); otherwise the batch starts, with the values
  of the format select, the quality slider and the trimmed \<open>maxWidth\<close> input read at
  the click (lines 200--202).\<close>

definition click :: "string \<Rightarrow> string \<Rightarrow> string \<Rightarrow> page \<Rightarrow> page" where
  "click fmt q mw p =
     (if btn_disabled (ui p) \<or> files (ui p) = [] then p
      else p\<lparr>ui := convert_begin (ui p),
             in_flight := in_flight p @
               [\<lparr>b_files = files (ui p), b_fmt = fmt, b_quality = q, b_max_width = js_trim mw\<rparr>]\<rparr>)"

definition batch_outcome ::
  "(bytes \<Rightarrow> (nat \<times> nat) option) \<Rightarrow> batch \<Rightarrow> (nat \<Rightarrow> fetch_result) \<Rightarrow> nat list \<Rightarrow> string + conv_result list" where
  "batch_outcome decode b resp ord =
     promise_all (map (\<lambda>i. file_request decode (b_fmt b) (b_files b ! i) (resp i)) ord) []"

text \<open>The join of batch \<open>k\<close> settles: its requests returned \<open>resp\<close> and completed in the
  order \<open>ord\<close>, a permutation of its file indices. The rest of the handler runs on the page
  as it is now.\<close>

definition settle ::
  "(bytes \<Rightarrow> (nat \<times> nat) option) \<Rightarrow> nat \<Rightarrow> (nat \<Rightarrow> fetch_result) \<Rightarrow> nat list \<Rightarrow> page \<Rightarrow> page option" where
  "settle decode k resp ord p =
     (if k < length (in_flight p) \<and> mset ord = mset [0..<length (b_files (in_flight p ! k))]
      then
        (let b = in_flight p ! k;
             (c, dl) = convert_settle (b_fmt b) (batch_outcome decode b resp ord) (ui p)
         in Some (p\<lparr>ui := c, in_flight := remove_nth k (in_flight p),
                    downloads := downloads p @ map (\<lambda>(_, bl, n). (bl, n)) dl\<rparr>))
      else None)"

fun page_step :: "(bytes \<Rightarrow> (nat \<times> nat) option) \<Rightarrow> ui_event \<Rightarrow> page \<Rightarrow> page option" where
  "page_step decode (Quality_input v) p = Some (p\<lparr>quality_label := v\<rparr>)"
| "page_step decode (Pick fs) p = Some (zone_update (p\<lparr>ui := (ui p)\<lparr>files := fs\<rparr>\<rparr>))"
| "page_step decode (Dragover_at z hf) p = Some (dragover_at z hf p)"
| "page_step decode (Dragleave_at z ri) p = Some (dragleave_at z ri p)"
| "page_step decode (Drop_at z hf fl) p = Some (drop_at z hf fl p)"
| "page_step decode (Dims_ready k) p =
     (if k < length (dims_tasks p)
      then Some (dims_resolve decode (dims_tasks p ! k) (p\<lparr>dims_tasks := remove_nth k (dims_tasks p)\<rparr>))
      else None)"
| "page_step decode (Click fmt q mw) p = Some (click fmt q mw p)"
| "page_step decode (Settle k resp ord) p = settle decode k resp ord p"
| "page_step decode Download_all p =
     Some (p\<lparr>downloads := downloads p @ map (\<lambda>(_, bl, n). (bl, n)) (download_all (ui p))\<rparr>)"

fun run_events :: "(bytes \<Rightarrow> (nat \<times> nat) option) \<Rightarrow> ui_event list \<Rightarrow> page \<Rightarrow> page option" where
  "run_events decode [] p = Some p"
| "run_events decode (e # es) p =
     (case page_step decode e p of None \<Rightarrow> None | Some p' \<Rightarrow> run_events decode es p')"

text \<open>The page as loaded: nothing selected, the button disabled (its state in the page's
  markup, which is not under \<^verbatim>\<open>src/\<close>), nothing pending, and the quality label
  showing the specification's default quality 80 (also from the markup).\<close>

definition init_page :: page where
  "init_page =
     \<lparr>ui = empty_client, gen = 0, dims_tasks = [], in_flight = [], downloads = [],
      zone_dragover = False, overlay_active = False, quality_label = ''80''\<rparr>"

inductive reachable :: "(bytes \<Rightarrow> (nat \<times> nat) option) \<Rightarrow> page \<Rightarrow> bool" for decode where
  init: "reachable decode init_page"
| step: "reachable decode p \<Longrightarrow> page_step decode e p = Some p' \<Longrightarrow> reachable decode p'"

text \<open>
  The shape a page keeps: the table matches the selection, every dimension task of the
  current table points at the row of its own file, and the button is disabled only when
  there is nothing to convert or a batch is in flight, and reads "Conversion..." only
  while one is.
\<close>

definition page_wf :: "page \<Rightarrow> bool" where
  "page_wf p \<longleftrightarrow>
     table_wf (ui p) \<and>
     (\<forall>t \<in> set (dims_tasks p). t_gen t \<le> gen p \<and>
        (t_gen t = gen p \<longrightarrow> t_index t < length (files (ui p)) \<and> files (ui p) ! t_index t = t_file t)) \<and>
     (btn_disabled (ui p) \<longrightarrow> files (ui p) = [] \<or> in_flight p \<noteq> []) \<and>
     (btn_text (ui p) = conversion_label \<longrightarrow> in_flight p \<noteq> [])"


subsection \<open>The page once the user stops\<close>

text \<open>
  When no user event comes any more, the browser's event loop runs the pending
  continuations until none is left. \<open>drain\<close> runs them oldest first: the dimension
  tasks, then the batches in the order they were submitted, each batch with the replies
  and the completion order \<open>net\<close> gives it. A continuation that could not run would
  make the loop stop without a result (\<open>None\<close>); whether the loop always returns is a
  theorem below, not an assumption of the definition.
\<close>

partial_function (option) drain ::
  "(bytes \<Rightarrow> (nat \<times> nat) option) \<Rightarrow> (batch \<Rightarrow> (nat \<Rightarrow> fetch_result) \<times> nat list) \<Rightarrow> page \<Rightarrow> page option"
where
  "drain decode net p =
     (if dims_tasks p \<noteq> [] then Option.bind (page_step decode (Dims_ready 0) p) (drain decode net)
      else if in_flight p \<noteq> []
      then Option.bind (page_step decode (Settle 0 (fst (net (hd (in_flight p)))) (snd (net (hd (in_flight p))))) p)
             (drain decode net)
      else Some p)"

text \<open>A network that answers every request of a batch and reports a completion order that
  is a permutation of the batch's files.\<close>

definition net_ok :: "(batch \<Rightarrow> (nat \<Rightarrow> fetch_result) \<times> nat list) \<Rightarrow> batch list \<Rightarrow> bool" where
  "net_ok net bs \<longleftrightarrow> (\<forall>b \<in> set bs. mset (snd (net b)) = mset [0..<length (b_files b)])"

subsection \<open>Lemmas on the handlers\<close>

lemma update_zone_fields [simp]:
  "files (update_zone c) = files c"
  "btn_disabled (update_zone c) \<longleftrightarrow> files c = []"
  "btn_text (update_zone c) = btn_text c"
  by (simp_all add: update_zone_def Let_def)

lemma convert_begin_frame [simp]:
  "files (convert_begin c) = files c" "rows (convert_begin c) = rows c"
  "source_meta (convert_begin c) = source_meta c"
  by (simp_all add: convert_begin_def)

lemma convert_settle_frame:
  assumes "convert_settle fmt out c = (c', dl)"
  shows "files c' = files c \<and> source_meta c' = source_meta c \<and> length (rows c') = length (rows c) \<and>
         \<not> btn_disabled c' \<and> btn_text c' = ''Convertir''"
  using assms
  by (auto simp: convert_settle_def convert_fail_def convert_finally_def Let_def
      dest!: apply_results_frame split: sum.splits prod.splits option.splits)

lemma conversion_label_not_idle [simp]:
  "conversion_label \<noteq> ''Convertir''" "''Convertir'' \<noteq> conversion_label"
  by (simp_all add: conversion_label_def ellipsis_def)

lemma batch_outcome_all_ok:
  assumes "\<forall>i \<in> set ord. file_request decode (b_fmt b) (b_files b ! i) (resp i) = Inr (res i)"
  shows "batch_outcome decode b resp ord = Inr (map res ord)"
proof -
  from assms have "map (\<lambda>i. file_request decode (b_fmt b) (b_files b ! i) (resp i)) ord = map Inr (map res ord)"
    by simp
  then show ?thesis
    unfolding batch_outcome_def by (simp only: promise_all_Inr append_Nil)
qed

lemma quality_label_step:
  assumes "page_step decode e p = Some p'"
  shows "quality_label p' = (case e of Quality_input v \<Rightarrow> v | _ \<Rightarrow> quality_label p)"
  using assms
  by (cases e) (auto simp: zone_update_def dragover_at_def dragleave_at_def drop_at_def drop_files_def
      dims_resolve_def click_def settle_def Let_def split: if_splits prod.splits)

lemma set_remove_nth: "set (remove_nth k xs) \<subseteq> set xs"
  by (auto simp: remove_nth_def dest: in_set_takeD in_set_dropD)

lemma zone_tasks_set:
  "t \<in> set (zone_tasks g fs) \<Longrightarrow> t_gen t = g \<and> t_index t < length fs \<and> fs ! t_index t = t_file t"
  by (auto simp: zone_tasks_def in_set_enumerate_eq)

lemma dims_resolve_frame:
  "files (ui (dims_resolve decode t p)) = files (ui p) \<and>
   length (rows (ui (dims_resolve decode t p))) = length (rows (ui p)) \<and>
   length (source_meta (ui (dims_resolve decode t p))) = length (source_meta (ui p)) \<and>
   btn_disabled (ui (dims_resolve decode t p)) = btn_disabled (ui p) \<and>
   btn_text (ui (dims_resolve decode t p)) = btn_text (ui p) \<and>
   gen (dims_resolve decode t p) = gen p \<and> dims_tasks (dims_resolve decode t p) = dims_tasks p \<and>
   in_flight (dims_resolve decode t p) = in_flight p"
  by (simp add: dims_resolve_def Let_def)

lemma zone_update_wf:
  assumes "page_wf p"
  shows "page_wf (zone_update (p\<lparr>ui := (ui p)\<lparr>files := fs\<rparr>\<rparr>))"
proof -
  have old: "t_gen t < Suc (gen p)" if "t \<in> set (dims_tasks p)" for t
    using assms that by (auto simp: page_wf_def)
  show ?thesis
    using assms update_zone_wf [of "(ui p)\<lparr>files := fs\<rparr>"]
    by (auto simp: page_wf_def zone_update_def dest: old zone_tasks_set)
qed

lemma page_wf_drag [simp]:
  "page_wf (p\<lparr>zone_dragover := b\<rparr>) \<longleftrightarrow> page_wf p"
  "page_wf (p\<lparr>overlay_active := b\<rparr>) \<longleftrightarrow> page_wf p"
  by (simp_all add: page_wf_def)

lemma page_wf_dragover: "page_wf (dragover_at z hf p) \<longleftrightarrow> page_wf p"
  by (cases z; cases hf) (simp_all add: dragover_at_def page_wf_def)

lemma page_wf_dragleave: "page_wf (dragleave_at z ri p) \<longleftrightarrow> page_wf p"
  by (cases z; cases ri) (simp_all add: dragleave_at_def page_wf_def)

lemma drop_files_wf: "page_wf p \<Longrightarrow> page_wf (drop_files fl p)"
  by (simp add: drop_files_def Let_def zone_update_wf)

lemma page_wf_drop: "page_wf p \<Longrightarrow> page_wf (drop_at z hf fl p)"
  by (cases z; cases hf) (simp_all add: drop_at_def drop_files_wf)

lemma dims_step_wf:
  assumes "page_wf p" and "k < length (dims_tasks p)"
  shows "page_wf (dims_resolve decode (dims_tasks p ! k) (p\<lparr>dims_tasks := remove_nth k (dims_tasks p)\<rparr>))"
  using assms set_remove_nth [of k "dims_tasks p"] dims_resolve_frame
    [of decode "dims_tasks p ! k" "p\<lparr>dims_tasks := remove_nth k (dims_tasks p)\<rparr>"]
  by (simp add: page_wf_def table_wf_def) blast

lemma click_wf: "page_wf p \<Longrightarrow> page_wf (click fmt q mw p)"
  by (auto simp: page_wf_def click_def convert_begin_def table_wf_def)

lemma settle_Some:
  assumes "settle decode k resp ord p = Some p'"
  obtains c dl where
    "convert_settle (b_fmt (in_flight p ! k)) (batch_outcome decode (in_flight p ! k) resp ord) (ui p) = (c, dl)"
    "p' = p\<lparr>ui := c, in_flight := remove_nth k (in_flight p),
             downloads := downloads p @ map (\<lambda>(_, bl, n). (bl, n)) dl\<rparr>"
proof -
  obtain c dl where cs: "convert_settle (b_fmt (in_flight p ! k))
      (batch_outcome decode (in_flight p ! k) resp ord) (ui p) = (c, dl)"
    by fastforce
  with assms show ?thesis
    using that by (simp add: settle_def split: if_splits)
qed

lemma settle_wf:
  assumes "page_wf p" and "settle decode k resp ord p = Some p'"
  shows "page_wf p'"
proof -
  from assms(2) obtain c dl where
    cs: "convert_settle (b_fmt (in_flight p ! k)) (batch_outcome decode (in_flight p ! k) resp ord) (ui p) = (c, dl)"
    and p': "p' = p\<lparr>ui := c, in_flight := remove_nth k (in_flight p),
                 downloads := downloads p @ map (\<lambda>(_, bl, n). (bl, n)) dl\<rparr>"
    by (rule settle_Some)
  from convert_settle_frame [OF cs] assms(1) show ?thesis
    unfolding p' by (simp add: page_wf_def table_wf_def)
qed

lemma run_events_append:
  "run_events decode (es1 @ es2) p =
     (case run_events decode es1 p of None \<Rightarrow> None | Some p' \<Rightarrow> run_events decode es2 p')"
  by (induction es1 arbitrary: p) (auto split: option.split)

lemma run_events_reachable:
  "run_events decode es p = Some p' \<Longrightarrow> reachable decode p \<Longrightarrow> reachable decode p'"
proof (induction es arbitrary: p)
  case Nil
  then show ?case by simp
next
  case (Cons e es)
  then obtain p1 where "page_step decode e p = Some p1" "run_events decode es p1 = Some p'"
    by (auto split: option.splits)
  from Cons.prems(2) \<open>page_step decode e p = Some p1\<close> have "reachable decode p1"
    by (rule reachable.step)
  with \<open>run_events decode es p1 = Some p'\<close> show ?case
    by (rule Cons.IH)
qed

lemma convert_settle_rows:
  assumes "length rs \<le> length (rows c)"
  shows "rows (fst (convert_settle fmt (Inr rs) c)) = rows_after (format_target_label fmt) 0 rs c"
  using assms
  by (simp add: convert_settle_def convert_finally_def Let_def apply_results_ok rows_after_def meta_at_def)

text \<open>
  C35. Every reachable page keeps its shape: one row and one \<open>sourceMeta\<close> entry per
  selected file, every dimension task of the current table aimed at its own file's row,
  a disabled button only when nothing is selected or a batch is in flight (so the page
  never stays stuck after the batches settle), and the label "Conversion..." only while a
  batch is in flight.
\<close>

theorem page_invariant: "reachable decode p \<Longrightarrow> page_wf p"
proof (induction rule: reachable.induct)
  case init
  show ?case
    by (simp add: page_wf_def init_page_def empty_client_def table_wf_def)
next
  case (step p e p')
  show ?case
  proof (cases e)
    case (Quality_input v)
    with step show ?thesis by (auto simp: page_wf_def)
  next
    case (Pick fs)
    with step show ?thesis by (auto intro: zone_update_wf)
  next
    case (Dragover_at z hf)
    with step show ?thesis by (auto simp: page_wf_dragover)
  next
    case (Dragleave_at z ri)
    with step show ?thesis by (auto simp: page_wf_dragleave)
  next
    case (Drop_at z hf fl)
    with step show ?thesis by (auto simp: page_wf_drop)
  next
    case (Dims_ready k)
    with step show ?thesis by (auto intro: dims_step_wf split: if_splits)
  next
    case (Click fmt q mw)
    with step show ?thesis by (auto intro: click_wf)
  next
    case (Settle k resp ord)
    with step show ?thesis by (auto intro: settle_wf)
  next
    case Download_all
    with step show ?thesis by (auto simp: page_wf_def)
  qed
qed

theorem page_invariant_witness:
  "\<exists>p. run_events (\<lambda>_. None) [Pick two_files, Click ''webp'' ''80'' [], Dims_ready 1] init_page = Some p \<and>
       page_wf p"
proof -
  obtain p where run: "run_events (\<lambda>_. None) [Pick two_files, Click ''webp'' ''80'' [], Dims_ready 1] init_page = Some p"
    by (simp add: init_page_def zone_update_def zone_tasks_def click_def two_files_def)
  have "reachable (\<lambda>_. None) p"
    by (rule run_events_reachable [OF run reachable.init])
  then have "page_wf p" by (rule page_invariant)
  with run show ?thesis by blast
qed


text \<open>
  C36. A new selection re-enables the convert button even while a batch is in flight
  (\<open>updateZone\<close> sets \<open>convertBtn.disabled = false\<close>), so a second click starts a
  second batch beside the first. The specification says the button state guards against
  double submission during an in-flight batch.
\<close>

theorem double_submission:
  assumes "fs \<noteq> []"
  shows "\<exists>p'. run_events decode [Pick fs, Click fmt q mw] p = Some p' \<and>
              in_flight p' = in_flight p @ [\<lparr>b_files = fs, b_fmt = fmt, b_quality = q, b_max_width = js_trim mw\<rparr>]"
  using assms by (simp add: zone_update_def click_def)

theorem double_submission_witness:
  "\<exists>p'. run_events (\<lambda>_. None)
          [Pick two_files, Click ''webp'' ''80'' [], Pick [\<lparr>fname = ''c.png'', fdata = [3]\<rparr>], Click ''png'' ''80'' []]
          init_page = Some p' \<and> length (in_flight p') = 2"
proof -
  obtain p where run: "run_events (\<lambda>_. None) [Pick two_files, Click ''webp'' ''80'' []] init_page = Some p"
    and fl: "in_flight p = [\<lparr>b_files = two_files, b_fmt = ''webp'', b_quality = ''80'', b_max_width = []\<rparr>]"
    by (simp add: init_page_def zone_update_def click_def two_files_def)
  have "[\<lparr>fname = ''c.png'', fdata = [3 :: 8 word]\<rparr>] \<noteq> []" by simp
  from double_submission [OF this, where decode = "\<lambda>_. None" and fmt = "''png''" and q = "''80''"
      and mw = "[]" and p = p] run fl show ?thesis
    by (auto simp: run_events_append)
qed


text \<open>
  C37. A dimension task of an earlier selection that resolves after a new selection writes
  its file's dimensions into entry \<open>i\<close> of the new \<open>sourceMeta\<close>, while the row on
  screen keeps its text: the closure reads the module variable \<open>sourceMeta\<close>, which
  now holds the new selection's array. A later conversion then shows the old file's
  dimensions as the source dimensions of the new one.
\<close>

theorem stale_dims_write:
  assumes "k < length (dims_tasks p)" and "t_gen (dims_tasks p ! k) < gen p"
    and "t_index (dims_tasks p ! k) < length (source_meta (ui p))"
  shows "\<exists>p'. page_step decode (Dims_ready k) p = Some p' \<and> rows (ui p') = rows (ui p) \<and>
           source_meta (ui p') = (source_meta (ui p))[t_index (dims_tasks p ! k) :=
             (source_meta (ui p) ! t_index (dims_tasks p ! k))
               \<lparr>m_dims := dims_text (decode (fdata (t_file (dims_tasks p ! k))))\<rparr>]"
  using assms by (simp add: dims_resolve_def Let_def)

theorem stale_dims_write_witness:
  "\<exists>p'. run_events (\<lambda>b. Some (length b, length b))
          [Pick [\<lparr>fname = ''a.png'', fdata = [1]\<rparr>], Pick [\<lparr>fname = ''b.png'', fdata = [2, 2]\<rparr>], Dims_ready 0]
          init_page = Some p' \<and>
        files (ui p') = [\<lparr>fname = ''b.png'', fdata = [2, 2]\<rparr>] \<and>
        m_dims (source_meta (ui p') ! 0) = dims_text (Some (1, 1))"
proof -
  let ?d = "\<lambda>b :: bytes. Some (length b, length b)"
  obtain p where run: "run_events ?d [Pick [\<lparr>fname = ''a.png'', fdata = [1]\<rparr>],
      Pick [\<lparr>fname = ''b.png'', fdata = [2, 2]\<rparr>]] init_page = Some p"
    and p: "dims_tasks p = [\<lparr>t_gen = 1, t_index = 0, t_file = \<lparr>fname = ''a.png'', fdata = [1]\<rparr>\<rparr>,
                          \<lparr>t_gen = 2, t_index = 0, t_file = \<lparr>fname = ''b.png'', fdata = [2, 2]\<rparr>\<rparr>]"
      "gen p = 2" "files (ui p) = [\<lparr>fname = ''b.png'', fdata = [2, 2]\<rparr>]"
      "length (source_meta (ui p)) = 1"
    by (simp add: init_page_def zone_update_def zone_tasks_def update_zone_def Let_def)
  have "0 < length (dims_tasks p)" "t_gen (dims_tasks p ! 0) < gen p"
    "t_index (dims_tasks p ! 0) < length (source_meta (ui p))"
    by (simp_all add: p)
  from stale_dims_write [OF this, of ?d] obtain p' where
    "page_step ?d (Dims_ready 0) p = Some p'"
    "source_meta (ui p') = (source_meta (ui p))[0 := (source_meta (ui p) ! 0)\<lparr>m_dims := dims_text (Some (1, 1))\<rparr>]"
    by (auto simp: p)
  moreover have "files (ui p') = files (ui p)"
    using calculation(1) dims_resolve_frame by (auto split: if_splits)
  ultimately show ?thesis
    using run p by (auto simp: run_events_append)
qed


text \<open>
  C38. A dimension task of the current table that resolves after the results were
  applied replaces the whole cell with the source dimensions alone (\<open>textContent\<close>
  overwrites the \<open>source \<rightarrow> converted\<close> diff), so the converted dimensions
  disappear from the table. The specification has the diff appended next to the
  original values on completion.
\<close>

theorem dims_overwrites_cell:
  assumes "k < length (dims_tasks p)" and "t_gen (dims_tasks p ! k) = gen p"
    and "t_index (dims_tasks p ! k) < length (source_meta (ui p))"
  shows "\<exists>p'. page_step decode (Dims_ready k) p = Some p' \<and>
           rows (ui p') = (rows (ui p))[t_index (dims_tasks p ! k) :=
             (rows (ui p) ! t_index (dims_tasks p ! k))
               \<lparr>dims_cell := Plain (dims_text (decode (fdata (t_file (dims_tasks p ! k)))))\<rparr>]"
  using assms by (simp add: dims_resolve_def Let_def)

theorem dims_overwrites_cell_witness:
  "\<exists>p p'. run_events (\<lambda>b. Some (length b, length b))
            [Pick [\<lparr>fname = ''a.png'', fdata = [1]\<rparr>], Click ''webp'' ''80'' [],
             Settle 0 (\<lambda>_. Got (Attachment ''image/webp'' [] [9, 9])) [0]] init_page = Some p \<and>
          dims_cell (rows (ui p) ! 0) = Diff ellipsis (dims_text (Some (2, 2))) \<and>
          page_step (\<lambda>b. Some (length b, length b)) (Dims_ready 0) p = Some p' \<and>
          dims_cell (rows (ui p') ! 0) = Plain (dims_text (Some (1, 1)))"
proof -
  let ?d = "\<lambda>b :: bytes. Some (length b, length b)"
  obtain p where run: "run_events ?d [Pick [\<lparr>fname = ''a.png'', fdata = [1]\<rparr>], Click ''webp'' ''80'' [],
             Settle 0 (\<lambda>_. Got (Attachment ''image/webp'' [] [9, 9])) [0]] init_page = Some p"
    and p: "dims_tasks p = [\<lparr>t_gen = 1, t_index = 0, t_file = \<lparr>fname = ''a.png'', fdata = [1]\<rparr>\<rparr>]"
      "gen p = 1" "length (source_meta (ui p)) = 1" "length (rows (ui p)) = 1"
      "dims_cell (rows (ui p) ! 0) = Diff ellipsis (dims_text (Some (2, 2)))"
    by (simp add: init_page_def zone_update_def zone_tasks_def update_zone_def Let_def click_def
        settle_def batch_outcome_def file_request_def make_result_def convert_settle_def
        convert_finally_def apply_result_def result_row_def meta_at_def initial_meta_def
        initial_row_def remove_nth_def numeral_2_eq_2)
  have "0 < length (dims_tasks p)" "t_gen (dims_tasks p ! 0) = gen p"
    "t_index (dims_tasks p ! 0) < length (source_meta (ui p))"
    by (simp_all add: p)
  from dims_overwrites_cell [OF this, of ?d] p show ?thesis
    using run by auto
qed

text \<open>
  C40. A batch that settles after a new selection writes its results into the rows of the
  new table: row \<open>j\<close> shows the new selection's source data beside the result, and the
  download, of a file of the earlier batch. The handler reads the rows and
  \<open>sourceMeta\<close> when the join settles, not when it was clicked.
\<close>

theorem stale_batch_rows:
  assumes "k < length (in_flight p)"
    and "mset ord = mset [0..<length (b_files (in_flight p ! k))]"
    and "\<forall>i \<in> set ord. file_request decode (b_fmt (in_flight p ! k)) (b_files (in_flight p ! k) ! i) (resp i)
           = Inr (res i)"
    and "length (b_files (in_flight p ! k)) \<le> length (rows (ui p))"
    and "j < length (b_files (in_flight p ! k))"
  shows "\<exists>p'. page_step decode (Settle k resp ord) p = Some p' \<and>
           rows (ui p') ! j =
             result_row (format_target_label (b_fmt (in_flight p ! k))) (meta_at (ui p) j) (res (ord ! j))"
proof -
  let ?b = "in_flight p ! k"
  have len: "length ord = length (b_files ?b)"
    using arg_cong [OF assms(2), of size] by simp
  have m: "map (\<lambda>i. file_request decode (b_fmt ?b) (b_files ?b ! i) (resp i)) ord = map Inr (map res ord)"
    using assms(3) by simp
  have out: "batch_outcome decode ?b resp ord = Inr (map res ord)"
    unfolding batch_outcome_def m promise_all_Inr by simp
  have rows: "rows (fst (convert_settle (b_fmt ?b) (Inr (map res ord)) (ui p))) =
      rows_after (format_target_label (b_fmt ?b)) 0 (map res ord) (ui p)"
    using assms(4) len by (intro convert_settle_rows) simp
  have "j < length (rows (ui p))" using assms(4,5) by simp
  with assms(1,2,5) out rows len show ?thesis
    by (auto simp: settle_def rows_after_nth split: prod.split)
qed

theorem stale_batch_rows_witness:
  "\<exists>p'. run_events (\<lambda>_. None)
          [Pick two_files, Click ''webp'' ''80'' [],
           Pick [\<lparr>fname = ''c.png'', fdata = [3]\<rparr>, \<lparr>fname = ''d.png'', fdata = [4]\<rparr>],
           Settle 0 (\<lambda>i. Got (Attachment ''image/webp'' [] (sample_reply i))) [0, 1]]
          init_page = Some p' \<and>
        files (ui p') = [\<lparr>fname = ''c.png'', fdata = [3]\<rparr>, \<lparr>fname = ''d.png'', fdata = [4]\<rparr>] \<and>
        download_btn (rows (ui p') ! 0) = Some ([7], ''a.webp'')"
proof -
  let ?cd = "[\<lparr>fname = ''c.png'', fdata = [3 :: 8 word]\<rparr>, \<lparr>fname = ''d.png'', fdata = [4]\<rparr>]"
  let ?resp = "\<lambda>i. Got (Attachment ''image/webp'' [] (sample_reply i))"
  let ?res = "\<lambda>i. make_result (\<lambda>_. None) ''webp'' (two_files ! i) (sample_reply i)"
  obtain p where run: "run_events (\<lambda>_. None) [Pick two_files, Click ''webp'' ''80'' [], Pick ?cd] init_page = Some p"
    and p: "in_flight p = [\<lparr>b_files = two_files, b_fmt = ''webp'', b_quality = ''80'', b_max_width = []\<rparr>]" "length (rows (ui p)) = 2"
      "files (ui p) = ?cd"
    by (simp add: init_page_def zone_update_def click_def two_files_def update_zone_def Let_def)
  have h: "0 < length (in_flight p)" "mset [0, 1] = mset [0..<length (b_files (in_flight p ! 0))]"
    "\<forall>i \<in> set [0, 1]. file_request (\<lambda>_. None) (b_fmt (in_flight p ! 0)) (b_files (in_flight p ! 0) ! i) (?resp i)
       = Inr (?res i)"
    "length (b_files (in_flight p ! 0)) \<le> length (rows (ui p))"
    "0 < length (b_files (in_flight p ! 0))"
    by (simp_all add: p two_files_def file_request_def)
  from stale_batch_rows [OF h] obtain p' where
    st: "page_step (\<lambda>_. None) (Settle 0 ?resp [0, 1]) p = Some p'"
    and r: "rows (ui p') ! 0 = result_row (format_target_label ''webp'') (meta_at (ui p) 0) (?res 0)"
    by (auto simp: p)
  from st obtain c dl where
    "convert_settle (b_fmt (in_flight p ! 0)) (batch_outcome (\<lambda>_. None) (in_flight p ! 0) ?resp [0, 1]) (ui p)
       = (c, dl)" and "ui p' = c"
    by (auto elim: settle_Some)
  then have "files (ui p') = files (ui p)"
    using convert_settle_frame by blast
  with run st r p show ?thesis
    by (auto simp: run_events_append result_row_def make_result_def client_out_name_def
        strip_last_ext_def two_files_def sample_reply_def)
qed


subsection \<open>Draining the pending work\<close>

lemma length_remove_nth [simp]: "k < length xs \<Longrightarrow> length (remove_nth k xs) = length xs - 1"
  by (simp add: remove_nth_def)

lemma net_ok_remove_nth: "net_ok net bs \<Longrightarrow> net_ok net (remove_nth k bs)"
  using set_remove_nth [of k bs] by (auto simp: net_ok_def)

lemma dims_step_Some:
  assumes "dims_tasks p \<noteq> []"
  shows "\<exists>p1. page_step decode (Dims_ready 0) p = Some p1 \<and>
           length (dims_tasks p1) = length (dims_tasks p) - 1 \<and> in_flight p1 = in_flight p \<and>
           (page_wf p \<longrightarrow> page_wf p1)"
  using assms dims_step_wf [of p 0 decode]
    dims_resolve_frame [of decode "dims_tasks p ! 0" "p\<lparr>dims_tasks := remove_nth 0 (dims_tasks p)\<rparr>"]
  by simp

lemma settle_step_Some:
  assumes "in_flight p \<noteq> []" and "net_ok net (in_flight p)"
  shows "\<exists>p1. page_step decode (Settle 0 (fst (net (hd (in_flight p)))) (snd (net (hd (in_flight p))))) p = Some p1 \<and>
           dims_tasks p1 = dims_tasks p \<and> in_flight p1 = remove_nth 0 (in_flight p) \<and>
           (page_wf p \<longrightarrow> page_wf p1)"
proof -
  let ?b = "hd (in_flight p)"
  have b: "in_flight p ! 0 = ?b" using assms(1) by (simp add: hd_conv_nth)
  have perm: "mset (snd (net ?b)) = mset [0..<length (b_files ?b)]"
    using assms by (simp add: net_ok_def)
  obtain c dl where cs: "convert_settle (b_fmt ?b) (batch_outcome decode ?b (fst (net ?b)) (snd (net ?b))) (ui p)
      = (c, dl)" by fastforce
  let ?p1 = "p\<lparr>ui := c, in_flight := remove_nth 0 (in_flight p),
                downloads := downloads p @ map (\<lambda>(_, bl, n). (bl, n)) dl\<rparr>"
  have st: "settle decode 0 (fst (net ?b)) (snd (net ?b)) p = Some ?p1"
    using assms(1) perm cs b by (simp add: settle_def)
  then have "page_wf p \<longrightarrow> page_wf ?p1"
    using settle_wf by blast
  with st show ?thesis by simp
qed

text \<open>The pending work shrinks at each step of \<open>drain\<close>: induction on its size.\<close>

lemma drain_complete:
  assumes "net_ok net (in_flight p)"
  shows "\<exists>p'. drain decode net p = Some p' \<and> dims_tasks p' = [] \<and> in_flight p' = [] \<and>
              (page_wf p \<longrightarrow> page_wf p')"
  using assms
proof (induction "length (dims_tasks p) + length (in_flight p)" arbitrary: p rule: less_induct)
  case less
  show ?case
  proof (cases "dims_tasks p \<noteq> []")
    case True
    then obtain p1 where p1: "page_step decode (Dims_ready 0) p = Some p1"
      "length (dims_tasks p1) = length (dims_tasks p) - 1" "in_flight p1 = in_flight p"
      "page_wf p \<longrightarrow> page_wf p1"
      using dims_step_Some by blast
    have "length (dims_tasks p1) + length (in_flight p1) < length (dims_tasks p) + length (in_flight p)"
      using True p1(2,3) by simp
    with less.prems p1(3) obtain p' where "drain decode net p1 = Some p'" "dims_tasks p' = []"
      "in_flight p' = []" "page_wf p1 \<longrightarrow> page_wf p'"
      using less.hyps by fastforce
    with True p1 show ?thesis
      by (subst drain.simps) auto
  next
    case False
    show ?thesis
    proof (cases "in_flight p \<noteq> []")
      case True
      then obtain p1 where p1:
        "page_step decode (Settle 0 (fst (net (hd (in_flight p)))) (snd (net (hd (in_flight p))))) p = Some p1"
        "dims_tasks p1 = dims_tasks p" "in_flight p1 = remove_nth 0 (in_flight p)"
        "page_wf p \<longrightarrow> page_wf p1"
        using settle_step_Some less.prems by blast
      have "length (dims_tasks p1) + length (in_flight p1) < length (dims_tasks p) + length (in_flight p)"
        using True p1(2,3) by simp
      moreover have "net_ok net (in_flight p1)"
        using less.prems p1(3) by (simp add: net_ok_remove_nth)
      ultimately obtain p' where "drain decode net p1 = Some p'" "dims_tasks p' = []"
        "in_flight p' = []" "page_wf p1 \<longrightarrow> page_wf p'"
        using less.hyps by blast
      with False True p1 show ?thesis
        by (subst drain.simps) auto
    next
      case False2: False
      with False show ?thesis
        by (subst drain.simps) simp
    qed
  qed
qed


text \<open>
  C13. Liveness of the page: from every page in its invariant, once the pending work has
  run, the page is ready again: the button is enabled whenever files are selected, it no
  longer reads "Conversion...", and the table still matches the selection. No interleaving
  of selections, drops and batches leaves the button stuck.
\<close>

theorem drain_liveness:
  assumes "page_wf p" and "net_ok net (in_flight p)"
  shows "\<exists>p'. drain decode net p = Some p' \<and> dims_tasks p' = [] \<and> in_flight p' = [] \<and>
              (files (ui p') \<noteq> [] \<longrightarrow> \<not> btn_disabled (ui p')) \<and>
              btn_text (ui p') \<noteq> conversion_label \<and> table_wf (ui p')"
proof -
  obtain p' where "drain decode net p = Some p'" "dims_tasks p' = []" "in_flight p' = []" "page_wf p'"
    using drain_complete [OF assms(2), of decode] assms(1) by blast
  then show ?thesis
    by (auto simp: page_wf_def)
qed

theorem drain_liveness_witness:
  "\<exists>p p'. run_events (\<lambda>_. None) [Pick two_files, Click ''webp'' ''80'' [], Pick [\<lparr>fname = ''c.png'', fdata = [3]\<rparr>],
             Click ''png'' ''80'' [], Pick []] init_page = Some p \<and> btn_disabled (ui p) \<and> in_flight p \<noteq> [] \<and>
          drain (\<lambda>_. None) (\<lambda>b. (\<lambda>_. Fetch_failed ''offline'', [0..<length (b_files b)])) p = Some p' \<and>
          in_flight p' = [] \<and> btn_text (ui p') \<noteq> conversion_label"
proof -
  let ?net = "\<lambda>b. (\<lambda>_ :: nat. Fetch_failed ''offline'', [0..<length (b_files b)])"
  obtain p where run: "run_events (\<lambda>_. None) [Pick two_files, Click ''webp'' ''80'' [], Pick [\<lparr>fname = ''c.png'', fdata = [3]\<rparr>],
             Click ''png'' ''80'' [], Pick []] init_page = Some p"
    and st: "btn_disabled (ui p)" "in_flight p \<noteq> []"
    and wf: "page_wf p" and ok: "net_ok ?net (in_flight p)"
    by (simp add: init_page_def zone_update_def zone_tasks_def click_def two_files_def update_zone_def Let_def
        page_wf_def table_wf_def net_ok_def convert_begin_def)
  from drain_liveness [OF wf ok, of "\<lambda>_. None"] run st show ?thesis
    by blast
qed


text \<open>
  C18. Drag events bubble from the zone to the document, and the two listeners undo or
  repeat each other's work. A \<open>dragover\<close> carrying files, on the zone or elsewhere,
  always ends with the zone's highlight off and the overlay on: the document's listener
  removes the \<open>dragover\<close> class the zone's listener has just added, so the highlight of
  lines 91--94 never shows for files. A drop of image files on the zone is handled by both
  listeners: \<open>updateZone\<close> runs twice, the first table and its dimension tasks are
  discarded at once (they belong to a generation that is already stale), and the overlay
  ends off.
\<close>

theorem drag_bubbling:
  assumes "filter (\<lambda>f. image_name_ok (fname f)) fl = valid" and "valid \<noteq> []"
  shows "\<not> zone_dragover (dragover_at z True p) \<and> overlay_active (dragover_at z True p) \<and>
         files (ui (drop_at True True fl p)) = valid \<and> gen (drop_at True True fl p) = gen p + 2 \<and>
         dims_tasks (drop_at True True fl p) =
           dims_tasks p @ zone_tasks (gen p + 1) valid @ zone_tasks (gen p + 2) valid \<and>
         \<not> overlay_active (drop_at True True fl p)"
  using assms by (simp add: dragover_at_def drop_at_def drop_files_def zone_update_def Let_def)

theorem drag_bubbling_witness:
  "gen (drop_at True True [\<lparr>fname = ''notes.txt'', fdata = [1]\<rparr>, \<lparr>fname = ''B.PNG'', fdata = [2]\<rparr>] init_page) = 2 \<and>
   files (ui (drop_at True True [\<lparr>fname = ''notes.txt'', fdata = [1]\<rparr>, \<lparr>fname = ''B.PNG'', fdata = [2]\<rparr>] init_page))
     = [\<lparr>fname = ''B.PNG'', fdata = [2]\<rparr>] \<and>
   \<not> zone_dragover (dragover_at True True init_page)"
proof -
  have "filter (\<lambda>f. image_name_ok (fname f)) [\<lparr>fname = ''notes.txt'', fdata = [1 :: 8 word]\<rparr>, \<lparr>fname = ''B.PNG'', fdata = [2]\<rparr>]
      = [\<lparr>fname = ''B.PNG'', fdata = [2]\<rparr>]"
    by (simp add: image_name_ok_def ends_with_def js_simps)
  from drag_bubbling [OF this, of True init_page] show ?thesis
    by (simp add: init_page_def)
qed

end
