(* ===== verification/App.thy ===== *)
theory App
  imports Server
begin

text \<open>
  The Express application of \<^verbatim>\<open>src/server.js\<close> as a whole (lines 9--26, 124--138): the
  stack of layers a request passes through, in the order the code installs them, with
  the development proxy of \<^verbatim>\<open>src/bs-config.docker.js\<close> that fronts it.

  The layers are \<open>express.json()\<close> (line 23), \<open>express.static(public)\<close> (line 24),
  the route \<open>POST /api/convert\<close> with multer and the handler (line 26), and the error
  handler (line 124). Express passes a request down the stack: a layer answers, calls
  \<open>next()\<close>, or calls \<open>next(err)\<close>; once there is an error only error-handling layers
  run, and before that only the others. A request nobody answers gets Express's default
  404 page. The behaviour of the library layers is taken from their documentation
  (body-parser, serve-static, Express routing): the JSON parser proper is an interface
  \<open>json_parser\<close>, like the codec, and the static files are a map \<open>public\<close> from paths
  below \<^verbatim>\<open>public/\<close> to contents.
\<close>

subsection \<open>Requests and responses\<close>

datatype http_method = GET | HEAD | POST | Other_method string

text \<open>The body of a request, by its \<open>Content-Type\<close>: \<open>multipart/form-data\<close> (the parts
  multer reads), \<open>application/json\<close> (the text express.json reads), or anything else.\<close>

datatype http_body = Multipart "part list" | Json_body string | Other_body

record http_request =
  rq_method :: http_method
  rq_path :: string
  rq_body :: http_body

text \<open>What the application answers: a response of the API, a static file, Express's
  default 404 page \<open>Cannot METHOD path\<close>, or its default error page.\<close>

datatype app_response =
    Api response
  | Static_file string bytes
  | Not_found http_method string
  | Default_error string

text \<open>\<open>JSON.parse\<close> behind body-parser's strict check: a syntax error's message, or the
  fields of the object read.\<close>

type_synonym json_parser = "string \<Rightarrow> string + (string \<rightharpoonup> string)"

datatype layer = Json_layer | Static_layer | Convert_route | Error_layer

definition app_layers :: "layer list" where
  "app_layers = [Json_layer, Static_layer, Convert_route, Error_layer]"

subsection \<open>The layers\<close>

text \<open>
  \<open>express.json()\<close> with its defaults: only a JSON body is read; an empty one gives
  \<open>{}\<close>; one longer than 100 kB is a \<open>PayloadTooLargeError\<close> ("request entity too
  large"); otherwise a syntax error of the parser is passed on as an error. Either error
  carries status 400, which the error handler of line 124 does not read.
\<close>

definition json_limit :: nat where
  "json_limit = 100 * 1024"

definition json_layer :: "json_parser \<Rightarrow> http_body \<Rightarrow> js_error + (string \<rightharpoonup> string)" where
  "json_layer jp b =
     (case b of
        Json_body t \<Rightarrow>
          if t = [] then Inr Map.empty
          else if json_limit < length t then Inl (Plain_error ''request entity too large'')
          else (case jp t of Inl m \<Rightarrow> Inl (Plain_error m) | Inr flds \<Rightarrow> Inr flds)
      | _ \<Rightarrow> Inr Map.empty)"

text \<open>
  \<open>express.static\<close> (serve-static and send) for \<open>GET\<close> and \<open>HEAD\<close>: the path below the
  root, with \<open>index.html\<close> for a directory path. A path with a \<open>..\<close> segment is
  refused (403); with \<open>dotfiles\<close> unset, send's legacy rule ignores (404) a path whose
  last segment starts with a dot, and serves a dot directory further up. With the
  default \<open>fallthrough\<close>, a refused or ignored path, like a missing file, passes the
  request on. Percent
  decoding and the redirect of a directory path without its final slash are not modelled.
\<close>

definition static_path :: "string \<Rightarrow> string option" where
  "static_path p =
     (let segs = tl (split_on (CHR ''/'') p) in
      if p = [] \<or> hd p \<noteq> CHR ''/'' then None
      else if list_ex (\<lambda>s. s = ''..'') segs \<or> (last segs \<noteq> [] \<and> hd (last segs) = CHR ''.'') then None
      else Some (tl p @ (if last p = CHR ''/'' then ''index.html'' else [])))"

text \<open>Express matches the route path \<open>"/api/convert"\<close> case-insensitively and with an
  optional final slash (its defaults).\<close>

definition route_matches :: "string \<Rightarrow> bool" where
  "route_matches p \<longleftrightarrow> to_lower p = ''/api/convert'' \<or> to_lower p = ''/api/convert/''"

text \<open>
  The stack, run from a layer on: \<open>body\<close> is \<open>req.body\<close> as the JSON layer left it,
  \<open>err\<close> the error passed with \<open>next(err)\<close>. multer reads only a multipart body;
  for any other body it calls \<open>next()\<close> at once and the handler runs without a file.
\<close>

fun run_layers ::
  "codec \<Rightarrow> string \<Rightarrow> json_parser \<Rightarrow> (string \<rightharpoonup> bytes) \<Rightarrow> layer list \<Rightarrow> http_request \<Rightarrow>
   (string \<rightharpoonup> string) \<Rightarrow> js_error option \<Rightarrow> fs \<Rightarrow> app_response \<times> fs" where
  "run_layers cd tmp jp public [] rq body err fs =
     (case err of
        None \<Rightarrow> (Not_found (rq_method rq) (rq_path rq), fs)
      | Some e \<Rightarrow> (Default_error (error_message e), fs))"
| "run_layers cd tmp jp public (Json_layer # ls) rq body err fs =
     (if err \<noteq> None then run_layers cd tmp jp public ls rq body err fs
      else (case json_layer jp (rq_body rq) of
              Inl e \<Rightarrow> run_layers cd tmp jp public ls rq body (Some e) fs
            | Inr b \<Rightarrow> run_layers cd tmp jp public ls rq b None fs))"
| "run_layers cd tmp jp public (Static_layer # ls) rq body err fs =
     (if err = None \<and> (rq_method rq = GET \<or> rq_method rq = HEAD)
      then (case static_path (rq_path rq) of
              Some f \<Rightarrow> (case public f of
                           Some b \<Rightarrow> (Static_file f b, fs)
                         | None \<Rightarrow> run_layers cd tmp jp public ls rq body err fs)
            | None \<Rightarrow> run_layers cd tmp jp public ls rq body err fs)
      else run_layers cd tmp jp public ls rq body err fs)"
| "run_layers cd tmp jp public (Convert_route # ls) rq body err fs =
     (if err = None \<and> rq_method rq = POST \<and> route_matches (rq_path rq)
      then (case rq_body rq of
              Multipart ps \<Rightarrow>
                (case upload_single ps Map.empty None of
                   Inl e \<Rightarrow> run_layers cd tmp jp public ls rq body (Some e) fs
                 | Inr req \<Rightarrow> (case convert_handler cd tmp req fs of (r, fs') \<Rightarrow> (Api r, fs')))
            | _ \<Rightarrow> (case convert_handler cd tmp \<lparr>req_file = None, req_body = body\<rparr> fs of
                     (r, fs') \<Rightarrow> (Api r, fs')))
      else run_layers cd tmp jp public ls rq body err fs)"
| "run_layers cd tmp jp public (Error_layer # ls) rq body err fs =
     (case err of
        Some e \<Rightarrow> (Api (error_handler e), fs)
      | None \<Rightarrow> run_layers cd tmp jp public ls rq body err fs)"

definition run_app ::
  "codec \<Rightarrow> string \<Rightarrow> json_parser \<Rightarrow> (string \<rightharpoonup> bytes) \<Rightarrow> http_request \<Rightarrow> fs \<Rightarrow> app_response \<times> fs" where
  "run_app cd tmp jp public rq fs = run_layers cd tmp jp public app_layers rq Map.empty None fs"

subsection \<open>Start-up and the development proxy\<close>

text \<open>\<open>process.env.PORT || 3008\<close> (line 10) and \<open>app.listen(PORT, "0.0.0.0")\<close>
  (line 136).\<close>

definition server_port :: "(string \<rightharpoonup> string) \<Rightarrow> string" where
  "server_port env = js_or_default (env ''PORT'') ''3008''"

definition listen_host :: string where
  "listen_host = ''0.0.0.0''"

text \<open>The browser-sync configuration of \<^verbatim>\<open>src/bs-config.docker.js\<close>: it serves on port
  3008, reloads on changes under \<^verbatim>\<open>public/\<close>, and forwards every request to
  \<open>localhost:3009\<close>.\<close>

record bs_config =
  bs_proxy :: string
  bs_files :: string
  bs_port :: nat
  bs_open :: bool
  bs_host :: string
  bs_polling :: bool
  bs_interval :: nat

definition docker_bs_config :: bs_config where
  "docker_bs_config =
     \<lparr>bs_proxy = ''http://localhost:3009'', bs_files = ''public/**'', bs_port = 3008, bs_open = False,
      bs_host = ''0.0.0.0'', bs_polling = True, bs_interval = 500\<rparr>"

definition proxy_target_port :: "bs_config \<Rightarrow> string" where
  "proxy_target_port cfg = rev (takeWhile (\<lambda>c. c \<noteq> CHR '':'') (rev (bs_proxy cfg)))"

subsection \<open>Well-formed responses\<close>

text \<open>
  The shape of every answer: an API error has status 400 or 500 and a non-empty message,
  an attachment one of the five image MIME types; a static file is the file at that path;
  Express's default error page never appears.
\<close>

definition image_mimes :: "string list" where
  "image_mimes = [''image/webp'', ''image/avif'', ''image/jpeg'', ''image/png'', ''image/x-icon'']"

definition response_ok :: "response \<Rightarrow> bool" where
  "response_ok r =
     (case r of
        Json_error st m \<Rightarrow> (st = 400 \<or> st = 500) \<and> m \<noteq> []
      | Attachment ct cd b \<Rightarrow> ct \<in> set image_mimes)"

definition app_response_ok :: "(string \<rightharpoonup> bytes) \<Rightarrow> app_response \<Rightarrow> bool" where
  "app_response_ok public r =
     (case r of
        Api a \<Rightarrow> response_ok a
      | Static_file f b \<Rightarrow> public f = Some b
      | Not_found _ _ \<Rightarrow> True
      | Default_error _ \<Rightarrow> False)"


subsection \<open>Lemmas\<close>

lemma response_ok_error_handler: "response_ok (error_handler e)"
proof (cases "error_handler e")
  case (Json_error c m)
  then show ?thesis
    using error_handler_messages [of e c m] by (simp add: response_ok_def)
next
  case (Attachment ct cd b)
  then show ?thesis
    by (auto simp: error_handler_def split: js_error.splits multer_code.splits)
qed

lemma response_ok_conversion_failed: "response_ok (conversion_failed m)"
  by (simp add: response_ok_def conversion_failed_def msg_conversion_def)

lemma mime_type_image: "mime_type fmt = Some m \<Longrightarrow> m \<in> set image_mimes"
  by (cases fmt) (auto simp: image_mimes_def)

lemma response_ok_convert_handler: "response_ok (fst (convert_handler cd tmp req fs))"
proof -
  have ico: "response_ok (fst (convert_ico cd tmp f mw name fs))" for f mw name
    by (auto simp: convert_ico_def image_mimes_def response_ok_def conversion_failed_def msg_conversion_def
        split: prod.split sum.split)
  have raster: "response_ok (convert_raster cd f fmt q mw name)" for f fmt q mw name
    by (auto simp: convert_raster_def response_ok_def conversion_failed_def msg_conversion_def
        dest: mime_type_image split: sum.split option.split)
  show ?thesis
    using ico raster
    by (auto simp: convert_handler_def response_ok_def msg_no_image_def msg_bad_format_def Let_def
        split: option.split)
qed

text \<open>The layers a request passes once an error is pending: only the error handler acts.\<close>

lemma run_layers_error:
  "run_layers cd tmp jp public [Static_layer, Convert_route, Error_layer] rq body (Some e) fs =
     (Api (error_handler e), fs)"
  by simp

lemma app_serves_index:
  "rq_method rq = GET \<Longrightarrow> rq_path rq = ''/'' \<Longrightarrow> rq_body rq = Other_body \<Longrightarrow>
   public ''index.html'' = Some page \<Longrightarrow> fst (run_app cd tmp jp public rq fs) = Static_file ''index.html'' page"
  by (simp add: run_app_def app_layers_def json_layer_def static_path_def)

lemma dev_proxy_port:
  "proxy_target_port docker_bs_config = ''3009'' \<and>
   server_port Map.empty = nat_str (bs_port docker_bs_config) \<and>
   (proxy_target_port docker_bs_config = server_port env \<longleftrightarrow> env ''PORT'' = Some ''3009'')"
proof -
  have "nat_str 3008 = ''3008''"
    by (simp add: nat_str.simps digit_char_def js_simps)
  then show ?thesis
    by (auto simp: proxy_target_port_def docker_bs_config_def server_port_def js_or_default_def
        split: option.split)
qed

lemma app_rest_ok:
  "app_response_ok public (fst (run_layers cd tmp jp public [Static_layer, Convert_route, Error_layer] rq body err fs))"
proof -
  have conv: "app_response_ok public (fst (case convert_handler cd tmp req fs of (r, fs') \<Rightarrow> (Api r, fs')))"
    for req
    using response_ok_convert_handler [of cd tmp req fs]
    by (cases "convert_handler cd tmp req fs") (simp add: app_response_ok_def)
  have err: "app_response_ok public (Api (error_handler e))" for e
    by (simp add: app_response_ok_def response_ok_error_handler)
  show ?thesis
    using conv err
    by (auto simp: app_response_ok_def split: option.split http_body.split sum.split)
qed

text \<open>
  C19. Every answer of the application is well formed, whatever the request, the body
  parser and the codec: an API error has status 400 or 500 and a non-empty message, an
  attachment carries one of the five image MIME types, a static file is the file at that
  path, and Express's default error page never appears because the error handler of
  line 124 answers every error.
\<close>

theorem app_response_wf: "app_response_ok public (fst (run_app cd tmp jp public rq fs))"
proof (cases "json_layer jp (rq_body rq)")
  case (Inl e)
  with app_rest_ok [of public cd tmp jp rq Map.empty "Some e" fs] show ?thesis
    by (simp add: run_app_def app_layers_def)
next
  case (Inr b)
  with app_rest_ok [of public cd tmp jp rq b None fs] show ?thesis
    by (simp add: run_app_def app_layers_def)
qed

text \<open>
  C23. The route of \<open>Server\<close> is what the whole application does with a multipart
  \<open>POST\<close> to the conversion endpoint: the JSON parser and the static files let it pass,
  and \<open>post_convert\<close> gives the answer and the file system. The path matches
  case-insensitively and with a final slash, as Express's defaults have it.
\<close>

theorem app_convert_refines:
  assumes "rq_method rq = POST" and "route_matches (rq_path rq)" and "rq_body rq = Multipart ps"
  shows "run_app cd tmp jp public rq fs = (Api (fst (post_convert cd tmp ps fs)), snd (post_convert cd tmp ps fs))"
  using assms
  by (simp add: run_app_def app_layers_def json_layer_def post_convert_def split: sum.split prod.split)

theorem app_convert_refines_witness:
  "run_app failing_codec ''/tmp/x.ico'' (\<lambda>_. Inr Map.empty) Map.empty
     \<lparr>rq_method = POST, rq_path = ''/API/Convert/'', rq_body = Multipart [Text_field ''format'' ''gif'']\<rparr> Map.empty
   = (Api (Json_error 400 msg_no_image), Map.empty)"
proof -
  let ?rq = "\<lparr>rq_method = POST, rq_path = ''/API/Convert/'', rq_body = Multipart [Text_field ''format'' ''gif'']\<rparr>"
  have "rq_method ?rq = POST" "route_matches (rq_path ?rq)" "rq_body ?rq = Multipart [Text_field ''format'' ''gif'']"
    by (simp_all add: route_matches_def js_simps)
  from app_convert_refines [OF this, where cd = failing_codec and tmp = "''/tmp/x.ico''"
      and jp = "\<lambda>_. Inr Map.empty" and public = Map.empty and fs = Map.empty]
  show ?thesis
    by (simp add: post_convert_def convert_handler_def)
qed

text \<open>
  C27. A request with a JSON body that the parser rejects, or that exceeds the 100 kB
  limit, is answered 500 with the parser's message, whatever its method and path: the
  JSON layer runs before the static files and the route, and the error handler ignores
  the status 400 body-parser gives these errors. The specification counts malformed client
  input as a 400 error.
\<close>

theorem app_json_error:
  assumes "rq_body rq = Json_body t" and "json_layer jp (Json_body t) = Inl e"
  shows "fst (run_app cd tmp jp public rq fs) = Api (Json_error 500 (if error_message e = [] then msg_server else error_message e))"
proof -
  obtain m where e: "e = Plain_error m"
    using assms(2) by (auto simp: json_layer_def split: if_splits sum.splits)
  with assms show ?thesis
    by (simp add: run_app_def app_layers_def error_handler_def)
qed

theorem app_json_error_witness:
  "fst (run_app failing_codec ''/tmp/x.ico'' (\<lambda>_. Inl ''Unexpected token a in JSON at position 0'')
        [''index.html'' \<mapsto> [60]]
        \<lparr>rq_method = GET, rq_path = ''/'', rq_body = Json_body ''abc''\<rparr> Map.empty)
   = Api (Json_error 500 ''Unexpected token a in JSON at position 0'')"
proof -
  have "json_layer (\<lambda>_. Inl ''Unexpected token a in JSON at position 0'') (Json_body ''abc'')
      = Inl (Plain_error ''Unexpected token a in JSON at position 0'')"
    by (simp add: json_layer_def json_limit_def)
  from app_json_error [OF _ this, of "\<lparr>rq_method = GET, rq_path = ''/'', rq_body = Json_body ''abc''\<rparr>"
      failing_codec "''/tmp/x.ico''" "[''index.html'' \<mapsto> [60]]" Map.empty]
  show ?thesis by simp
qed

end
