(* ===== verification/System.thy ===== *)
theory System
  imports Client_Events App
begin

text \<open>
  The client and the server together. A batch of the page sends, for file \<open>i\<close>, the
  request \<open>batch_request b i\<close>: a multipart \<open>POST /api/convert\<close> with the file and the
  form values the click captured (\<^verbatim>\<open>app.js\<close> lines 208--216). The application of
  \<open>App\<close> answers it, and the answer reaches the client's \<open>fetch\<close> as
  \<open>app_fetch\<close> describes. The requests of a batch are independent: each sees the server's
  file system as it is and uses its own temporary path (\<open>tmp i\<close>), as the random part of
  the ICO path makes the paths of concurrent requests differ.
\<close>

definition batch_request :: "batch \<Rightarrow> nat \<Rightarrow> http_request" where
  "batch_request b i =
     \<lparr>rq_method = POST, rq_path = ''/api/convert'',
      rq_body = Multipart (form_parts (b_files b ! i) (b_fmt b) (b_quality b) (b_max_width b))\<rparr>"

primrec method_name :: "http_method \<Rightarrow> string" where
  "method_name GET = ''GET''"
| "method_name HEAD = ''HEAD''"
| "method_name POST = ''POST''"
| "method_name (Other_method m) = m"

text \<open>What \<open>fetch\<close> hands the client for each kind of answer: an API response as the
  server sent it, and otherwise the status with the body as text (the static file, or the
  text of Express's default pages).\<close>

fun app_fetch :: "app_response \<Rightarrow> fetch_result" where
  "app_fetch (Api r) = Got r"
| "app_fetch (Static_file f b) = Got_raw 200 (map (\<lambda>w. char_of (unat w)) b)"
| "app_fetch (Not_found m p) = Got_raw 404 (''Cannot '' @ method_name m @ '' '' @ p)"
| "app_fetch (Default_error m) = Got_raw 500 m"

definition system_reply ::
  "codec \<Rightarrow> (nat \<Rightarrow> string) \<Rightarrow> json_parser \<Rightarrow> (string \<rightharpoonup> bytes) \<Rightarrow> fs \<Rightarrow> batch \<Rightarrow> nat \<Rightarrow> fetch_result" where
  "system_reply cd tmp jp public fs b i =
     app_fetch (fst (run_app cd (tmp i) jp public (batch_request b i) fs))"

text \<open>The fields of the request body as multer leaves them in \<open>req.body\<close>.\<close>

definition batch_fields :: "batch \<Rightarrow> string \<rightharpoonup> string" where
  "batch_fields b =
     (if b_max_width b = [] then [''format'' \<mapsto> b_fmt b, ''quality'' \<mapsto> b_quality b]
      else [''format'' \<mapsto> b_fmt b, ''quality'' \<mapsto> b_quality b, ''maxWidth'' \<mapsto> b_max_width b])"

subsection \<open>Lemmas\<close>

lemma upload_single_batch:
  assumes "i < length (b_files b)" and "f = b_files b ! i"
    and "fname f \<noteq> []" and "image_name_ok (fname f)" and "length (fdata f) \<le> upload_limit"
  shows "upload_single (form_parts f (b_fmt b) (b_quality b) (b_max_width b)) Map.empty None =
           Inr \<lparr>req_file = Some \<lparr>fieldname = ''image'', originalname = fname f, buffer = fdata f\<rparr>,
                req_body = batch_fields b\<rparr>"
  using assms by (simp add: form_parts_def file_filter_def batch_fields_def)

lemma system_reply_ok:
  assumes "i < length (b_files b)" and "f = b_files b ! i"
    and "fname f \<noteq> []" and "image_name_ok (fname f)" and "length (fdata f) \<le> upload_limit"
    and "b_fmt b \<noteq> []" and "format_of_string (to_lower (b_fmt b)) = Some F" and "F \<noteq> Ico"
    and "to_buffer cd (fdata f)
           (resize_ops (valid_max_width (if b_max_width b = [] then None else Some (b_max_width b))) @
            [encode_op F (resolve_quality (Some (b_quality b)))]) = Inr out"
  shows "file_request decode (b_fmt b) f (system_reply cd tmp jp public fs b i) =
           Inr (make_result decode (b_fmt b) f out)"
proof -
  obtain m where m: "mime_type F = Some m"
    using assms(8) by (cases F) auto
  have "batch_fields b ''format'' = Some (b_fmt b)" "batch_fields b ''quality'' = Some (b_quality b)"
    "batch_fields b ''maxWidth'' = (if b_max_width b = [] then None else Some (b_max_width b))"
    by (simp_all add: batch_fields_def)
  with assms m show ?thesis
    by (simp add: system_reply_def batch_request_def run_app_def app_layers_def json_layer_def
        route_matches_def upload_single_batch convert_handler_def convert_raster_def requested_format_def
        js_or_default_def Let_def file_request_def js_simps)
qed

text \<open>C26: a batch the server accepts converts completely. When every file of the batch has
  a name with an image extension and fits the upload limit, the format the click captured
  names a raster format, and the codec encodes each file, then the server answers each request
  with the converted image and the batch settles with one result per request, in completion
  order, each the codec's output under the client's output name.\<close>

theorem system_batch_success:
  assumes "\<forall>f \<in> set (b_files b). fname f \<noteq> [] \<and> image_name_ok (fname f) \<and> length (fdata f) \<le> upload_limit"
    and "b_fmt b \<noteq> []" and "format_of_string (to_lower (b_fmt b)) = Some F" and "F \<noteq> Ico"
    and "\<forall>i \<in> set ord. i < length (b_files b) \<and>
           to_buffer cd (fdata (b_files b ! i))
             (resize_ops (valid_max_width (if b_max_width b = [] then None else Some (b_max_width b))) @
              [encode_op F (resolve_quality (Some (b_quality b)))]) = Inr (out i)"
  shows "Client_Events.batch_outcome decode b (system_reply cd tmp jp public fs b) ord =
           Inr (map (\<lambda>i. make_result decode (b_fmt b) (b_files b ! i) (out i)) ord)"
proof -
  have "\<forall>i \<in> set ord. file_request decode (b_fmt b) (b_files b ! i) (system_reply cd tmp jp public fs b i) =
          Inr (make_result decode (b_fmt b) (b_files b ! i) (out i))"
    using assms by (auto intro!: system_reply_ok[where F = F])
  then show ?thesis by (rule batch_outcome_all_ok)
qed

theorem system_batch_success_witness:
  "Client_Events.batch_outcome (\<lambda>_. None)
     \<lparr>b_files = two_files, b_fmt = ''webp'', b_quality = ''80'', b_max_width = []\<rparr>
     (system_reply echo_codec (\<lambda>_. ''/tmp/x.ico'') (\<lambda>_. Inr Map.empty) Map.empty Map.empty
        \<lparr>b_files = two_files, b_fmt = ''webp'', b_quality = ''80'', b_max_width = []\<rparr>) [1, 0] =
   Inr [make_result (\<lambda>_. None) ''webp'' (two_files ! 1) [2, 2],
        make_result (\<lambda>_. None) ''webp'' (two_files ! 0) [1]]"
proof -
  have "\<forall>i \<in> set [1, 0]. i < length two_files \<and>
      to_buffer echo_codec (fdata (two_files ! i)) (resize_ops (valid_max_width None) @
        [encode_op Webp (resolve_quality (Some ''80''))]) = Inr (fdata (two_files ! i))"
    by (simp add: two_files_def echo_codec_def)
  then show ?thesis
    using system_batch_success[where decode = "\<lambda>_. None" and F = Webp and ord = "[1, 0]"
        and cd = echo_codec and out = "\<lambda>i. fdata (two_files ! i)"
        and b = "\<lparr>b_files = two_files, b_fmt = ''webp'', b_quality = ''80'', b_max_width = []\<rparr>"
        and tmp = "\<lambda>_. ''/tmp/x.ico''" and jp = "\<lambda>_. Inr Map.empty" and public = Map.empty and fs = Map.empty]
    by (simp add: two_files_def image_name_ok_def upload_limit_def format_of_string_def ends_with_def Let_def js_simps)
qed

end
