(* ===== verification/Codec_Contract.thy ===== *)
theory Codec_Contract
  imports Convert
begin

text \<open>
  The geometry part of the image library's contract, from sharp's documentation of
  \<open>resize(width, height, {fit: "inside", withoutEnlargement: true})\<close>, the call of
  \<^verbatim>\<open>src/server.js\<close> lines 60--63 and 87--90: the image keeps its aspect ratio and
  becomes as large as possible within the box, and an image that already fits keeps its size.
  The side with the larger scale factor takes the box's size and the other is scaled by the
  same factor and rounded; a side never drops below one pixel. Encoders keep the geometry.

  A codec meets the contract for a decoder of image sizes when every output it produces
  from a decodable input decodes to the size the pipeline prescribes. Under the contract the
  handler's output never exceeds the \<open>maxWidth\<close> box nor the input, and keeps the input's
  size when no resize applies. \<open>geo_codec\<close>, a codec on two-byte "images" holding their
  width and height, meets it.
\<close>

type_synonym dims = "nat \<times> nat"

text \<open>\<open>Math.round (a / b)\<close> for naturals, \<open>b > 0\<close>.\<close>

definition round_div :: "nat \<Rightarrow> nat \<Rightarrow> nat" where
  "round_div a b = (2 * a + b) div (2 * b)"

definition fit_inside :: "nat \<Rightarrow> nat \<Rightarrow> dims \<Rightarrow> dims" where
  "fit_inside bw bh d =
     (case d of (w, h) \<Rightarrow>
        if w \<le> bw \<and> h \<le> bh then (w, h)
        else if h * bw \<le> w * bh then (bw, max 1 (round_div (h * bw) w))
        else (max 1 (round_div (w * bh) h), bh))"

primrec op_dims :: "sharp_op \<Rightarrow> dims \<Rightarrow> dims" where
  "op_dims (Resize_inside bw bh) d = fit_inside (nat bw) (nat bh) d"
| "op_dims (To_webp q) d = d"
| "op_dims (To_avif q) d = d"
| "op_dims (To_jpeg q) d = d"
| "op_dims (To_png l) d = d"

definition pipeline_dims :: "sharp_op list \<Rightarrow> dims \<Rightarrow> dims" where
  "pipeline_dims ops d = fold op_dims ops d"

definition geometry_ok :: "codec \<Rightarrow> (bytes \<Rightarrow> dims option) \<Rightarrow> bool" where
  "geometry_ok cd decode \<longleftrightarrow>
     (\<forall>b ops out d. decode b = Some d \<longrightarrow> to_buffer cd b ops = Inr out \<longrightarrow>
        decode out = Some (pipeline_dims ops d))"

text \<open>sharp rejects a resize to a non-positive size (\<open>Expected positive integer for width\<close>).\<close>

definition resize_args_ok :: "sharp_op list \<Rightarrow> bool" where
  "resize_args_ok ops \<longleftrightarrow>
     list_all (\<lambda>op. case op of Resize_inside bw bh \<Rightarrow> 0 < bw \<and> 0 < bh | _ \<Rightarrow> True) ops"

definition geo_decode :: "bytes \<Rightarrow> dims option" where
  "geo_decode b =
     (case b of [w, h] \<Rightarrow> if w = 0 \<or> h = 0 then None else Some (unat w, unat h) | _ \<Rightarrow> None)"

definition geo_codec :: codec where
  "geo_codec =
     \<lparr>to_buffer = (\<lambda>b ops.
        if \<not> resize_args_ok ops then Inl ''Expected positive integer for width''
        else case geo_decode b of
          None \<Rightarrow> Inl ''Input buffer contains unsupported image format''
        | Some d \<Rightarrow> (case pipeline_dims ops d of (w, h) \<Rightarrow> Inr [of_nat w, of_nat h])),
      sharps_to_ico = sharps_to_ico echo_codec\<rparr>"

subsection \<open>The box\<close>

lemma round_div_le:
  assumes "0 < b" and "a \<le> b * c"
  shows "round_div a b \<le> c"
proof -
  have "2 * a + b < (c + 1) * (2 * b)"
    using assms by (simp add: algebra_simps)
  then have "round_div a b < c + 1"
    using assms(1) by (simp add: round_div_def div_less_iff_less_mult)
  then show ?thesis by simp
qed

lemma fit_inside_bounds:
  assumes "0 < bw" and "0 < bh" and "0 < w" and "0 < h" and "fit_inside bw bh (w, h) = (w', h')"
  shows "w' \<le> bw \<and> h' \<le> bh \<and> w' \<le> w \<and> h' \<le> h \<and> 0 < w' \<and> 0 < h'"
proof (cases "w \<le> bw \<and> h \<le> bh")
  case True
  with assms show ?thesis by (simp add: fit_inside_def)
next
  case out: False
  show ?thesis
  proof (cases "h * bw \<le> w * bh")
    case True
    have "bw < w"
    proof (rule ccontr)
      assume "\<not> bw < w"
      then have "w * bh \<le> bw * bh" by simp
      with True have "h * bw \<le> bh * bw" by (metis mult.commute order_trans)
      then have "h \<le> bh" using assms(1) by simp
      with out \<open>\<not> bw < w\<close> show False by simp
    qed
    have "h * bw \<le> w * h" using \<open>bw < w\<close> by (simp add: mult.commute)
    then have "round_div (h * bw) w \<le> h" by (rule round_div_le[OF assms(3)])
    moreover have "round_div (h * bw) w \<le> bh" using True by (rule round_div_le[OF assms(3)])
    ultimately show ?thesis
      using assms out True \<open>bw < w\<close> by (auto simp: fit_inside_def)
  next
    case False
    have "bh < h"
    proof (rule ccontr)
      assume "\<not> bh < h"
      then have "h * bw \<le> bh * bw" by simp
      with False have "w * bh \<le> bw * bh" by (metis mult.commute nat_le_linear order_trans)
      then have "w \<le> bw" using assms(2) by simp
      with out \<open>\<not> bh < h\<close> show False by simp
    qed
    have "w * bh \<le> h * w" using \<open>bh < h\<close> by (simp add: mult.commute)
    then have "round_div (w * bh) h \<le> w" by (rule round_div_le[OF assms(4)])
    moreover have "w * bh \<le> h * bw" using False by simp
    then have "round_div (w * bh) h \<le> bw" by (rule round_div_le[OF assms(4)])
    ultimately show ?thesis
      using assms out False \<open>bh < h\<close> by (auto simp: fit_inside_def)
  qed
qed

lemma round_div_err:
  assumes "0 < b"
  shows "2 * (b * round_div a b) \<le> 2 * a + b \<and> 2 * a + b < 2 * (b * round_div a b) + 2 * b"
proof -
  have m: "(2 * a + b) mod (2 * b) < 2 * b" using assms by simp
  have "2 * (b * ((2 * a + b) div (2 * b))) + (2 * a + b) mod (2 * b) = 2 * a + b"
    by (metis mult_div_mod_eq mult.assoc)
  with m show ?thesis unfolding round_div_def by linarith
qed

lemma fit_inside_aspect:
  assumes "0 < w" and "0 < h" and "fit_inside bw bh (w, h) = (w', h')"
  shows "w' * h \<le> h' * w + max w h \<and> h' * w \<le> w' * h + max w h"
proof (cases "w \<le> bw \<and> h \<le> bh")
  case True
  with assms show ?thesis by (simp add: fit_inside_def)
next
  case out: False
  have mx: "w \<le> max w h" "h \<le> max w h" by simp_all
  show ?thesis
  proof (cases "h * bw \<le> w * bh")
    case True
    let ?r = "round_div (h * bw) w"
    have e: "2 * (w * ?r) \<le> 2 * (h * bw) + w \<and> 2 * (h * bw) + w < 2 * (w * ?r) + 2 * w"
      by (rule round_div_err [OF assms(1)])
    have w': "w' * h = h * bw" and h': "h' = max 1 ?r"
      using assms(3) out True by (auto simp: fit_inside_def)
    show ?thesis
    proof (cases "?r = 0")
      case True
      then have "h' * w = w" "w * ?r = 0" by (simp_all add: h')
      with e mx show ?thesis unfolding w' by linarith
    next
      case False
      then have "h' * w = w * ?r" by (simp add: h' max_absorb2 mult.commute)
      with e mx show ?thesis unfolding w' by linarith
    qed
  next
    case False
    let ?r = "round_div (w * bh) h"
    have e: "2 * (h * ?r) \<le> 2 * (w * bh) + h \<and> 2 * (w * bh) + h < 2 * (h * ?r) + 2 * h"
      by (rule round_div_err [OF assms(2)])
    have h': "h' * w = w * bh" and w': "w' = max 1 ?r"
      using assms(3) out False by (auto simp: fit_inside_def)
    show ?thesis
    proof (cases "?r = 0")
      case True
      then have "w' * h = h" "h * ?r = 0" by (simp_all add: w')
      with e mx show ?thesis unfolding h' by linarith
    next
      case False
      then have "w' * h = h * ?r" by (simp add: w' max_absorb2 mult.commute)
      with e mx show ?thesis unfolding h' by linarith
    qed
  qed
qed

lemma pipeline_dims_shrinks:
  assumes "resize_args_ok ops" and "0 < w" and "0 < h" and "pipeline_dims ops (w, h) = (w', h')"
  shows "0 < w' \<and> 0 < h' \<and> w' \<le> w \<and> h' \<le> h"
  using assms
proof (induction ops arbitrary: w h)
  case Nil
  then show ?case by (simp add: pipeline_dims_def)
next
  case (Cons op ops)
  obtain w1 h1 where d1: "op_dims op (w, h) = (w1, h1)" by fastforce
  have "0 < w1 \<and> 0 < h1 \<and> w1 \<le> w \<and> h1 \<le> h"
  proof (cases op)
    case (Resize_inside bw bh)
    with Cons.prems(1) have "0 < nat bw" "0 < nat bh" by (simp_all add: resize_args_ok_def)
    with Resize_inside d1 Cons.prems(2,3) show ?thesis
      using fit_inside_bounds [of "nat bw" "nat bh" w h w1 h1] by simp
  qed (use d1 Cons.prems in auto)
  moreover have "pipeline_dims ops (w1, h1) = (w', h')"
    using Cons.prems(4) d1 by (simp add: pipeline_dims_def)
  ultimately show ?case
    using Cons.IH [of w1 h1] Cons.prems(1) by (fastforce simp: resize_args_ok_def)
qed

lemma op_dims_encode [simp]: "op_dims (encode_op F q) d = d"
  by (simp add: encode_op_def)

lemma pipeline_dims_handler:
  "pipeline_dims (resize_ops mw @ [encode_op F q]) d =
     (case mw of None \<Rightarrow> d | Some m \<Rightarrow> fit_inside (nat m) (nat m) d)"
  by (simp add: pipeline_dims_def resize_ops_def split: option.split)

lemma geo_codec_ok: "geometry_ok geo_codec geo_decode"
proof -
  have "geo_decode out = Some (pipeline_dims ops d)"
    if dec: "geo_decode b = Some d" and res: "to_buffer geo_codec b ops = Inr out" for b ops out d
  proof -
    obtain x y where b: "b = [x, y]" and nz: "x \<noteq> 0" "y \<noteq> 0" and d: "d = (unat x, unat y)"
      using dec by (auto simp: geo_decode_def split: list.splits if_splits)
    obtain w' h' where p: "pipeline_dims ops d = (w', h')" by fastforce
    have ok: "resize_args_ok ops" and out: "out = [of_nat w', of_nat h']"
      using res dec p by (auto simp: geo_codec_def split: if_splits)
    have "0 < unat x" "0 < unat y" using nz by (simp_all add: unat_gt_0)
    then have "0 < w' \<and> 0 < h' \<and> w' \<le> unat x \<and> h' \<le> unat y"
      using pipeline_dims_shrinks [OF ok] p d by blast
    moreover have "unat x < 256" "unat y < 256"
      using unsigned_less [of x] unsigned_less [of y] by simp_all
    ultimately have "unat (of_nat w' :: 8 word) = w'" "unat (of_nat h' :: 8 word) = h'"
      by (simp_all add: unat_of_nat)
    moreover have "(of_nat w' :: 8 word) \<noteq> 0" "(of_nat h' :: 8 word) \<noteq> 0"
      using calculation \<open>0 < w' \<and> 0 < h' \<and> _\<close> by (metis unat_0 less_irrefl)+
    ultimately show ?thesis
      using out p by (simp add: geo_decode_def)
  qed
  then show ?thesis by (auto simp: geometry_ok_def)
qed

subsection \<open>The handler under the contract\<close>

lemma valid_max_width_pos: "valid_max_width v = Some m \<Longrightarrow> 0 < m"
  by (auto simp: valid_max_width_def split: option.splits if_splits)

lemma convert_handler_raster_output:
  assumes "format_of_string (requested_format (body ''format'')) = Some F" and "F \<noteq> Ico"
    and "fst (convert_handler cd tmp \<lparr>req_file = Some f, req_body = body\<rparr> fs) = Attachment ct cdisp out"
  shows "to_buffer cd (buffer f)
           (resize_ops (valid_max_width (body ''maxWidth'')) @
            [encode_op F (resolve_quality (body ''quality''))]) = Inr out"
  using assms
  by (auto simp: convert_handler_def convert_raster_def conversion_failed_def Let_def
      split: sum.splits option.splits)

text \<open>
  C29. Under the geometry contract, the image the handler sends for a raster format is no
  larger than the upload in either side and keeps its aspect ratio up to the rounding of
  one side (the cross products \<open>w' h\<close> and \<open>h' w\<close> differ by at most the larger source side); when a \<open>maxWidth\<close> \<open>m\<close> takes effect it fits
  in the \<open>m\<close> by \<open>m\<close> box, and an upload that already fits, or a request without a
  valid \<open>maxWidth\<close>, keeps its size.
\<close>

theorem convert_handler_output_fits:
  assumes "geometry_ok cd decode" and "decode (buffer f) = Some (w, h)" and "0 < w" and "0 < h"
    and "format_of_string (requested_format (body ''format'')) = Some F" and "F \<noteq> Ico"
    and "fst (convert_handler cd tmp \<lparr>req_file = Some f, req_body = body\<rparr> fs) = Attachment ct cdisp out"
  shows "\<exists>w' h'. decode out = Some (w', h') \<and> w' \<le> w \<and> h' \<le> h \<and>
           w' * h \<le> h' * w + max w h \<and> h' * w \<le> w' * h + max w h \<and>
           (case valid_max_width (body ''maxWidth'') of
              None \<Rightarrow> w' = w \<and> h' = h
            | Some m \<Rightarrow> w' \<le> nat m \<and> h' \<le> nat m \<and> (w \<le> nat m \<and> h \<le> nat m \<longrightarrow> w' = w \<and> h' = h))"
proof -
  let ?mw = "valid_max_width (body ''maxWidth'')"
  have "decode out = Some (pipeline_dims (resize_ops ?mw @ [encode_op F (resolve_quality (body ''quality''))]) (w, h))"
    using assms(1,2) convert_handler_raster_output [OF assms(5-7)] by (simp add: geometry_ok_def)
  then have dec: "decode out = Some (case ?mw of None \<Rightarrow> (w, h) | Some m \<Rightarrow> fit_inside (nat m) (nat m) (w, h))"
    by (simp add: pipeline_dims_handler)
  show ?thesis
  proof (cases ?mw)
    case None
    with dec show ?thesis by simp
  next
    case (Some m)
    obtain w' h' where fit: "fit_inside (nat m) (nat m) (w, h) = (w', h')" by fastforce
    have "0 < nat m" using valid_max_width_pos [OF Some] by simp
    then have "w' \<le> nat m \<and> h' \<le> nat m \<and> w' \<le> w \<and> h' \<le> h"
      using fit_inside_bounds [OF _ _ assms(3,4) fit] by blast
    moreover have "w' * h \<le> h' * w + max w h \<and> h' * w \<le> w' * h + max w h"
      using fit_inside_aspect [OF assms(3,4) fit] .
    moreover have "w \<le> nat m \<and> h \<le> nat m \<longrightarrow> w' = w \<and> h' = h"
      using fit by (auto simp: fit_inside_def split: if_splits)
    ultimately show ?thesis
      using dec Some fit by simp
  qed
qed

theorem convert_handler_output_fits_witness:
  "fst (convert_handler geo_codec ''/tmp/x.ico''
      \<lparr>req_file = Some \<lparr>fieldname = ''image'', originalname = ''a.png'', buffer = [200, 100]\<rparr>,
       req_body = [''format'' \<mapsto> ''png'', ''maxWidth'' \<mapsto> ''64'']\<rparr> Map.empty) =
     Attachment ''image/png'' (content_disposition ''a.png'') [64, 32] \<and>
   (\<exists>w' h'. geo_decode [64, 32] = Some (w', h') \<and> w' \<le> 200 \<and> h' \<le> 100 \<and> w' \<le> 64 \<and> h' \<le> 64)"
proof -
  let ?f = "\<lparr>fieldname = ''image'', originalname = ''a.png'', buffer = [200, 100 :: 8 word]\<rparr>"
  let ?body = "[''format'' \<mapsto> ''png'', ''maxWidth'' \<mapsto> ''64'']"
  have fmt: "format_of_string (requested_format (?body ''format'')) = Some Png"
    by (simp add: requested_format_def js_or_default_def format_of_string_def js_simps)
  have mw: "valid_max_width (?body ''maxWidth'') = Some 64"
    by (simp add: valid_max_width_def js_simps)
  have fit: "fit_inside 64 64 (200, 100) = (64, 32)"
    by (simp add: fit_inside_def round_div_def)
  have name: "out_name ''a.png'' Png = ''a.png''"
    using basename_no_ext_dot [of "''a''" "''png''"] by (simp add: out_name_def)
  have run: "fst (convert_handler geo_codec ''/tmp/x.ico'' \<lparr>req_file = Some ?f, req_body = ?body\<rparr> Map.empty) =
      Attachment ''image/png'' (content_disposition ''a.png'') [64, 32]"
    using fmt mw fit name
    by (simp add: convert_handler_def convert_raster_def geo_codec_def geo_decode_def resize_args_ok_def
        resize_ops_def pipeline_dims_def encode_op_def mime_type_def Let_def)
  have "geo_decode [200, 100] = Some (200, 100)"
    by (simp add: geo_decode_def)
  from convert_handler_output_fits [OF geo_codec_ok _ _ _ fmt _ run, unfolded mw] this
  show ?thesis using run by auto
qed

end
