(* ===== verification/Browser.thy ===== *)
theory Browser
  imports Client_Events
begin

text \<open>
  \<open>triggerDownload\<close> (\<^verbatim>\<open>src/public/app.js\<close> lines 49--58) and the timers of
  "download all" (lines 184--188) on a model of the browser's state: the nodes of
  \<open>document.body\<close>, the live object URLs, a counter that makes the URL and the element
  each call creates fresh, and the files the browser saved. The page model of
  \<open>Client_Events\<close> records a download as the pair (blob, name) it hands to
  \<open>triggerDownload\<close>; the lemmas below show that this is what the browser saves, in that
  order, and that each call leaves no anchor in the document and no object URL alive.
\<close>

record browser =
  body_nodes :: "nat list"
  object_urls :: "nat \<rightharpoonup> bytes"
  next_id :: nat
  saved :: "(bytes \<times> string) list"

text \<open>\<open>URL.createObjectURL(blob)\<close>: a fresh URL bound to the blob.\<close>

definition create_object_url :: "bytes \<Rightarrow> browser \<Rightarrow> nat \<times> browser" where
  "create_object_url b br =
     (next_id br, br\<lparr>object_urls := (object_urls br)(next_id br \<mapsto> b), next_id := Suc (next_id br)\<rparr>)"

text \<open>\<open>a.click()\<close> on an anchor with \<open>href\<close> \<open>u\<close> and \<open>download\<close> \<open>name\<close>: the browser
  saves what the URL designates under that name; a revoked URL saves nothing.\<close>

definition click_anchor :: "nat \<Rightarrow> string \<Rightarrow> browser \<Rightarrow> browser" where
  "click_anchor u name br =
     (case object_urls br u of
        None \<Rightarrow> br
      | Some b \<Rightarrow> br\<lparr>saved := saved br @ [(b, name)]\<rparr>)"

definition trigger_download :: "bytes \<Rightarrow> string \<Rightarrow> browser \<Rightarrow> browser" where
  "trigger_download blob name br =
     (let (u, br1) = create_object_url blob br;
          a = next_id br1;
          br2 = br1\<lparr>next_id := Suc a, body_nodes := body_nodes br1 @ [a]\<rparr>;
          br3 = click_anchor u name br2;
          br4 = br3\<lparr>body_nodes := removeAll a (body_nodes br3)\<rparr>
      in br4\<lparr>object_urls := (object_urls br4)(u := None)\<rparr>)"

text \<open>The \<open>setTimeout\<close> callbacks of a list of downloads (delay, blob, name) fire in the
  order of their delays, and callbacks with equal delays in the order they were scheduled.\<close>

definition fire_timers :: "download list \<Rightarrow> browser \<Rightarrow> browser" where
  "fire_timers ds br = fold (\<lambda>(_, b, n). trigger_download b n) (sort_key fst ds) br"

text \<open>Every element and URL the page created carries an identifier below the counter.\<close>

definition browser_wf :: "browser \<Rightarrow> bool" where
  "browser_wf br \<longleftrightarrow> (\<forall>a \<in> set (body_nodes br). a < next_id br) \<and> (\<forall>u \<in> dom (object_urls br). u < next_id br)"

text \<open>The calls of \<open>triggerDownload\<close> an event of the page schedules, as (delay, blob,
  name): the single download of a batch of one (line 264, delay 0) when a join settles,
  the staggered timers of "download all" (lines 184--188); other events schedule none.\<close>

fun step_downloads :: "(bytes \<Rightarrow> (nat \<times> nat) option) \<Rightarrow> ui_event \<Rightarrow> page \<Rightarrow> download list" where
  "step_downloads decode (Settle k resp ord) p =
     (if k < length (in_flight p)
      then snd (convert_settle (b_fmt (in_flight p ! k)) (batch_outcome decode (in_flight p ! k) resp ord) (ui p))
      else [])"
| "step_downloads decode Download_all p = download_all (ui p)"
| "step_downloads decode _ p = []"

text \<open>The browser as the page leaves it: no anchor left in the document, no object URL
  alive, and the files saved are the downloads the page model records.\<close>

definition page_browser :: "page \<Rightarrow> browser \<Rightarrow> bool" where
  "page_browser p br \<longleftrightarrow>
     browser_wf br \<and> body_nodes br = [] \<and> object_urls br = Map.empty \<and> saved br = downloads p"

text \<open>The browser beside a run of the page: each event's downloads fire once the event has
  been handled.\<close>

fun run_browser :: "(bytes \<Rightarrow> (nat \<times> nat) option) \<Rightarrow> ui_event list \<Rightarrow> page \<Rightarrow> browser \<Rightarrow> browser" where
  "run_browser decode [] p br = br"
| "run_browser decode (e # es) p br =
     (case page_step decode e p of
        None \<Rightarrow> br
      | Some p' \<Rightarrow> run_browser decode es p' (fire_timers (step_downloads decode e p) br))"

definition init_browser :: browser where
  "init_browser = \<lparr>body_nodes = [], object_urls = Map.empty, next_id = 0, saved = []\<rparr>"

subsection \<open>Lemmas\<close>

lemma trigger_download_effect:
  assumes "browser_wf br"
  shows "trigger_download blob name br =
           br\<lparr>next_id := next_id br + 2, saved := saved br @ [(blob, name)]\<rparr>"
proof -
  have u: "object_urls br (next_id br) = None" and a: "Suc (next_id br) \<notin> set (body_nodes br)"
    using assms by (auto simp: browser_wf_def)
  have "(object_urls br)(next_id br := None) = object_urls br"
    using u by auto
  with a show ?thesis
    by (simp add: trigger_download_def create_object_url_def click_anchor_def)
qed

lemma browser_wf_counter:
  "browser_wf br \<Longrightarrow> next_id br \<le> n \<Longrightarrow> browser_wf (br\<lparr>next_id := n, saved := s\<rparr>)"
  unfolding browser_wf_def by (auto dest: order.strict_trans2)

lemma trigger_download_wf:
  "browser_wf br \<Longrightarrow> browser_wf (trigger_download blob name br)"
  by (simp add: trigger_download_effect browser_wf_counter)

lemma fold_trigger_download:
  assumes "browser_wf br"
  shows "fold (\<lambda>(_, b, n). trigger_download b n) ds br =
           br\<lparr>next_id := next_id br + 2 * length ds,
              saved := saved br @ map (\<lambda>(_, b, n). (b, n)) ds\<rparr>"
  using assms
proof (induction ds arbitrary: br)
  case Nil
  then show ?case by simp
next
  case (Cons d ds)
  obtain t b n where d: "d = (t, b, n)" by (cases d) auto
  have "browser_wf (trigger_download b n br)"
    using Cons.prems by (rule trigger_download_wf)
  with Cons.IH Cons.prems show ?case
    by (simp add: d trigger_download_effect)
qed

lemma download_all_sorted: "sorted (map fst (download_all c))"
  by (simp add: download_all_def case_prod_beta sorted_iff_nth_mono nth_enumerate_eq)

lemma fire_download_all:
  assumes "browser_wf br"
  shows "fire_timers (download_all c) br =
           br\<lparr>next_id := next_id br + 2 * length (last_results c),
              saved := saved br @ map (\<lambda>(_, b, n). (b, n)) (download_all c)\<rparr>"
  using assms
  by (simp add: fire_timers_def sort_key_id_if_sorted [OF download_all_sorted] fold_trigger_download)
    (simp add: download_all_def)

lemma fire_timers_sorted:
  assumes "browser_wf br" and "sorted (map fst ds)"
  shows "fire_timers ds br =
           br\<lparr>next_id := next_id br + 2 * length ds, saved := saved br @ map (\<lambda>(_, b, n). (b, n)) ds\<rparr>"
  using assms by (simp add: fire_timers_def sort_key_id_if_sorted fold_trigger_download)

lemma convert_settle_downloads_sorted: "sorted (map fst (snd (convert_settle fmt outcome c)))"
  by (simp add: convert_settle_def Let_def split: sum.split prod.split option.split)

lemma step_downloads_sorted: "sorted (map fst (step_downloads decode e p))"
  by (cases "(decode, e, p)" rule: step_downloads.cases)
    (simp_all add: convert_settle_downloads_sorted download_all_sorted)

lemma page_step_downloads:
  assumes "page_step decode e p = Some p'"
  shows "downloads p' = downloads p @ map (\<lambda>(_, b, n). (b, n)) (step_downloads decode e p)"
  using assms
proof (cases e)
  case (Settle k resp ord)
  with assms show ?thesis
    by (auto simp: settle_def Let_def split: if_splits prod.splits)
qed (auto simp: zone_update_def dragover_at_def dragleave_at_def drop_at_def drop_files_def dims_resolve_def click_def
      Let_def split: if_splits)

lemma page_browser_step:
  assumes "page_browser p br" and "page_step decode e p = Some p'"
  shows "page_browser p' (fire_timers (step_downloads decode e p) br)"
proof -
  have wf: "browser_wf br" using assms(1) by (simp add: page_browser_def)
  show ?thesis
    using assms(1) page_step_downloads [OF assms(2)]
    by (simp add: fire_timers_sorted [OF wf step_downloads_sorted] page_browser_def browser_wf_counter)
qed

text \<open>
  C22. The page model's record of downloads is what the browser does: along any run of
  the page, firing the downloads each event schedules (the immediate download of a single
  result, the 150 ms timers of "download all", in the order of their delays) saves exactly
  the files the page records, in that order, and leaves no anchor in the document and no
  object URL alive.
\<close>

theorem browser_refines_page:
  assumes "run_events decode es p = Some p'" and "page_browser p br"
  shows "page_browser p' (run_browser decode es p br)"
  using assms
proof (induction es arbitrary: p br)
  case Nil
  then show ?case by simp
next
  case (Cons e es)
  then obtain p1 where s: "page_step decode e p = Some p1" and r: "run_events decode es p1 = Some p'"
    by (auto split: option.splits)
  have "page_browser p1 (fire_timers (step_downloads decode e p) br)"
    using Cons.prems(2) s by (rule page_browser_step)
  with Cons.IH [OF r] s show ?case by simp
qed

theorem browser_refines_page_witness:
  "\<exists>p'. run_events (\<lambda>_. None)
      [Pick [\<lparr>fname = ''a.png'', fdata = [1]\<rparr>], Click ''webp'' ''80'' [],
       Settle 0 (\<lambda>_. Got (Attachment ''image/webp'' [] [7])) [0]] init_page = Some p' \<and>
     downloads p' = [([7], ''a.webp'')] \<and>
     page_browser p' (run_browser (\<lambda>_. None)
      [Pick [\<lparr>fname = ''a.png'', fdata = [1]\<rparr>], Click ''webp'' ''80'' [],
       Settle 0 (\<lambda>_. Got (Attachment ''image/webp'' [] [7])) [0]] init_page init_browser)"
proof -
  obtain p' where run: "run_events (\<lambda>_. None)
      [Pick [\<lparr>fname = ''a.png'', fdata = [1]\<rparr>], Click ''webp'' ''80'' [],
       Settle 0 (\<lambda>_. Got (Attachment ''image/webp'' [] [7])) [0]] init_page = Some p'"
    and dl: "downloads p' = [([7], ''a.webp'')]"
    by (simp add: zone_update_def update_zone_def Let_def click_def settle_def convert_begin_def
        init_page_def convert_settle_def batch_outcome_def file_request_def make_result_def
        client_out_name_def http_ok_def apply_result_def strip_last_ext_def js_simps)
  have "page_browser init_page init_browser"
    by (simp add: page_browser_def init_browser_def init_page_def browser_wf_def)
  from browser_refines_page [OF run this] run dl show ?thesis by blast
qed

end
