(* ===== verification/Schedules.thy ===== *)
theory Schedules
  imports Prelude
begin

text \<open>
  Concurrent requests on one Node process. A request handler runs synchronously until an
  \<open>await\<close>, and the event loop later resumes one of the suspended handlers, in an order
  the program does not control. A task is one suspended handler; \<open>run_sched step\<close>
  resumes the tasks in the order a schedule names them (an index beyond the list is an
  event of no task), each resumption running \<open>step\<close> on the shared file system.

  A step is local to the task's path (\<open>path_local\<close>) when it keeps the task's path, and
  changes and reads the file system only at that path. Such a task behaves as if it ran
  alone on its own path (\<open>alone\<close>): whatever the interleaving, each task's state and the
  content of its path are those of its own steps, as many as the schedule gave it, and
  every other path is untouched (\<open>run_sched_inv\<close>). The request handlers of the
  server are instances (\<open>Ico_Tasks\<close>, \<open>Server_Tasks\<close>).
\<close>

fun run_sched :: "('t \<Rightarrow> fs \<Rightarrow> 't \<times> fs) \<Rightarrow> nat list \<Rightarrow> 't list \<Rightarrow> fs \<Rightarrow> 't list \<times> fs" where
  "run_sched step [] ts fs = (ts, fs)"
| "run_sched step (k # ks) ts fs =
     (if k < length ts
      then (case step (ts ! k) fs of (t', fs') \<Rightarrow> run_sched step ks (ts[k := t']) fs')
      else run_sched step ks ts fs)"

text \<open>One step of a task alone: the task and the content of its own path.\<close>

definition own_step ::
  "('t \<Rightarrow> fs \<Rightarrow> 't \<times> fs) \<Rightarrow> ('t \<Rightarrow> string) \<Rightarrow> 't \<Rightarrow> bytes option \<Rightarrow> 't \<times> bytes option" where
  "own_step step path t v = (case step t (Map.empty(path t := v)) of (t', fs') \<Rightarrow> (t', fs' (path t)))"

definition alone ::
  "('t \<Rightarrow> fs \<Rightarrow> 't \<times> fs) \<Rightarrow> ('t \<Rightarrow> string) \<Rightarrow> nat \<Rightarrow> 't \<Rightarrow> bytes option \<Rightarrow> 't \<times> bytes option" where
  "alone step path n t v = ((\<lambda>(t, v). own_step step path t v) ^^ n) (t, v)"

definition path_local :: "('t \<Rightarrow> fs \<Rightarrow> 't \<times> fs) \<Rightarrow> ('t \<Rightarrow> string) \<Rightarrow> bool" where
  "path_local step path \<longleftrightarrow>
     (\<forall>t fs. path (fst (step t fs)) = path t \<and>
        step t fs = (fst (own_step step path t (fs (path t))),
                     fs(path t := snd (own_step step path t (fs (path t))))))"

subsection \<open>A task alone\<close>

lemma alone_0 [simp]: "alone step path 0 t v = (t, v)"
  by (simp add: alone_def)

lemma alone_Suc:
  "alone step path (Suc n) t v = (case own_step step path t v of (t', v') \<Rightarrow> alone step path n t' v')"
  by (simp only: alone_def funpow_Suc_right o_apply) (simp add: case_prod_beta)

lemma alone_fixed: "own_step step path t v = (t, v) \<Longrightarrow> alone step path n t v = (t, v)"
  by (induction n) (simp_all add: alone_Suc)

lemma path_localD:
  assumes "path_local step path"
  shows "step t fs = (fst (own_step step path t (fs (path t))), fs(path t := snd (own_step step path t (fs (path t)))))"
    and "path (fst (own_step step path t v)) = path t"
proof -
  show "step t fs = (fst (own_step step path t (fs (path t))), fs(path t := snd (own_step step path t (fs (path t)))))"
    using assms unfolding path_local_def by blast
  have "path (fst (step t (Map.empty(path t := v)))) = path t"
    using assms unfolding path_local_def by blast
  then show "path (fst (own_step step path t v)) = path t"
    by (simp add: own_step_def case_prod_beta)
qed

subsection \<open>Any schedule\<close>

lemma run_sched_inv:
  assumes "path_local step path" and "distinct (map path ts)" and "run_sched step sched ts fs = (ts', fs')"
  shows "map path ts' = map path ts \<and>
         (\<forall>i < length ts. (ts' ! i, fs' (path (ts ! i))) =
            alone step path (count_list sched i) (ts ! i) (fs (path (ts ! i)))) \<and>
         (\<forall>q. q \<notin> set (map path ts) \<longrightarrow> fs' q = fs q)"
  using assms(2,3)
proof (induction sched arbitrary: ts fs)
  case Nil
  then show ?case by simp
next
  case (Cons k ks)
  show ?case
  proof (cases "k < length ts")
    case False
    with Cons.IH [OF Cons.prems(1)] Cons.prems(2) show ?thesis by auto
  next
    case True
    let ?p = "path (ts ! k)"
    obtain t' v' where ls: "own_step step path (ts ! k) (fs ?p) = (t', v')" by fastforce
    have st: "step (ts ! k) fs = (t', fs(?p := v'))"
      using path_localD(1) [OF assms(1)] ls by simp
    have pk: "path t' = ?p"
      using path_localD(2) [OF assms(1), of "ts ! k" "fs ?p"] ls by simp
    have paths: "map path (ts[k := t']) = map path ts"
      using pk True by (simp add: map_update) (metis list_update_id nth_map)
    have run1: "run_sched step ks (ts[k := t']) (fs(?p := v')) = (ts', fs')"
      using Cons.prems(2) True st by simp
    have IH: "map path ts' = map path ts \<and>
        (\<forall>i < length ts. (ts' ! i, fs' (path (ts[k := t'] ! i))) =
           alone step path (count_list ks i) (ts[k := t'] ! i) ((fs(?p := v')) (path (ts[k := t'] ! i)))) \<and>
        (\<forall>q. q \<notin> set (map path ts) \<longrightarrow> fs' q = (fs(?p := v')) q)"
      using Cons.IH [OF _ run1] Cons.prems(1) paths by (metis length_list_update)
    have "(ts' ! i, fs' (path (ts ! i))) = alone step path (count_list (k # ks) i) (ts ! i) (fs (path (ts ! i)))"
      if i: "i < length ts" for i
    proof (cases "i = k")
      case True
      from IH \<open>k < length ts\<close> have "(ts' ! k, fs' (path (ts[k := t'] ! k))) =
          alone step path (count_list ks k) (ts[k := t'] ! k) ((fs(?p := v')) (path (ts[k := t'] ! k)))"
        by blast
      then have "(ts' ! k, fs' ?p) = alone step path (count_list ks k) t' v'"
        using \<open>k < length ts\<close> pk by simp
      with True ls show ?thesis by (simp add: alone_Suc)
    next
      case False
      have "path (ts ! i) \<noteq> ?p"
        using Cons.prems(1) i \<open>k < length ts\<close> False by (simp add: distinct_conv_nth)
      moreover from IH i have "(ts' ! i, fs' (path (ts[k := t'] ! i))) =
          alone step path (count_list ks i) (ts[k := t'] ! i) ((fs(?p := v')) (path (ts[k := t'] ! i)))"
        by blast
      ultimately show ?thesis using False by simp
    qed
    moreover have "?p \<in> set (map path ts)" using True by simp
    ultimately show ?thesis
      using IH by auto
  qed
qed

text \<open>The invariant read at one task: its state and its path are its own run's.\<close>

lemma run_sched_task:
  assumes "path_local step path" and "distinct (map path ts)" and "run_sched step sched ts fs = (ts', fs')"
    and "i < length ts"
  shows "ts' ! i = fst (alone step path (count_list sched i) (ts ! i) (fs (path (ts ! i))))"
    and "fs' (path (ts ! i)) = snd (alone step path (count_list sched i) (ts ! i) (fs (path (ts ! i))))"
  using run_sched_inv [OF assms(1-3)] assms(4) by (metis fst_conv, metis snd_conv)

end
