(* ===== verification/Ico_Tasks.thy ===== *)
theory Ico_Tasks
  imports Convert Schedules
begin

text \<open>
  Concurrent ICO conversions on one server. The ICO branch of the handler
  (\<^verbatim>\<open>src/server.js\<close> lines 57--82) awaits three times on the shared file system:
  \<open>sharpsToIco\<close> writes the icon to the request's temporary path, \<open>fs.readFile\<close> reads
  it back, \<open>fs.unlink\<close> removes it before the response is sent. Node interleaves the
  requests it serves at these points. An \<open>ico_task\<close> is one request's progress through
  the branch (\<open>tk_pc\<close> counts the completed awaits, 3 is done); \<open>ico_task_step\<close> runs its
  next await on the shared file system, and a schedule of resumptions is a \<open>run_sched\<close>
  of \<open>Schedules\<close>.

  The icon writer is assumed local (\<open>ico_local\<close>): it changes the file system only at the
  path it is given, and neither its outcome nor what it writes depends on the other files.
  Then a step is local to the request's temporary path (\<open>ico_task_path_local\<close>), and
  the request alone on that path answers what \<open>convert_ico\<close> answers and leaves the path
  as \<open>convert_ico\<close> leaves it (\<open>ico_alone_outcome\<close>). \<open>Server_Tasks\<close> composes this
  with the rest of the handler.
\<close>

record ico_task =
  tk_path :: string
  tk_file :: upload
  tk_mw :: "int option"
  tk_name :: string
  tk_pc :: nat
  tk_buf :: bytes
  tk_resp :: "response option"

definition ico_start :: "string \<Rightarrow> upload \<Rightarrow> int option \<Rightarrow> string \<Rightarrow> ico_task" where
  "ico_start p f mw name =
     \<lparr>tk_path = p, tk_file = f, tk_mw = mw, tk_name = name, tk_pc = 0, tk_buf = [], tk_resp = None\<rparr>"

definition ico_task_step :: "codec \<Rightarrow> ico_task \<Rightarrow> fs \<Rightarrow> ico_task \<times> fs" where
  "ico_task_step cd t fs =
     (if tk_pc t = 0 then
        (case sharps_to_ico cd (buffer (tk_file t)) (resize_ops (tk_mw t)) ico_sizes (tk_path t) fs of
           (Inl e, fs1) \<Rightarrow> (t\<lparr>tk_pc := 3, tk_resp := Some (conversion_failed e)\<rparr>, fs1)
         | (Inr _, fs1) \<Rightarrow> (t\<lparr>tk_pc := 1\<rparr>, fs1))
      else if tk_pc t = 1 then
        (case read_file fs (tk_path t) of
           Inl e \<Rightarrow> (t\<lparr>tk_pc := 3, tk_resp := Some (conversion_failed e)\<rparr>, fs)
         | Inr b \<Rightarrow> (t\<lparr>tk_pc := 2, tk_buf := b\<rparr>, fs))
      else if tk_pc t = 2 then
        (t\<lparr>tk_pc := 3,
            tk_resp := Some (Attachment ''image/x-icon'' (content_disposition (tk_name t)) (tk_buf t))\<rparr>,
         unlink fs (tk_path t))
      else (t, fs))"

definition ico_local :: "codec \<Rightarrow> bool" where
  "ico_local cd \<longleftrightarrow>
     (\<forall>b ops sz p fs. sharps_to_ico cd b ops sz p fs =
        (fst (sharps_to_ico cd b ops sz p Map.empty), fs(p := snd (sharps_to_ico cd b ops sz p Map.empty) p)))"

subsection \<open>A step is local to its path\<close>

lemma ico_task_step_keeps [simp]:
  "tk_path (fst (ico_task_step cd t fs)) = tk_path t"
  "tk_file (fst (ico_task_step cd t fs)) = tk_file t"
  "tk_mw (fst (ico_task_step cd t fs)) = tk_mw t"
  "tk_name (fst (ico_task_step cd t fs)) = tk_name t"
  by (simp_all add: ico_task_step_def split: prod.split sum.split)

lemma ico_task_path_local:
  assumes "ico_local cd"
  shows "path_local (ico_task_step cd) tk_path"
proof -
  have "ico_task_step cd t fs =
          (fst (own_step (ico_task_step cd) tk_path t (fs (tk_path t))),
           fs(tk_path t := snd (own_step (ico_task_step cd) tk_path t (fs (tk_path t)))))" for t fs
  proof -
    let ?p = "tk_path t"
    obtain R V where RV: "sharps_to_ico cd (buffer (tk_file t)) (resize_ops (tk_mw t)) ico_sizes ?p Map.empty = (R, V)"
      by fastforce
    have w: "sharps_to_ico cd (buffer (tk_file t)) (resize_ops (tk_mw t)) ico_sizes ?p g = (R, g(?p := V ?p))" for g
      using assms RV unfolding ico_local_def by (metis fst_conv snd_conv)
    show ?thesis
      by (simp add: own_step_def ico_task_step_def w read_file_def unlink_def
          split: sum.split option.split)
  qed
  then show ?thesis
    unfolding path_local_def using ico_task_step_keeps(1) by blast
qed

lemma ico_own_done: "3 \<le> tk_pc t \<Longrightarrow> own_step (ico_task_step cd) tk_path t v = (t, v)"
  by (simp add: own_step_def ico_task_step_def)

lemma ico_alone_done: "3 \<le> tk_pc t \<Longrightarrow> alone (ico_task_step cd) tk_path n t v = (t, v)"
  by (rule alone_fixed [OF ico_own_done])

subsection \<open>One request alone\<close>

text \<open>Whatever the number of its steps, a request alone on its path answers what
  \<open>convert_ico\<close> answers, leaves its path as \<open>convert_ico\<close> leaves it, and has
  answered once it has run its three awaits.\<close>

lemma ico_alone_outcome:
  assumes "ico_local cd" and "tk_pc t = 0" and "tk_resp t = None"
  shows "(\<forall>r. tk_resp (fst (alone (ico_task_step cd) tk_path n t v)) = Some r \<longrightarrow>
            r = fst (convert_ico cd (tk_path t) (tk_file t) (tk_mw t) (tk_name t) fs) \<and>
            snd (alone (ico_task_step cd) tk_path n t v) =
              snd (convert_ico cd (tk_path t) (tk_file t) (tk_mw t) (tk_name t) fs) (tk_path t)) \<and>
         (3 \<le> n \<longrightarrow> tk_resp (fst (alone (ico_task_step cd) tk_path n t v)) \<noteq> None)"
proof -
  let ?p = "tk_path t"
  let ?own = "own_step (ico_task_step cd) tk_path"
  obtain R V where RV: "sharps_to_ico cd (buffer (tk_file t)) (resize_ops (tk_mw t)) ico_sizes ?p Map.empty = (R, V)"
    by fastforce
  have w: "sharps_to_ico cd (buffer (tk_file t)) (resize_ops (tk_mw t)) ico_sizes ?p g = (R, g(?p := V ?p))" for g
    using assms(1) RV unfolding ico_local_def by (metis fst_conv snd_conv)
  have n: "n = 0 \<or> n = Suc 0 \<or> n = Suc (Suc 0) \<or> (\<exists>m. n = Suc (Suc (Suc m)))"
    by presburger
  show ?thesis
  proof (cases R)
    case (Inl e)
    have "?own t v = (t\<lparr>tk_pc := 3, tk_resp := Some (conversion_failed e)\<rparr>, V ?p)"
      using assms(2) by (simp add: own_step_def ico_task_step_def w Inl)
    moreover have "convert_ico cd ?p (tk_file t) (tk_mw t) (tk_name t) fs = (conversion_failed e, fs(?p := V ?p))"
      by (simp add: convert_ico_def w Inl)
    ultimately show ?thesis
      using n assms(3) by (auto simp: alone_Suc ico_alone_done ico_own_done)
  next
    case (Inr u)
    have s1: "?own t v = (t\<lparr>tk_pc := 1\<rparr>, V ?p)"
      using assms(2) by (simp add: own_step_def ico_task_step_def w Inr)
    show ?thesis
    proof (cases "V ?p")
      case None
      let ?e = "''ENOENT: no such file or directory, open '' @ CHR 0x27 # ?p @ [CHR 0x27]"
      have "?own (t\<lparr>tk_pc := 1\<rparr>) (V ?p) = (t\<lparr>tk_pc := 3, tk_resp := Some (conversion_failed ?e)\<rparr>, None)"
        using None by (simp add: own_step_def ico_task_step_def read_file_def)
      moreover have "convert_ico cd ?p (tk_file t) (tk_mw t) (tk_name t) fs = (conversion_failed ?e, fs(?p := V ?p))"
        using None by (simp add: convert_ico_def w Inr read_file_def)
      ultimately show ?thesis
        using n assms(3) s1 None by (auto simp: alone_Suc ico_alone_done ico_own_done)
    next
      case (Some b)
      let ?a = "Attachment ''image/x-icon'' (content_disposition (tk_name t)) b"
      have "?own (t\<lparr>tk_pc := 1\<rparr>) (V ?p) = (t\<lparr>tk_pc := 2, tk_buf := b\<rparr>, Some b)"
        using Some by (simp add: own_step_def ico_task_step_def read_file_def)
      moreover have "?own (t\<lparr>tk_pc := 2, tk_buf := b\<rparr>) (Some b) =
          (t\<lparr>tk_pc := 3, tk_buf := b, tk_resp := Some ?a\<rparr>, None)"
        by (simp add: own_step_def ico_task_step_def unlink_def)
      moreover have "convert_ico cd ?p (tk_file t) (tk_mw t) (tk_name t) fs = (?a, unlink (fs(?p := V ?p)) ?p)"
        using Some by (simp add: convert_ico_def w Inr read_file_def)
      ultimately show ?thesis
        using n assms(3) s1 by (auto simp: alone_Suc ico_alone_done ico_own_done unlink_def)
    qed
  qed
qed

lemma echo_codec_local: "ico_local echo_codec"
  by (simp add: ico_local_def echo_codec_def)

end
