(* ===== verification/Server_Tasks.thy ===== *)
theory Server_Tasks
  imports Ico_Tasks Server
begin

text \<open>
  Concurrent requests to \<open>POST /api/convert\<close>. multer parses the upload first (line 26,
  in memory: no file is written) and an upload error goes to the error handler; the handler
  (\<^verbatim>\<open>src/server.js\<close> lines 26--122) then runs synchronously up to its first \<open>await\<close>: the 400 answers of the
  validation are sent at once, the raster branch then awaits \<open>toBuffer\<close> (line 107), and
  the ICO branch awaits the icon writer, the read and the unlink (\<open>Ico_Tasks\<close>).
  \<open>start_task\<close> is that synchronous prefix, \<open>start_route\<close> the route's (multer, then
  the error handler or \<open>start_task\<close>), \<open>task_step\<close> one resumption, and a
  schedule of resumptions of several requests is a \<open>run_sched\<close>. Every request has its
  own temporary path, which only the ICO branch uses.

  With a local icon writer and distinct temporary paths, every interleaving of the
  requests gives each request the answer \<open>post_convert\<close> gives it alone on the initial
  file system and leaves its temporary path as \<open>post_convert\<close> leaves it; every
  request resumed three times has answered; no other file changes.
\<close>

datatype req_task =
    Task_done string response
  | Task_raster string upload out_format int "int option" string
  | Task_ico ico_task

fun task_path :: "req_task \<Rightarrow> string" where
  "task_path (Task_done p r) = p"
| "task_path (Task_raster p f fmt q mw name) = p"
| "task_path (Task_ico t) = tk_path t"

fun task_resp :: "req_task \<Rightarrow> response option" where
  "task_resp (Task_done p r) = Some r"
| "task_resp (Task_raster p f fmt q mw name) = None"
| "task_resp (Task_ico t) = tk_resp t"

definition start_task :: "string \<Rightarrow> request \<Rightarrow> req_task" where
  "start_task tmp req =
     (case req_file req of
        None \<Rightarrow> Task_done tmp (Json_error 400 msg_no_image)
      | Some f \<Rightarrow>
          (case format_of_string (requested_format (req_body req ''format'')) of
             None \<Rightarrow> Task_done tmp (Json_error 400 msg_bad_format)
           | Some fmt \<Rightarrow>
               (let q = resolve_quality (req_body req ''quality'');
                    mw = valid_max_width (req_body req ''maxWidth'');
                    name = out_name (originalname f) fmt
                in if fmt = Ico then Task_ico (ico_start tmp f mw name)
                   else Task_raster tmp f fmt q mw name)))"

definition start_route :: "string \<Rightarrow> part list \<Rightarrow> req_task" where
  "start_route tmp parts =
     (case upload_single parts Map.empty None of
        Inl err \<Rightarrow> Task_done tmp (error_handler err)
      | Inr req \<Rightarrow> start_task tmp req)"

fun task_step :: "codec \<Rightarrow> req_task \<Rightarrow> fs \<Rightarrow> req_task \<times> fs" where
  "task_step cd (Task_done p r) fs = (Task_done p r, fs)"
| "task_step cd (Task_raster p f fmt q mw name) fs = (Task_done p (convert_raster cd f fmt q mw name), fs)"
| "task_step cd (Task_ico t) fs = (case ico_task_step cd t fs of (t', fs') \<Rightarrow> (Task_ico t', fs'))"

subsection \<open>Each request on its own path\<close>

lemma task_path_start [simp]: "task_path (start_task tmp req) = tmp"
  by (simp add: start_task_def ico_start_def Let_def split: option.split)

lemma task_path_route [simp]: "task_path (start_route tmp parts) = tmp"
  by (simp add: start_route_def split: sum.split)

lemma own_step_ico:
  "own_step (task_step cd) task_path (Task_ico t) v =
     (Task_ico (fst (own_step (ico_task_step cd) tk_path t v)), snd (own_step (ico_task_step cd) tk_path t v))"
  by (simp add: own_step_def split: prod.split)

lemma alone_ico:
  "alone (task_step cd) task_path n (Task_ico t) v =
     (Task_ico (fst (alone (ico_task_step cd) tk_path n t v)), snd (alone (ico_task_step cd) tk_path n t v))"
  by (induction n arbitrary: t v) (simp_all add: alone_Suc own_step_ico split: prod.split)

lemma task_path_local:
  assumes "ico_local cd"
  shows "path_local (task_step cd) task_path"
  unfolding path_local_def
proof (intro allI conjI)
  fix t fs
  show "task_path (fst (task_step cd t fs)) = task_path t"
    by (cases t) (simp_all add: case_prod_beta)
  show "task_step cd t fs = (fst (own_step (task_step cd) task_path t (fs (task_path t))),
          fs(task_path t := snd (own_step (task_step cd) task_path t (fs (task_path t)))))"
  proof (cases t)
    case (Task_ico it)
    have "ico_task_step cd it fs = (fst (own_step (ico_task_step cd) tk_path it (fs (tk_path it))),
        fs(tk_path it := snd (own_step (ico_task_step cd) tk_path it (fs (tk_path it)))))"
      by (rule path_localD(1) [OF ico_task_path_local [OF assms]])
    with Task_ico show ?thesis by (simp add: own_step_ico)
  qed (simp_all add: own_step_def)
qed

text \<open>A request alone: whenever it has answered, it answered what \<open>convert_handler\<close>
  answers and left its path as \<open>convert_handler\<close> leaves it; three resumptions suffice.\<close>

lemma task_alone_outcome:
  assumes "ico_local cd"
  shows "(\<forall>r. task_resp (fst (alone (task_step cd) task_path n (start_task tmp req) (fs tmp))) = Some r \<longrightarrow>
            r = fst (convert_handler cd tmp req fs) \<and>
            snd (alone (task_step cd) task_path n (start_task tmp req) (fs tmp)) =
              snd (convert_handler cd tmp req fs) tmp) \<and>
         (3 \<le> n \<longrightarrow> task_resp (fst (alone (task_step cd) task_path n (start_task tmp req) (fs tmp))) \<noteq> None)"
proof (cases "req_file req")
  case None
  then show ?thesis
    by (simp add: start_task_def convert_handler_def alone_fixed own_step_def)
next
  case (Some f)
  show ?thesis
  proof (cases "format_of_string (requested_format (req_body req ''format''))")
    case None
    with \<open>req_file req = Some f\<close> show ?thesis
      by (simp add: start_task_def convert_handler_def alone_fixed own_step_def)
  next
    case (Some fmt)
    let ?q = "resolve_quality (req_body req ''quality'')"
    let ?mw = "valid_max_width (req_body req ''maxWidth'')"
    let ?name = "out_name (originalname f) fmt"
    show ?thesis
    proof (cases "fmt = Ico")
      case True
      have st: "start_task tmp req = Task_ico (ico_start tmp f ?mw ?name)"
        and ch: "convert_handler cd tmp req fs = convert_ico cd tmp f ?mw ?name fs"
        using \<open>req_file req = Some f\<close> Some True by (simp_all add: start_task_def convert_handler_def)
      have "tk_pc (ico_start tmp f ?mw ?name) = 0" "tk_resp (ico_start tmp f ?mw ?name) = None"
        by (simp_all add: ico_start_def)
      from ico_alone_outcome [OF assms this, of n "fs tmp" fs] show ?thesis
        by (simp add: st ch alone_ico) (simp add: ico_start_def)
    next
      case False
      let ?r = "Task_done tmp (convert_raster cd f fmt ?q ?mw ?name)"
      have st: "start_task tmp req = Task_raster tmp f fmt ?q ?mw ?name"
        and ch: "convert_handler cd tmp req fs = (convert_raster cd f fmt ?q ?mw ?name, fs)"
        using \<open>req_file req = Some f\<close> Some False by (simp_all add: start_task_def convert_handler_def)
      have one: "own_step (task_step cd) task_path (Task_raster tmp f fmt ?q ?mw ?name) (fs tmp) = (?r, fs tmp)"
        and stay: "own_step (task_step cd) task_path ?r (fs tmp) = (?r, fs tmp)"
        by (simp_all add: own_step_def)
      have n: "n = 0 \<or> (\<exists>m. n = Suc m)" by presburger
      then show ?thesis
        using alone_fixed [OF stay] by (auto simp: st ch alone_Suc one)
    qed
  qed
qed

lemma route_alone_outcome:
  assumes "ico_local cd"
  shows "(\<forall>r. task_resp (fst (alone (task_step cd) task_path n (start_route tmp parts) (fs tmp))) = Some r \<longrightarrow>
            r = fst (post_convert cd tmp parts fs) \<and>
            snd (alone (task_step cd) task_path n (start_route tmp parts) (fs tmp)) =
              snd (post_convert cd tmp parts fs) tmp) \<and>
         (3 \<le> n \<longrightarrow> task_resp (fst (alone (task_step cd) task_path n (start_route tmp parts) (fs tmp))) \<noteq> None)"
proof (cases "upload_single parts Map.empty None")
  case (Inl err)
  then show ?thesis
    by (simp add: start_route_def post_convert_def alone_fixed own_step_def)
next
  case (Inr req)
  then show ?thesis
    using task_alone_outcome [OF assms, of n tmp req fs]
    by (simp add: start_route_def post_convert_def)
qed

subsection \<open>Any interleaving\<close>

text \<open>
  C32. Concurrent conversions are independent. With a local icon writer and distinct
  temporary paths, in every interleaving of the awaits of several requests to the route:
  each request that has answered answered what \<open>post_convert\<close> answers it alone on the
  initial file system and left its temporary path as \<open>post_convert\<close> leaves it (an icon
  sent means its temporary file is gone); each request resumed three times has answered;
  and no file outside the temporary paths changes.
\<close>

theorem server_requests_independent:
  assumes "ico_local cd" and "distinct tmps" and "length tmps = length reqs"
    and "run_sched (task_step cd) sched (map2 start_route tmps reqs) fs = (ts', fs')"
  shows "(\<forall>i < length reqs. \<forall>r. task_resp (ts' ! i) = Some r \<longrightarrow>
            r = fst (post_convert cd (tmps ! i) (reqs ! i) fs) \<and>
            fs' (tmps ! i) = snd (post_convert cd (tmps ! i) (reqs ! i) fs) (tmps ! i)) \<and>
         (\<forall>i < length reqs. 3 \<le> count_list sched i \<longrightarrow> task_resp (ts' ! i) \<noteq> None) \<and>
         (\<forall>q. q \<notin> set tmps \<longrightarrow> fs' q = fs q)"
proof -
  let ?ts = "map2 start_route tmps reqs"
  have paths: "map task_path ?ts = tmps"
    using assms(3) by (induction tmps reqs rule: list_induct2) simp_all
  then have d: "distinct (map task_path ?ts)" using assms(2) by simp
  have len: "length ?ts = length reqs" using assms(3) by simp
  have at: "?ts ! i = start_route (tmps ! i) (reqs ! i)" if "i < length reqs" for i
    using that assms(3) by simp
  note loc = task_path_local [OF assms(1)]
  have "ts' ! i = fst (alone (task_step cd) task_path (count_list sched i) (start_route (tmps ! i) (reqs ! i)) (fs (tmps ! i)))"
    and "fs' (tmps ! i) = snd (alone (task_step cd) task_path (count_list sched i) (start_route (tmps ! i) (reqs ! i)) (fs (tmps ! i)))"
    if "i < length reqs" for i
    using run_sched_task [OF loc d assms(4), of i] that len at [OF that] by simp_all
  moreover have "\<forall>q. q \<notin> set tmps \<longrightarrow> fs' q = fs q"
  proof -
    have "\<forall>q. q \<notin> set (map task_path ?ts) \<longrightarrow> fs' q = fs q"
      using run_sched_inv [OF loc d assms(4)] by blast
    then show ?thesis by (simp only: paths)
  qed
  ultimately show ?thesis
    using route_alone_outcome [OF assms(1)] by auto
qed

theorem server_requests_independent_witness:
  "\<exists>ts' fs'. run_sched (task_step echo_codec) [0, 1, 0, 1, 0, 1]
       (map2 start_route [''/tmp/a.ico'', ''/tmp/b.ico'']
          [[File_part ''image'' ''photo.png'' [1, 2, 3], Text_field ''format'' ''ico''],
           [Text_field ''format'' ''webp'', File_part ''image'' ''photo.png'' [1, 2, 3]]]) Map.empty = (ts', fs') \<and>
     task_resp (ts' ! 0) = Some (fst (post_convert echo_codec ''/tmp/a.ico''
        [File_part ''image'' ''photo.png'' [1, 2, 3], Text_field ''format'' ''ico''] Map.empty)) \<and>
     task_resp (ts' ! 1) = Some (fst (post_convert echo_codec ''/tmp/b.ico''
        [Text_field ''format'' ''webp'', File_part ''image'' ''photo.png'' [1, 2, 3]] Map.empty))"
proof -
  let ?tmps = "[''/tmp/a.ico'', ''/tmp/b.ico'']"
  let ?reqs = "[[File_part ''image'' ''photo.png'' [1, 2, 3], Text_field ''format'' ''ico''],
           [Text_field ''format'' ''webp'', File_part ''image'' ''photo.png'' [1, 2, 3]]]"
  obtain ts' fs' where run: "run_sched (task_step echo_codec) [0, 1, 0, 1, 0, 1] (map2 start_route ?tmps ?reqs) Map.empty
      = (ts', fs')"
    by fastforce
  have "distinct ?tmps" "length ?tmps = length ?reqs" by simp_all
  note C = server_requests_independent [OF echo_codec_local this run]
  have resp: "task_resp (ts' ! i) = Some (fst (post_convert echo_codec (?tmps ! i) (?reqs ! i) Map.empty))"
    if "i < 2" for i
  proof -
    have cnt: "3 \<le> count_list [0, 1, 0, 1, 0, 1] i" using that by (cases i) auto
    have len: "i < length ?reqs" using that by simp
    have "task_resp (ts' ! i) \<noteq> None"
      by (rule C [THEN conjunct2, THEN conjunct1, rule_format, OF len cnt])
    then obtain r where r: "task_resp (ts' ! i) = Some r" by blast
    from C [THEN conjunct1, rule_format, OF len r] r show ?thesis
      by simp
  qed
  from resp [of 0] resp [of 1] run show ?thesis
    by auto
qed

end
