(* ===== verification/Spec2Isabelle.thy ===== *)
theory Spec2Isabelle
  imports System Codec_Contract Browser Server_Tasks
begin

text \<open>
  \<^bold>\<open>A verification model of convert-image.\<close>

  The program converts uploaded images to WebP, AVIF, JPEG, PNG or ICO. It has two parts.
  The server (\<^verbatim>\<open>src/server.js\<close>) is an Express application: multer parses the
  multipart request (a 50 MiB limit and a filter on the file name), the handler of
  \<open>POST /api/convert\<close> validates the text fields \<open>format\<close>, \<open>quality\<close> and
  \<open>maxWidth\<close>, builds a pipeline for the image library sharp (or writes an icon through
  sharp-ico and a temporary file) and sends the bytes back as an attachment; an error
  handler turns multer's errors into JSON responses. The client
  (\<^verbatim>\<open>src/public/app.js\<close>) collects files, shows their metadata, posts one request per
  file and offers the results for download. \<^verbatim>\<open>src/bs-config.docker.js\<close> configures the
  browser-sync proxy that fronts the server during development.

  \<^bold>\<open>Theories.\<close>
  \<^item> \<open>Prelude\<close>: byte buffers and the file system as types, ASCII case mapping,
    suffix tests, splitting on a character with its round trip, decimal printing and
    digit values; the collection \<open>js_simps\<close> of evaluation rules.
  \<^item> \<open>Js_Runtime\<close>: the built-ins whose exact behaviour the validation depends on:
    \<open>parseInt(s, 10)\<close> (\<open>js_parse_int\<close>, \<open>None\<close> for \<open>NaN\<close>), the string a missing
    field becomes, \<open>||\<close> on strings, \<open>Math.round\<close> on rationals, and Node's
    \<open>path.extname\<close> and \<open>path.basename(p, path.extname(p))\<close>.
  \<^item> \<open>Http\<close>: the uploaded file (\<open>req.file\<close>), the request as the handler sees it, the
    errors multer raises, the two kinds of response, the messages of the server and the
    image-name test \<open>/\.(jpe?g|png|webp|avif)$/i\<close> (\<open>image_name_ok\<close>).
  \<^item> \<open>Upload\<close>: multer's \<open>single("image")\<close> over a list of multipart parts
    (\<open>upload_single\<close>: text fields, the field-name and count check, the configured
    \<open>file_filter\<close>, the size limit, first error wins) and the Express error handler
    (\<open>error_handler\<close>, lines 124--134).
  \<^item> \<open>Convert\<close>: the handler of lines 26--122: \<open>requested_format\<close>,
    \<open>format_of_string\<close>, \<open>resolve_quality\<close>, \<open>valid_max_width\<close>, \<open>out_name\<close>,
    \<open>png_compression_level\<close>, \<open>encode_op\<close>, \<open>mime_type\<close>, the ICO branch
    \<open>convert_ico\<close> with the temporary file, the raster branch \<open>convert_raster\<close>,
    and \<open>convert_handler\<close>, which composes them with the guards and early returns of
    the source. sharp and sharp-ico are an interface, the record \<open>codec\<close>: the handler
    gives them a list of \<open>sharp_op\<close> and receives bytes or an error message, and the icon
    writer also acts on the file system, which the handler threads explicitly.
  \<^item> \<open>Server\<close>: \<open>post_convert\<close>, the route as Express runs it: multer, then the
    handler or the error handler.
  \<^item> \<open>App\<close>: the Express application as a whole: the stack \<open>app_layers\<close> of
    \<open>express.json()\<close> (\<open>json_layer\<close>, with its 100 kB limit), \<open>express.static\<close>
    (\<open>static_path\<close>), the conversion route (\<open>route_matches\<close>, multer, the handler)
    and the error handler, run by \<open>run_layers\<close> with Express's \<open>next()\<close> and
    \<open>next(err)\<close>; \<open>run_app\<close> answers one request. \<open>server_port\<close> and
    \<open>listen_host\<close> are lines 10 and 136; \<open>docker_bs_config\<close> is the proxy
    configuration.
  \<^item> \<open>Client\<close>: \<^verbatim>\<open>src/public/app.js\<close>. The record \<open>client\<close> holds what the page
    keeps between events (the selected files, \<open>sourceMeta\<close>, \<open>lastConvertedResults\<close>,
    the table rows, the button, the banner). \<open>format_bytes\<close> and \<open>format_label\<close> are
    \<open>formatBytes\<close> and \<open>formatLabel\<close>; \<open>client_out_name\<close> the name of a result
    (line 227); \<open>update_zone\<close> the synchronous part of \<open>updateZone\<close>;
    \<open>select_files\<close> and \<open>handle_drop_files\<close> the picker and a drop;
    \<open>download_all\<close> the staggered bulk download; \<open>convert_click\<close> the click handler
    up to the settlement of the join. One request is \<open>form_parts\<close> (its multipart
    body, the same \<open>part\<close> list the server model reads) and \<open>file_request\<close> (its
    continuation); \<open>promise_all\<close> is the fail-fast join over the completions in time
    order, and \<open>apply_results\<close> the \<open>forEach\<close> that writes the rows. The order of
    completion (\<open>ord\<close>) and what each request returned (\<open>fetch_result\<close>) are inputs,
    so every interleaving the network can produce is covered; image decoding is a
    parameter \<open>decode\<close>.
  \<^item> \<open>Client_Events\<close>: the page over time. The record \<open>page\<close> adds to the client
    what is pending: the dimension promises of \<open>updateZone\<close> (\<open>dims_task\<close>, tagged
    with the table they were created for) and the batches in flight (\<open>batch\<close>, the
    files, the format, the quality and the trimmed \<open>maxWidth\<close> a click captured,
    lines 191--202). \<open>page_step\<close> applies one event: a move of the quality slider
    (\<open>Quality_input\<close>, lines 86--88), a choice in the picker, a drag event or a drop (\<open>dragover_at\<close>, \<open>dragleave_at\<close>,
    \<open>drop_at\<close>: the zone's listener, then the document's as the event bubbles), a
    dimension promise resolving (\<open>dims_resolve\<close>), a click
    (\<open>click\<close>, the handler up to its \<open>await\<close>), the join of a batch settling
    (\<open>settle\<close>, the rest of the handler on the page as it is then), the bulk
    download. Any event may come in any order, so \<open>reachable\<close>, the pages some
    sequence of events produces, covers every interleaving the browser allows.
    \<open>drain\<close> (a \<open>partial_function (option)\<close>) is the event loop once the user stops:
    it runs the pending continuations, oldest first, until none is left.
  \<^item> \<open>Codec_Contract\<close>: the geometry sharp promises for
    \<open>resize(m, m, {fit: "inside", withoutEnlargement: true})\<close>, from its documentation:
    \<open>fit_inside\<close> (the side with the larger scale factor takes the box's size, the other
    is scaled and rounded, an image that fits is kept), \<open>pipeline_dims\<close> over a list of
    \<open>sharp_op\<close>, and \<open>geometry_ok\<close>, the contract a codec meets for a decoder of image
    sizes. \<open>geo_codec\<close>, a codec on two-byte images, meets it.
  \<^item> \<open>System\<close>: the page and the server together. \<open>batch_request\<close> is the request
    the page sends for file \<open>i\<close> of a batch (lines 208--216), \<open>system_reply\<close> what
    \<open>fetch\<close> returns for it when \<open>run_app\<close> answers, \<open>app_fetch\<close> how each kind of
    answer reaches \<open>fetch\<close>. Each request runs on the server's file system with its own
    temporary path, as concurrent requests do.
  \<^item> \<open>Browser\<close>: \<open>triggerDownload\<close> (lines 49--58) on a model of the browser
    (\<open>browser\<close>: the nodes of \<open>document.body\<close>, the live object URLs, a counter for
    fresh identifiers, the files saved) and the \<open>setTimeout\<close> callbacks of
    "download all" (\<open>fire_timers\<close>, in delay order). \<open>step_downloads\<close> lists the
    downloads an event schedules, and \<open>run_browser\<close> runs the browser beside the page.
  \<^item> \<open>Schedules\<close>: concurrent request handlers on one Node process, generically.
    \<open>run_sched step\<close> resumes suspended tasks in the order a schedule names them, on a
    shared file system; a step that is local to its task's path (\<open>path_local\<close>) makes
    every task behave as if it ran alone on that path (\<open>alone\<close>, \<open>run_sched_inv\<close>).
  \<^item> \<open>Ico_Tasks\<close>: the ICO branch as such a task. \<open>ico_task\<close> is one request
    suspended at one of its three awaits (write the icon, read it back, unlink it),
    \<open>ico_task_step\<close> resumes it, and \<open>ico_local\<close> is the contract that the icon writer
    touches only its own path.
  \<^item> \<open>Server_Tasks\<close>: a request to the route as a task: \<open>start_route\<close> is its
    synchronous prefix (multer, then the error handler or \<open>start_task\<close>, the validation
    and its 400 answers), \<open>task_step\<close> resumes the raster branch at \<open>toBuffer\<close> or the
    ICO branch at its next await.
  \<^item> This theory: further properties that span the client and the server.

  \<^bold>\<open>What is proved.\<close> Every theorem holds for every codec, or for every codec that
  meets the contract it names (\<open>geometry_ok\<close>, \<open>ico_local\<close>). Validation: an invalid
  \<open>format\<close> is answered 400 without touching the codec or the file system; a missing
  file is answered 400 before any field is looked at; an invalid quality behaves exactly
  as quality 80 and an invalid \<open>maxWidth\<close> exactly as no \<open>maxWidth\<close>; the quality is
  always in [1, 100] and an effective width in [1, 8000]. Encoding: on success the
  response's \<open>Content-Type\<close> is the format's MIME type, its file name the original base
  name with the new extension, and the codec receives the resize then the one encoder.
  PNG: the compression level equals \<open>(1895 - 18 q) div 190\<close>, lies in [0, 9] without
  the clamp, decreases with the quality, and the rounded value is never within 1/190 of a
  tie, so double-precision evaluation gives the same level as the exact model. ICO: on
  success the temporary file is removed. Upload: a bad extension, an oversized file and
  a file under another field are each rejected before the handler, with the status and
  message the code gives. Numeric fields: both are read as \<open>parseInt\<close> reads them, so
  white space, the digits of \<open>n\<close> and trailing text count as \<open>n\<close>, and a minus sign
  makes both fields fall back (\<open>Convert.numeric_fields_lenient\<close>). Client: the button is
  re-enabled on every path; the table keeps one row per file (an invariant of selection,
  drop and conversion); a drop selects exactly the image files dropped, and one without
  images changes nothing; a failure discards the whole batch; an error status whose body
  is not the server's JSON shows the raw body text, or \<open>Erreur <status>\<close> for an empty
  body (\<open>Client.client_raw_error_message\<close>); a batch of one downloads its result at once,
  and "download all" schedules the \<open>i\<close>-th result to complete at \<open>150 i\<close> ms
  (\<open>Client.batch_downloads\<close>); \<open>formatBytes\<close> and \<open>formatLabel\<close> on their ranges.
  Event model: every reachable page keeps the table in step with the selection, aims the
  pending dimension tasks of the current table at their own rows, and never leaves the
  button disabled once the batches have settled (\<open>page_invariant\<close>, by rule
  induction); once the user stops, the pending work always runs to its end and leaves
  the page ready, the button enabled whenever files are selected (\<open>drain_liveness\<close>,
  by induction on the pending work). Application:
  every answer, for every request, is well formed (\<open>app_response_wf\<close>), and a multipart
  \<open>POST\<close> to the route gets exactly \<open>post_convert\<close>'s answer
  (\<open>app_convert_refines\<close>). Geometry: under the codec's contract, the image sent
  back is never larger than the upload, fits the \<open>maxWidth\<close> box when the field takes
  effect, and keeps its size when it already fits or the field does not take effect
  (\<open>Codec_Contract.convert_handler_output_fits\<close>). System: a batch of image files within
  the limit, with a raster format the codec encodes, settles with one result per request
  in completion order, each the codec's output under the client's name
  (\<open>System.system_batch_success\<close>), and with a \<open>maxWidth\<close> and a codec that meets the
  contract every result the page records has converted dimensions within the box
  (\<open>system_batch_dims\<close>). Downloads: along every run of the page the
  browser saves exactly the downloads the page records, in order, and is left with no
  anchor and no object URL (\<open>Browser.browser_refines_page\<close>, a simulation).
  Concurrency: with distinct temporary paths every interleaving of conversion requests,
  raster and ICO alike, gives each the response \<open>post_convert\<close> gives it alone, leaves
  its temporary path as it would alone (so an icon sent means its temporary file is gone)
  and touches no other file (\<open>Server_Tasks.server_requests_independent\<close>, from the
  invariant \<open>run_sched_inv\<close> over schedules). Across both: every server error reaches the client's banner as the server's own,
  non-empty message; for an ordinary name \<open>base.ext\<close> both sides name the result alike.

  \<^bold>\<open>Findings.\<close> Server: a file with an unsupported extension is answered 500, not 400
  as the specification's error taxonomy says, because the filter raises a plain
  \<open>Error\<close>. When the icon writer fails, the unlink is skipped and a temporary file it
  created stays behind, where the specification requires unconditional cleanup. A missing
  \<open>format\<close> silently means WebP, where the specification calls the field required.
  \<open>quality\<close> and \<open>maxWidth\<close> accept any text that starts with digits (\<open>"50abc"\<close>,
  \<open>"800px"\<close>). A file under another field is answered 500. A JSON body that does not
  parse, or exceeds 100 kB, is answered 500 on every path, the page itself included,
  because express.json runs first and the error handler ignores body-parser's status 400
  (\<open>app_json_error\<close>). Client: results are pushed
  in completion order but applied to rows by index, so row \<open>j\<close> shows file \<open>j\<close>'s
  source data beside the result and download of the \<open>j\<close>-th request to finish
  (\<open>Client.convert_click_rows\<close>); the specification requires selection order. The file
  picker applies no extension filter, so a non-image file is selected and sent
  (\<open>picker_non_image_end_to_end\<close>). For a name \<open>.png\<close> the client saves
  \<open>.webp\<close> while the server names the file \<open>.png.webp\<close>. Sizes just under 1 MiB show
  as \<open>1024,0 Ko\<close>. Extensions \<open>constructor\<close> and \<open>__proto__\<close> are labelled with
  inherited properties of \<open>Object.prototype\<close>. Interleavings: a new selection
  re-enables the button during a batch, so a second batch can be submitted
  (\<open>double_submission\<close>), against the specification's guard; a batch that settles
  after a new selection writes its results into the new table (\<open>stale_batch_rows\<close>);
  a late dimension promise of an earlier selection writes the old file's dimensions into
  the new \<open>sourceMeta\<close> (\<open>stale_dims_write\<close>); one of the current table that
  resolves after the results erases the dimension diff (\<open>dims_overwrites_cell\<close>).
  Errors: an error status with a body that is not JSON shows the raw text, never the
  generic message the specification announces for an unparseable error
  (\<open>client_raw_error_message\<close>).
  Bubbling: the document's \<open>dragover\<close> listener removes the zone highlight the zone's
  listener has just set, and a drop on the zone is handled by both listeners, so
  \<open>updateZone\<close> runs twice (\<open>drag_bubbling\<close>).

  \<^bold>\<open>Bounds and choices.\<close> No loop of the program is unbounded, so no fuel is needed:
  every function is total by structural recursion or a \<open>div 10\<close> measure. The one loop
  that is not the program's own, the browser draining its pending continuations, is a
  \<open>partial_function (option)\<close>, and that it returns is part of a theorem
  (\<open>drain_liveness\<close>). JavaScript
  numbers are \<open>int\<close> (all values the code keeps are integers) and \<open>rat\<close> for the
  divisions; why this is exact is stated with the theorems on \<open>parseInt\<close>, on the PNG
  level and on \<open>toFixed\<close>. Strings are lists of 8-bit characters; only ASCII letters
  change case, which decides the format and extension tests exactly (no non-ASCII
  character lower-cases to an ASCII letter of the compared words); the non-ASCII texts of
  the code are written out in UTF-8.

  \<^bold>\<open>Not modelled.\<close> The pixel work of sharp and sharp-ico (decoding, resampling,
  encoding, the icon container) is the codec interface, of which only the output size is
  specified (\<open>Codec_Contract\<close>); and \<open>JSON.parse\<close> the parser
  interface; the percent-decoding and directory redirects of serve-static; the
  listening socket itself; the proxy's own behaviour beyond its target; repeated text
  fields, which multer turns into arrays; the CSS and
  DOM rendering of the client beyond the text of the table cells and the two drag classes;
  the browser's saving of a file beyond the (blob, name) it receives. The values of the form
  controls are read when the button is clicked, so they are inputs of the \<open>Click\<close>
  event; the slider's own listener only updates its label (\<open>Quality_input\<close>).
  All of these are libraries and platforms the sources only call (the \<open>require\<close> lines
  of \<^verbatim>\<open>src/server.js\<close> load them); the image codec is therefore modelled only
  through its interface and its documented geometry.

  \<^bold>\<open>Plan.\<close> The program is modelled as far as its own code goes; what remains is
  the libraries' behaviour listed above. Next, should the code change: the icon's size
  list as part of the codec contract.
\<close>

subsection \<open>Client and server together\<close>

lemma strip_last_ext_dot:
  assumes "CHR ''.'' \<notin> set e" and "e \<noteq> []"
  shows "strip_last_ext (base @ CHR ''.'' # e) = base"
proof -
  have "takeWhile (\<lambda>c. c \<noteq> CHR ''.'') (rev e @ CHR ''.'' # rev base) =
        rev e @ takeWhile (\<lambda>c. c \<noteq> CHR ''.'') (CHR ''.'' # rev base)"
    by (rule takeWhile_append2) (use assms(1) in auto)
  then have "takeWhile (\<lambda>c. c \<noteq> CHR ''.'') (rev (base @ CHR ''.'' # e)) = rev e"
    by simp
  with assms(2) show ?thesis
    by (simp add: strip_last_ext_def Let_def)
qed

text \<open>
  C31. For an ordinary file name \<open>base.ext\<close> (no directory, a non-empty base and
  extension), the server names the result \<open>base.fmt\<close> in \<open>Content-Disposition\<close>, and
  the client saves it under the same name: the client's regular expression and Node's
  \<open>path\<close> functions agree.
\<close>

theorem client_server_same_name:
  assumes "CHR ''/'' \<notin> set base" "CHR ''/'' \<notin> set e" "CHR ''.'' \<notin> set e"
    and "base \<noteq> []" "e \<noteq> []"
  shows "out_name (base @ CHR ''.'' # e) fmt = base @ CHR ''.'' # format_str fmt \<and>
         client_out_name (base @ CHR ''.'' # e) (format_str fmt) = out_name (base @ CHR ''.'' # e) fmt"
  using assms by (simp add: client_out_name_def out_name_def strip_last_ext_dot basename_no_ext_dot)

theorem client_server_same_name_witness:
  "out_name ''scan.2024.TIFF.png'' Avif = ''scan.2024.TIFF.avif'' \<and>
   client_out_name ''scan.2024.TIFF.png'' ''avif'' = out_name ''scan.2024.TIFF.png'' Avif"
  using client_server_same_name [of "''scan.2024.TIFF''" "''png''" Avif] by simp

text \<open>
  For a name that is only a dot and an extension (\<open>".png"\<close>), the two disagree:
  Node's \<open>extname\<close> sees no extension, so the server names the result \<open>".png.webp"\<close>,
  while the client strips \<open>".png"\<close> and saves \<open>".webp"\<close>.
\<close>

lemma hidden_file_names_differ:
  assumes "CHR ''/'' \<notin> set e" "CHR ''.'' \<notin> set e" "e \<noteq> []"
  shows "out_name (CHR ''.'' # e) fmt = CHR ''.'' # e @ CHR ''.'' # format_str fmt \<and>
         client_out_name (CHR ''.'' # e) (format_str fmt) = CHR ''.'' # format_str fmt"
proof -
  have "strip_last_ext ([] @ CHR ''.'' # e) = []"
    using assms(2,3) by (rule strip_last_ext_dot)
  moreover have "basename_no_ext (CHR ''.'' # e) = CHR ''.'' # e"
    using assms(1,2) by (simp add: basename_no_ext_def extname_hidden last_segment_no_slash)
  ultimately show ?thesis
    by (simp add: out_name_def client_out_name_def)
qed

text \<open>
  C21. Whatever error the server answers a client request with, the client's request
  fails with exactly the server's message: the server never sends an empty message or a
  success status with an error body, so the client's fallbacks (the raw body text, the
  status line) never show.
\<close>

theorem client_shows_server_error:
  assumes "fst (post_convert cd tmp (form_parts f fmt q mw) fs) = Json_error st m"
  shows "file_request decode fmt f (Got (fst (post_convert cd tmp (form_parts f fmt q mw) fs))) = Inl m \<and>
         m \<noteq> []"
  using post_convert_messages [OF assms] assms by (auto simp: file_request_def http_ok_def)

theorem client_shows_server_error_witness:
  "file_request (\<lambda>_. None) ''webp'' \<lparr>fname = ''notes.txt'', fdata = [1]\<rparr>
     (Got (fst (post_convert failing_codec ''/tmp/x.ico''
        (form_parts \<lparr>fname = ''notes.txt'', fdata = [1]\<rparr> ''webp'' ''80'' []) Map.empty)))
   = Inl msg_unsupported"
proof -
  have r: "fst (post_convert failing_codec ''/tmp/x.ico''
        (form_parts \<lparr>fname = ''notes.txt'', fdata = [1]\<rparr> ''webp'' ''80'' []) Map.empty)
      = Json_error 500 msg_unsupported"
    by (simp add: post_convert_def form_parts_def file_filter_def error_handler_def image_name_ok_def
        ends_with_def js_simps)
  from client_shows_server_error [OF r] r show ?thesis by simp
qed

text \<open>
  C34. The file picker applies no extension filter, unlike a drop: a non-image file chosen
  with it is selected, the convert button is enabled, and converting it sends it to the
  server, which rejects it in its upload filter; the banner then shows the filter's message
  as an error. The specification has the client reject such files itself.
\<close>

theorem picker_non_image_end_to_end:
  assumes "fname f \<noteq> []" and "\<not> image_name_ok (fname f)"
  shows "files (select_files [f] c) = [f] \<and> \<not> btn_disabled (select_files [f] c) \<and>
         message (fst (convert_click decode fmt
             (\<lambda>i. Got (fst (post_convert cd tmp (form_parts f fmt q mw) fs))) [0] (select_files [f] c)))
         = Some (msg_unsupported, True)"
proof -
  have server: "fst (post_convert cd tmp (form_parts f fmt q mw) fs) = Json_error 500 msg_unsupported"
    using assms by (simp add: post_convert_def form_parts_def file_filter_def error_handler_def)
  have sel: "files (select_files [f] c) = [f]" "\<not> btn_disabled (select_files [f] c)"
    by (simp_all add: select_files_def update_zone_def Let_def)
  have "map (\<lambda>i. file_request decode fmt (files (select_files [f] c) ! i)
           (Got (fst (post_convert cd tmp (form_parts f fmt q mw) fs)))) [0] = [Inl msg_unsupported]"
    using sel(1) server by (simp add: file_request_def http_ok_def)
  with sel show ?thesis
    by (simp add: convert_click_defs)
qed

theorem picker_non_image_end_to_end_witness:
  "message (fst (convert_click (\<lambda>_. None) ''webp''
      (\<lambda>i. Got (fst (post_convert echo_codec ''/tmp/x.ico''
         (form_parts \<lparr>fname = ''notes.txt'', fdata = [1]\<rparr> ''webp'' ''80'' []) Map.empty))) [0]
      (select_files [\<lparr>fname = ''notes.txt'', fdata = [1]\<rparr>] empty_client)))
   = Some (msg_unsupported, True)"
proof -
  have "fname \<lparr>fname = ''notes.txt'', fdata = [1 :: 8 word]\<rparr> \<noteq> []"
    "\<not> image_name_ok (fname \<lparr>fname = ''notes.txt'', fdata = [1 :: 8 word]\<rparr>)"
    by (simp_all add: image_name_ok_def ends_with_def js_simps)
  from picker_non_image_end_to_end [OF this] show ?thesis by simp
qed

text \<open>
  The page, the server and the codec contract together: when a batch is sent with a
  \<open>maxWidth\<close> that takes effect and the codec meets the geometry contract, every result
  the page records carries converted dimensions within the \<open>maxWidth\<close> box, which the
  table then shows beside the source's.
\<close>

lemma system_batch_dims:
  assumes "\<forall>f \<in> set (b_files b). fname f \<noteq> [] \<and> image_name_ok (fname f) \<and> length (fdata f) \<le> upload_limit"
    and "b_fmt b \<noteq> []" and "format_of_string (to_lower (b_fmt b)) = Some F" and "F \<noteq> Ico"
    and "geometry_ok cd decode"
    and "b_max_width b \<noteq> []" and "valid_max_width (Some (b_max_width b)) = Some m"
    and "\<forall>i \<in> set ord. i < length (b_files b) \<and> decode (fdata (b_files b ! i)) = Some (w i, h i) \<and>
           0 < w i \<and> 0 < h i \<and>
           to_buffer cd (fdata (b_files b ! i))
             (resize_ops (Some m) @ [encode_op F (resolve_quality (Some (b_quality b)))]) = Inr (out i)"
  shows "\<exists>rs. Client_Events.batch_outcome decode b (system_reply cd tmp jp public fs b) ord = Inr rs \<and>
           length rs = length ord \<and>
           (\<forall>r \<in> set rs. \<exists>w' h'. r_dims r = Some (w', h') \<and> w' \<le> nat m \<and> h' \<le> nat m)"
proof -
  have "\<forall>i \<in> set ord. file_request decode (b_fmt b) (b_files b ! i) (system_reply cd tmp jp public fs b i) =
          Inr (make_result decode (b_fmt b) (b_files b ! i) (out i))"
    using assms(1-4,6,7,8) by (auto intro!: system_reply_ok [where F = F])
  then have "Client_Events.batch_outcome decode b (system_reply cd tmp jp public fs b) ord =
      Inr (map (\<lambda>i. make_result decode (b_fmt b) (b_files b ! i) (out i)) ord)"
    by (rule batch_outcome_all_ok)
  moreover have "\<exists>w' h'. decode (out i) = Some (w', h') \<and> w' \<le> nat m \<and> h' \<le> nat m"
    if "i \<in> set ord" for i
  proof -
    obtain w' h' where fit: "fit_inside (nat m) (nat m) (w i, h i) = (w', h')" by fastforce
    have "decode (out i) = Some (w', h')"
      using assms(5) assms(8) that fit by (auto simp: geometry_ok_def pipeline_dims_handler)
    moreover have "0 < nat m" using valid_max_width_pos [OF assms(7)] by simp
    ultimately show ?thesis
      using fit_inside_bounds [OF _ _ _ _ fit] assms(8) that by auto
  qed
  ultimately show ?thesis by (auto simp: make_result_def)
qed

end
